(* ===== verification/Prelude.thy ===== *)
theory Prelude
  imports Main "HOL-Library.AList" "HOL-Library.Char_ord" "HOL-Library.List_Lexorder"
begin

text \<open>
  Shared vocabulary of the development: Python's strings, dictionaries, slices and integer
  parsing as far as the server uses them, results with errors, and the two generic interfaces
  (ordered dictionaries and transition systems with an invariant) that the components interpret.

  A Python \<open>str\<close> is a list of code points; a \<^typ>\<open>string\<close> here is a list of
  \<^typ>\<open>char\<close>, that is, of the code points 0 to 255 (Latin-1).  Case folding and white space
  follow Python on exactly that range.
\<close>

named_theorems state_frame \<open>operations that leave a field of a state alone\<close>
named_theorems py_simps \<open>evaluation of the Python string and dictionary primitives\<close>

section \<open>Strings\<close>

definition py_lower_char :: "char \<Rightarrow> char" where
  "py_lower_char c =
     (let n = (of_char c :: nat)
      in if (65 \<le> n \<and> n \<le> 90) \<or> (192 \<le> n \<and> n \<le> 222 \<and> n \<noteq> 215) then char_of (n + 32) else c)"

definition py_lower :: "string \<Rightarrow> string" where
  "py_lower s = map py_lower_char s"

definition py_isspace :: "char \<Rightarrow> bool" where
  "py_isspace c =
     (let n = (of_char c :: nat)
      in (9 \<le> n \<and> n \<le> 13) \<or> (28 \<le> n \<and> n \<le> 32) \<or> n = 133 \<or> n = 160)"

definition py_strip_chars :: "(char \<Rightarrow> bool) \<Rightarrow> string \<Rightarrow> string" where
  "py_strip_chars p s = rev (dropWhile p (rev (dropWhile p s)))"

definition py_strip :: "string \<Rightarrow> string" where
  "py_strip = py_strip_chars py_isspace"

text \<open>\<open>s.split(c)\<close> for a one-character separator: never empty.\<close>

fun py_split :: "char \<Rightarrow> string \<Rightarrow> string list" where
  "py_split c [] = [[]]"
| "py_split c (x # xs) =
     (if x = c then [] # py_split c xs
      else (case py_split c xs of [] \<Rightarrow> [[x]] | w # ws \<Rightarrow> (x # w) # ws))"

text \<open>\<open>sep.join(words)\<close>.\<close>

fun py_join :: "string \<Rightarrow> string list \<Rightarrow> string" where
  "py_join sep [] = []"
| "py_join sep [w] = w"
| "py_join sep (w # v # ws) = w @ sep @ py_join sep (v # ws)"

definition py_startswith :: "string \<Rightarrow> string \<Rightarrow> bool" where
  "py_startswith s p = (take (length p) s = p)"

text \<open>\<open>needle in text\<close>.\<close>

fun py_contains :: "string \<Rightarrow> string \<Rightarrow> bool" where
  "py_contains needle [] = (needle = [])"
| "py_contains needle (x # xs) = (py_startswith (x # xs) needle \<or> py_contains needle xs)"

text \<open>\<open>s or None\<close>: an empty string is falsy.\<close>

definition or_none :: "string \<Rightarrow> string option" where
  "or_none s = (if s = [] then None else Some s)"

lemma py_lower_char_idem [simp]: "py_lower_char (py_lower_char c) = py_lower_char c"
proof -
  have bound: "(of_char c :: nat) < 256" by (cases c) simp
  show ?thesis
    using bound by (auto simp: py_lower_char_def Let_def of_char_of)
qed

lemma py_lower_idem [simp]: "py_lower (py_lower s) = py_lower s"
  by (simp add: py_lower_def)

lemma py_lower_Nil [simp]: "py_lower [] = []"
  by (simp add: py_lower_def)

lemma py_lower_append: "py_lower (xs @ ys) = py_lower xs @ py_lower ys"
  by (simp add: py_lower_def)

lemma length_py_lower [simp]: "length (py_lower s) = length s"
  by (simp add: py_lower_def)

lemma py_lower_eq_Nil [simp]: "py_lower s = [] \<longleftrightarrow> s = []"
  by (simp add: py_lower_def)

lemma py_split_not_Nil [simp]: "py_split c s \<noteq> []"
  by (induction s) (auto split: list.splits)

lemma py_split_free: "w \<in> set (py_split c s) \<Longrightarrow> c \<notin> set w"
  by (induction s arbitrary: w) (auto split: list.splits if_splits)

lemma py_split_single: "c \<notin> set s \<Longrightarrow> py_split c s = [s]"
  by (induction s) auto

lemma py_split_append_sep: "c \<notin> set w \<Longrightarrow> py_split c (w @ c # rest) = w # py_split c rest"
  by (induction w) (auto split: list.splits)

text \<open>Splitting what was joined on a separator that no word contains gives the words back.\<close>

lemma py_split_join:
  "ws \<noteq> [] \<Longrightarrow> \<forall>w \<in> set ws. c \<notin> set w \<Longrightarrow> py_split c (py_join [c] ws) = ws"
  by (induction "[c]" ws rule: py_join.induct) (auto simp: py_split_single py_split_append_sep)

lemma py_join_split: "py_join [c] (py_split c s) = s"
proof (induction s)
  case (Cons x xs)
  then show ?case by (cases "py_split c xs"; cases "tl (py_split c xs)") auto
qed simp

lemma py_strip_Nil [simp]: "py_strip [] = []"
  by (simp add: py_strip_def py_strip_chars_def)

lemma py_strip_chars_idem [simp]: "py_strip_chars p (py_strip_chars p s) = py_strip_chars p s"
proof (cases "dropWhile p s")
  case Nil
  then have e: "py_strip_chars p s = []" by (simp only: py_strip_chars_def) simp
  show ?thesis unfolding e by (simp add: py_strip_chars_def)
next
  case (Cons x xs)
  then have x: "\<not> p x"
    using hd_dropWhile [of p s] by simp
  obtain ys where ys: "rev (dropWhile p (rev (x # xs))) = x # ys"
    using x by (cases "\<forall>y \<in> set xs. p y")
      (auto simp: dropWhile_append1 dropWhile_append2 dropWhile_append3)
  have "dropWhile p (rev (x # ys)) = rev (x # ys)"
    using ys by (metis dropWhile_idem rev_rev_ident)
  with x ys Cons show ?thesis
    by (simp add: py_strip_chars_def)
qed

lemma py_strip_idem [simp]: "py_strip (py_strip s) = py_strip s"
  by (simp add: py_strip_def)

section \<open>Slices\<close>

text \<open>\<open>xs[a:b]\<close> for bounds that are not negative.\<close>

definition py_slice :: "nat \<Rightarrow> nat \<Rightarrow> 'a list \<Rightarrow> 'a list" where
  "py_slice a b xs = take (b - a) (drop a xs)"

lemma set_py_slice: "set (py_slice a b xs) \<subseteq> set xs"
  by (auto simp: py_slice_def dest: in_set_takeD in_set_dropD)

lemma length_py_slice: "length (py_slice a b xs) = min (b - a) (length xs - a)"
  by (simp add: py_slice_def min.commute)

text \<open>\<open>collections.deque(maxlen=n)\<close>: what is left after the oldest items were dropped.\<close>

definition last_n :: "nat \<Rightarrow> 'a list \<Rightarrow> 'a list" where
  "last_n n xs = drop (length xs - n) xs"

lemma length_last_n [simp]: "length (last_n n xs) = min n (length xs)"
  by (simp add: last_n_def min_def)

lemma last_n_all [simp]: "length xs \<le> n \<Longrightarrow> last_n n xs = xs"
  by (simp add: last_n_def)

lemma set_last_n: "set (last_n n xs) \<subseteq> set xs"
  by (auto simp: last_n_def dest: in_set_dropD)

lemma last_n_snoc [simp]: "last_n n (last_n n xs @ [x]) = last_n n (xs @ [x])"
proof (cases "length xs \<le> n")
  case False
  then have "last_n n xs @ [x] = drop (length xs - n) (xs @ [x])"
    by (simp add: last_n_def)
  with False show ?thesis by (simp add: last_n_def Suc_diff_le)
qed simp

lemma last_n_map: "last_n n (map f xs) = map f (last_n n xs)"
  by (simp add: last_n_def drop_map)

section \<open>Dictionaries\<close>

text \<open>
  A Python \<open>dict\<close> keeps insertion order; assigning to a key that is present keeps its place.
  It is an association list: \<^const>\<open>map_of\<close> reads, \<^const>\<open>AList.update\<close> assigns,
  \<^const>\<open>AList.delete\<close> pops.
\<close>

type_synonym ('k, 'v) dict = "('k \<times> 'v) list"

abbreviation dget :: "('k, 'v) dict \<Rightarrow> 'k \<Rightarrow> 'v option" where
  "dget \<equiv> map_of"

abbreviation dset :: "'k \<Rightarrow> 'v \<Rightarrow> ('k, 'v) dict \<Rightarrow> ('k, 'v) dict" where
  "dset \<equiv> AList.update"

abbreviation dpop :: "'k \<Rightarrow> ('k, 'v) dict \<Rightarrow> ('k, 'v) dict" where
  "dpop \<equiv> AList.delete"

definition dvalues :: "('k, 'v) dict \<Rightarrow> 'v list" where
  "dvalues d = map snd d"

definition dkeys :: "('k, 'v) dict \<Rightarrow> 'k list" where
  "dkeys d = map fst d"

definition dict_ok :: "('k, 'v) dict \<Rightarrow> bool" where
  "dict_ok d = distinct (map fst d)"

lemma dict_ok_Nil [simp]: "dict_ok []"
  by (simp add: dict_ok_def)

lemma dict_ok_dset [simp]: "dict_ok d \<Longrightarrow> dict_ok (dset k v d)"
  by (simp add: dict_ok_def distinct_update)

lemma dict_ok_dpop [simp]: "dict_ok d \<Longrightarrow> dict_ok (dpop k d)"
  by (simp add: dict_ok_def distinct_delete)

lemma dict_ok_filter [simp]: "dict_ok d \<Longrightarrow> dict_ok (filter p d)"
  by (simp add: dict_ok_def distinct_map_filter)

lemma dget_dset: "dget (dset k v d) k' = (if k' = k then Some v else dget d k')"
  by (simp add: update_conv')

lemma dget_dpop: "dget (dpop k d) k' = (if k' = k then None else dget d k')"
  by (simp add: delete_conv')

lemma dget_in: "dict_ok d \<Longrightarrow> dget d k = Some v \<longleftrightarrow> (k, v) \<in> set d"
  by (simp add: dict_ok_def)

lemma dget_mem: "dget d k = Some v \<Longrightarrow> (k, v) \<in> set d"
  by (rule map_of_SomeD)

lemma dget_value: "dget d k = Some v \<Longrightarrow> v \<in> set (dvalues d)"
  by (force simp: dvalues_def dest: dget_mem)

lemma set_dvalues: "dict_ok d \<Longrightarrow> v \<in> set (dvalues d) \<longleftrightarrow> (\<exists>k. dget d k = Some v)"
  by (force simp: dvalues_def dict_ok_def)

lemma set_dset: "dict_ok d \<Longrightarrow> set (dset k v d) = insert (k, v) {p \<in> set d. fst p \<noteq> k}"
  by (induction d) (force simp: dict_ok_def)+

lemma dpop_filter: "dpop k d = filter (\<lambda>p. fst p \<noteq> k) d"
  by (induction d) auto

lemma set_dpop: "set (dpop k d) = {p \<in> set d. fst p \<noteq> k}"
  by (auto simp: dpop_filter)

lemma length_dset: "length (dset k v d) = (if k \<in> fst ` set d then length d else Suc (length d))"
  by (induction d) auto

lemma length_dpop_le: "length (dpop k d) \<le> length d"
  by (simp add: dpop_filter)

lemma dpop_absent: "dget d k = None \<Longrightarrow> dpop k d = d"
  by (simp add: map_of_eq_None_iff)

lemmas dict_simps = dget_dset dget_dpop set_dset set_dpop

section \<open>JSON values\<close>

text \<open>The values of request bodies and of the free-form fields of records (no floats).\<close>

datatype json = JNull | JBool bool | JInt int | JStr string | JArr "json list" | JObj "(string \<times> json) list"

section \<open>Results with errors\<close>

text \<open>
  An operation that may raise and that changes a state \<open>'s\<close> returns the outcome, \<open>Inl\<close> the
  error, and the state it leaves: what was written before the exception stays written.
\<close>

type_synonym ('e, 'a, 's) act = "'s \<Rightarrow> ('e + 'a) \<times> 's"

definition ret :: "'a \<Rightarrow> ('e, 'a, 's) act" where
  "ret x s = (Inr x, s)"

definition raise :: "'e \<Rightarrow> ('e, 'a, 's) act" where
  "raise e s = (Inl e, s)"

definition andThen :: "('e, 'a, 's) act \<Rightarrow> ('a \<Rightarrow> ('e, 'b, 's) act) \<Rightarrow> ('e, 'b, 's) act" where
  "andThen m f s = (case m s of (Inl e, s') \<Rightarrow> (Inl e, s') | (Inr x, s') \<Rightarrow> f x s')"

definition lift :: "'e + 'a \<Rightarrow> ('e, 'a, 's) act" where
  "lift r s = (r, s)"

definition guard :: "bool \<Rightarrow> 'e \<Rightarrow> ('e, unit, 's) act" where
  "guard b e s = (if b then (Inr (), s) else (Inl e, s))"

definition modify :: "('s \<Rightarrow> 's) \<Rightarrow> ('e, unit, 's) act" where
  "modify f s = (Inr (), f s)"

definition reads :: "('s \<Rightarrow> 'a) \<Rightarrow> ('e, 'a, 's) act" where
  "reads f s = (Inr (f s), s)"

definition reads_err :: "('s \<Rightarrow> 'e + 'a) \<Rightarrow> ('e, 'a, 's) act" where
  "reads_err f s = (f s, s)"

definition update_with :: "('s \<Rightarrow> 'a \<times> 's) \<Rightarrow> ('e, 'a, 's) act" where
  "update_with f s = (let (x, s') = f s in (Inr x, s'))"

lemmas act_defs = ret_def raise_def andThen_def lift_def guard_def modify_def reads_def
  reads_err_def update_with_def

lemma andThen_Inr:
  "andThen m f s = (Inr y, s'') \<longleftrightarrow> (\<exists>x s'. m s = (Inr x, s') \<and> f x s' = (Inr y, s''))"
  by (auto simp: andThen_def split: prod.splits sum.splits)

lemma andThen_assoc: "andThen (andThen m f) g = andThen m (\<lambda>x. andThen (f x) g)"
  by (rule ext) (simp add: andThen_def split: prod.split sum.split)

text \<open>A property of the state that every step of a sequence keeps is kept by the sequence.\<close>

definition keeps :: "('s \<Rightarrow> bool) \<Rightarrow> ('e, 'a, 's) act \<Rightarrow> bool" where
  "keeps P m \<longleftrightarrow> (\<forall>s. P s \<longrightarrow> P (snd (m s)))"

named_theorems keeps_intros \<open>rules for \<^const>\<open>keeps\<close>\<close>

lemma keeps_andThen [keeps_intros]:
  "keeps P m \<Longrightarrow> (\<And>x. keeps P (f x)) \<Longrightarrow> keeps P (andThen m f)"
  by (fastforce simp: keeps_def andThen_def split: prod.splits sum.splits)

lemma keeps_pure [keeps_intros]:
  "keeps P (ret x)" "keeps P (raise e)" "keeps P (lift r)" "keeps P (guard b e)"
  "keeps P (reads f)" "keeps P (reads_err g)"
  by (auto simp: keeps_def act_defs)

lemma keeps_modify [keeps_intros]: "(\<And>s. P s \<Longrightarrow> P (f s)) \<Longrightarrow> keeps P (modify f)"
  by (simp add: keeps_def modify_def)

lemma keeps_update_with [keeps_intros]:
  "(\<And>s. P s \<Longrightarrow> P (snd (f s))) \<Longrightarrow> keeps P (update_with f)"
  by (simp add: keeps_def update_with_def case_prod_beta)

lemma keeps_if [keeps_intros]:
  "(b \<Longrightarrow> keeps P m) \<Longrightarrow> (\<not> b \<Longrightarrow> keeps P m') \<Longrightarrow> keeps P (if b then m else m')"
  by simp

lemma keepsD: "keeps P m \<Longrightarrow> P s \<Longrightarrow> m s = (r, s') \<Longrightarrow> P s'"
  by (metis keeps_def snd_conv)

text \<open>
  Weakest precondition of an action: \<open>Q\<close> holds of the result and the state it leaves, or \<open>E\<close> of
  the error and the state it leaves.  The equations compute it along a sequence.
\<close>

definition wp :: "('e, 'a, 's) act \<Rightarrow> ('a \<Rightarrow> 's \<Rightarrow> bool) \<Rightarrow> ('e \<Rightarrow> 's \<Rightarrow> bool) \<Rightarrow> 's \<Rightarrow> bool" where
  "wp m Q E s = (case m s of (Inr x, s') \<Rightarrow> Q x s' | (Inl err, s') \<Rightarrow> E err s')"

lemma wp_andThen: "wp (andThen m f) Q E s = wp m (\<lambda>x. wp (f x) Q E) E s"
  by (simp add: wp_def act_defs split: prod.splits sum.splits)

lemma wp_ret: "wp (ret x) Q E s = Q x s"
  by (simp add: wp_def act_defs split: prod.splits sum.splits)

lemma wp_raise: "wp (raise err) Q E s = E err s"
  by (simp add: wp_def act_defs split: prod.splits sum.splits)

lemma wp_lift: "wp (lift r) Q E s = (case r of Inr x \<Rightarrow> Q x s | Inl err \<Rightarrow> E err s)"
  by (simp add: wp_def act_defs split: prod.splits sum.splits)

lemma wp_guard: "wp (guard b err) Q E s = (if b then Q () s else E err s)"
  by (simp add: wp_def act_defs split: prod.splits sum.splits)

lemma wp_modify: "wp (modify g) Q E s = Q () (g s)"
  by (simp add: wp_def act_defs split: prod.splits sum.splits)

lemma wp_reads: "wp (reads h) Q E s = Q (h s) s"
  by (simp add: wp_def act_defs split: prod.splits sum.splits)

lemma wp_reads_err: "wp (reads_err k) Q E s = (case k s of Inr x \<Rightarrow> Q x s | Inl err \<Rightarrow> E err s)"
  by (simp add: wp_def act_defs split: prod.splits sum.splits)

lemma wp_update_with: "wp (update_with u) Q E s = (case u s of (x, s') \<Rightarrow> Q x s')"
  by (simp add: wp_def act_defs split: prod.splits sum.splits)

lemma wp_if: "wp (if c then m else m') Q E s = (if c then wp m Q E s else wp m' Q E s)"
  by (simp add: wp_def act_defs split: prod.splits sum.splits)

lemma wp_case_option:
  "wp (case ov of None \<Rightarrow> m | Some y \<Rightarrow> n y) Q E s
     = (case ov of None \<Rightarrow> wp m Q E s | Some y \<Rightarrow> wp (n y) Q E s)"
  by (simp split: option.splits)

lemmas wp_simps = wp_andThen wp_ret wp_raise wp_lift wp_guard wp_modify wp_reads wp_reads_err wp_update_with wp_if wp_case_option

text \<open>A step that only reads need not be taken apart: one case for its value, one for its error.\<close>

definition read_only :: "('e, 'a, 's) act \<Rightarrow> bool" where
  "read_only m \<longleftrightarrow> (\<forall>s. snd (m s) = s)"

lemma read_only_simps [simp]:
  "read_only (ret x)" "read_only (raise err)" "read_only (lift r)" "read_only (guard b err)"
  "read_only (reads h)" "read_only (reads_err k)"
  by (simp_all add: read_only_def act_defs)

lemma read_only_andThen [simp]: "read_only m \<Longrightarrow> (\<And>x. read_only (f x)) \<Longrightarrow> read_only (andThen m f)"
  by (simp add: read_only_def andThen_def split: prod.split sum.split) (metis snd_conv)

lemma read_only_cases [simp]:
  "read_only m \<Longrightarrow> read_only m' \<Longrightarrow> read_only (if b then m else m')"
  "read_only m \<Longrightarrow> (\<And>y. read_only (n y)) \<Longrightarrow> read_only (case ov of None \<Rightarrow> m | Some y \<Rightarrow> n y)"
  by (simp_all split: option.split)

lemma wp_read_only:
  "read_only m \<Longrightarrow> wp (andThen m f) Q E s \<longleftrightarrow>
     (\<forall>x. fst (m s) = Inr x \<longrightarrow> wp (f x) Q E s) \<and> (\<forall>err. fst (m s) = Inl err \<longrightarrow> E err s)"
proof -
  assume "read_only m"
  then have "m s = (fst (m s), s)" by (metis read_only_def prod.collapse)
  then show ?thesis
    unfolding wp_andThen wp_def [of m] by (cases "fst (m s)") (metis (no_types, lifting) prod.case sum.case sum.inject sum.distinct)+
qed

lemma wp_modify_then: "wp (andThen (modify g) f) Q E s = wp (f ()) Q E (g s)"
  by (simp add: wp_andThen wp_modify)

lemmas wp_steps = wp_read_only wp_modify_then wp_ret wp_modify wp_if

lemma wp_mono:
  "wp m Q E s \<Longrightarrow> (\<And>x s'. Q x s' \<Longrightarrow> Q' x s') \<Longrightarrow> (\<And>err s'. E err s' \<Longrightarrow> E' err s') \<Longrightarrow> wp m Q' E' s"
  by (auto simp: wp_def split: prod.splits sum.splits)

lemma wp_result: "wp m Q E s \<Longrightarrow> m s = (Inr x, s') \<Longrightarrow> Q x s'"
  by (simp add: wp_def)

lemma wp_error: "wp m Q E s \<Longrightarrow> m s = (Inl err, s') \<Longrightarrow> E err s'"
  by (simp add: wp_def)

lemma wp_state: "wp m (\<lambda>_. P) (\<lambda>_. P) s \<longleftrightarrow> P (snd (m s))"
  by (auto simp: wp_def split: prod.splits sum.splits)

section \<open>Integers in text\<close>

definition py_is_digit :: "char \<Rightarrow> bool" where
  "py_is_digit c = (let n = (of_char c :: nat) in 48 \<le> n \<and> n \<le> 57)"

definition digit_val :: "char \<Rightarrow> int" where
  "digit_val c = of_char c - 48"

text \<open>The digits of \<open>int(text)\<close>: single underscores between digits are skipped.\<close>

fun py_digits :: "int \<Rightarrow> string \<Rightarrow> int option" where
  "py_digits acc [] = Some acc"
| "py_digits acc (c # cs) =
     (if py_is_digit c then py_digits (10 * acc + digit_val c) cs
      else if c = CHR ''_'' then
        (case cs of [] \<Rightarrow> None
         | d # ds \<Rightarrow> if py_is_digit d then py_digits (10 * acc + digit_val d) ds else None)
      else None)"

definition py_nat :: "string \<Rightarrow> int option" where
  "py_nat s = (case s of [] \<Rightarrow> None | c # cs \<Rightarrow> if py_is_digit c then py_digits 0 s else None)"

definition py_int :: "string \<Rightarrow> int option" where
  "py_int text =
     (case py_strip text of
        [] \<Rightarrow> None
      | c # cs \<Rightarrow> if c = CHR ''-'' then map_option uminus (py_nat cs)
                  else if c = CHR ''+'' then py_nat cs
                  else py_nat (c # cs))"

text \<open>\<open>str(n)\<close> for a non-negative integer.\<close>

fun show_nat :: "nat \<Rightarrow> string" where
  "show_nat n = (if n < 10 then [char_of (48 + n)] else show_nat (n div 10) @ [char_of (48 + n mod 10)])"

declare show_nat.simps [simp del]

lemma show_nat_not_Nil [simp]: "show_nat n \<noteq> []"
  by (subst show_nat.simps) simp

section \<open>Transition systems with an invariant\<close>

text \<open>
  Every component with a state of its own is a set of initial states and a step relation; its
  safety properties are invariants of the reachable states.
\<close>

inductive reachable :: "('s \<Rightarrow> bool) \<Rightarrow> ('s \<Rightarrow> 's \<Rightarrow> bool) \<Rightarrow> 's \<Rightarrow> bool"
  for init :: "'s \<Rightarrow> bool" and step :: "'s \<Rightarrow> 's \<Rightarrow> bool" where
  reach_init: "init s \<Longrightarrow> reachable init step s"
| reach_step: "reachable init step s \<Longrightarrow> step s t \<Longrightarrow> reachable init step t"

locale invariant_system =
  fixes init :: "'s \<Rightarrow> bool"
    and step :: "'s \<Rightarrow> 's \<Rightarrow> bool"
    and inv :: "'s \<Rightarrow> bool"
  assumes inv_init: "init s \<Longrightarrow> inv s"
    and inv_step: "inv s \<Longrightarrow> step s t \<Longrightarrow> inv t"
begin

lemma reachable_inv: "reachable init step s \<Longrightarrow> inv s"
  by (induction rule: reachable.induct) (auto intro: inv_init inv_step)

lemma steps_inv: "step\<^sup>*\<^sup>* s t \<Longrightarrow> inv s \<Longrightarrow> inv t"
  by (induction rule: rtranclp_induct) (auto intro: inv_step)

end

end
