(* ===== verification/Permissions.thy ===== *)
theory Permissions
  imports Prelude
begin

text \<open>
  Permission strings of the users plugin (\<open>plugins/users/qodalis_cli_users/permissions.py\<close> and
  the coverage checks of \<open>services/auth_service.py\<close>): matching of a granted against a required
  permission, the union of permission lists, and what it means that one list covers another.
\<close>

section \<open>Matching\<close>

definition ADMIN_GROUP :: string where "ADMIN_GROUP = ''admin''"
definition USERS_GROUP :: string where "USERS_GROUP = ''users''"

definition perm_segs :: "string \<Rightarrow> string list" where
  "perm_segs p = py_split (CHR '':'') (py_lower (py_strip p))"

text \<open>
  The loop of \<open>permission_matches\<close> over the granted segments; the second list is what is left of
  the required segments, and at the end of the loop the lengths agree when nothing is left.
\<close>

fun match_segs :: "string list \<Rightarrow> string list \<Rightarrow> bool" where
  "match_segs [] r = (r = [])"
| "match_segs (seg # g) r =
     (if seg = ''*'' \<and> g = [] then True
      else (case r of
              [] \<Rightarrow> False
            | x # r' \<Rightarrow> if seg \<noteq> ''*'' \<and> seg \<noteq> x then False else match_segs g r'))"

definition permission_matches :: "string \<Rightarrow> string \<Rightarrow> bool" where
  "permission_matches granted required = match_segs (perm_segs granted) (perm_segs required)"

definition has_permission :: "string list \<Rightarrow> string \<Rightarrow> bool" where
  "has_permission granted required = (\<exists>p \<in> set granted. permission_matches p required)"

definition covers :: "string list \<Rightarrow> string list \<Rightarrow> bool" where
  "covers granted required = (\<forall>p \<in> set required. has_permission granted p)"

definition uncovered :: "string list \<Rightarrow> string list \<Rightarrow> string list" where
  "uncovered granted required = filter (\<lambda>p. \<not> has_permission granted p) required"

section \<open>Union\<close>

text \<open>The inner loop of \<open>merge_permissions\<close>: \<open>seen\<close> and \<open>out\<close> are its two accumulators.\<close>

fun merge_one :: "string set \<times> string list \<Rightarrow> string list \<Rightarrow> string set \<times> string list" where
  "merge_one acc [] = acc"
| "merge_one (seen, out) (p # ps) =
     (let key = py_strip p
      in if key \<noteq> [] \<and> py_lower key \<notin> seen
         then merge_one (insert (py_lower key) seen, out @ [key]) ps
         else merge_one (seen, out) ps)"

definition merge_permissions :: "string list list \<Rightarrow> string list" where
  "merge_permissions ls = snd (foldl merge_one ({}, []) ls)"

section \<open>Specification of matching\<close>

definition seg_ok :: "string \<Rightarrow> string \<Rightarrow> bool" where
  "seg_ok g r \<longleftrightarrow> g = ''*'' \<or> g = r"

text \<open>
  A pattern with a trailing \<open>*\<close> matches everything at that level and below, the level itself
  included; every other pattern matches segment by segment.
\<close>

definition match_spec :: "string list \<Rightarrow> string list \<Rightarrow> bool" where
  "match_spec g r \<longleftrightarrow>
     (if g \<noteq> [] \<and> last g = ''*''
      then length g \<le> Suc (length r) \<and> list_all2 seg_ok (butlast g) (take (length g - 1) r)
      else list_all2 seg_ok g r)"

lemma match_segs_spec: "match_segs g r = match_spec g r"
proof (induction g r rule: match_segs.induct)
  case (1 r)
  then show ?case by (auto simp: match_spec_def)
next
  case (2 seg g r)
  show ?case
  proof (cases "g = []")
    case True
    then show ?thesis
      by (auto simp: match_spec_def seg_ok_def split: list.splits)
  next
    case False
    show ?thesis
    proof (cases r)
      case Nil
      with False show ?thesis
        by (cases g) (auto simp: match_spec_def)
    next
      case (Cons x r')
      with False 2 show ?thesis
        by (cases "length g") (auto simp: match_spec_def seg_ok_def)
    qed
  qed
qed

lemma perm_segs_not_Nil [simp]: "perm_segs p \<noteq> []"
  by (simp add: perm_segs_def)

lemma perm_segs_lower: "perm_segs p = perm_segs q" if "py_lower (py_strip p) = py_lower (py_strip q)"
  using that by (simp add: perm_segs_def)

lemma perm_segs_strip [simp]: "perm_segs (py_strip p) = perm_segs p"
  by (simp add: perm_segs_def)

lemma match_segs_refl: "match_segs g g"
  by (induction g) auto

lemma match_segs_trans_or_parent:
  "match_segs g r \<Longrightarrow> match_segs r p \<Longrightarrow>
     match_segs g p \<or>
     (length g = length r + 1 \<and> length r = length p + 1 \<and> last g = ''*'' \<and> last r = ''*'')"
proof (induction g r arbitrary: p rule: match_segs.induct)
  case (1 r)
  then show ?case by simp
next
  case (2 seg g r)
  show ?case
  proof (cases "seg = ''*'' \<and> g = []")
    case False
    with "2.prems" obtain x r' where r: "r = x # r'" and ok: "seg = ''*'' \<or> seg = x"
      and m: "match_segs g r'"
      by (auto split: list.splits if_splits)
    show ?thesis
    proof (cases "x = ''*'' \<and> r' = []")
      case True
      with m have g: "g = [] \<or> g = [''*'']"
        by (cases g) (auto split: list.splits if_splits)
      with True False ok r show ?thesis
        by (cases p) auto
    next
      case x: False
      with "2.prems"(2) r obtain y p' where p: "p = y # p'" and xy: "x = ''*'' \<or> x = y"
        and m': "match_segs r' p'"
        by (auto split: list.splits if_splits)
      have "match_segs g p' \<or>
        (length g = length r' + 1 \<and> length r' = length p' + 1 \<and> last g = ''*'' \<and> last r' = ''*'')"
        using "2.IH" [OF False r] ok m m' by auto
      with p xy ok r False show ?thesis
        by (auto split: if_splits)
    qed
  qed simp
qed

section \<open>Lemmas on lists of permissions\<close>

lemma uncovered_Nil: "uncovered granted required = [] \<longleftrightarrow> covers granted required"
  by (auto simp: uncovered_def covers_def filter_empty_conv)

lemma has_permission_mono: "set a \<subseteq> set b \<Longrightarrow> has_permission a p \<Longrightarrow> has_permission b p"
  by (auto simp: has_permission_def)

lemma has_permission_append [simp]: "has_permission (a @ b) p \<longleftrightarrow> has_permission a p \<or> has_permission b p"
  by (auto simp: has_permission_def)

lemma has_permission_Nil [simp]: "\<not> has_permission [] p"
  by (simp add: has_permission_def)

lemma has_permission_self: "p \<in> set ps \<Longrightarrow> has_permission ps p"
  using match_segs_refl [of "perm_segs p"] by (auto simp: has_permission_def permission_matches_def)

lemma covers_refl [simp]: "covers ps ps"
  by (simp add: covers_def has_permission_self)

lemma has_permission_star: "''*'' \<in> set ps \<Longrightarrow> has_permission ps p"
proof -
  assume s: "''*'' \<in> set ps"
  have "perm_segs ''*'' = [''*'']" by code_simp
  then have "permission_matches ''*'' p" by (simp add: permission_matches_def)
  with s show ?thesis by (auto simp: has_permission_def)
qed

text \<open>What the accumulators of the union hold after a list.\<close>

definition merge_inv :: "string set \<times> string list \<Rightarrow> bool" where
  "merge_inv acc \<longleftrightarrow> fst acc = (\<lambda>q. py_lower q) ` set (snd acc) \<and> distinct (map py_lower (snd acc))
     \<and> (\<forall>q \<in> set (snd acc). py_strip q = q \<and> q \<noteq> [])"

lemma merge_inv_snoc:
  "merge_inv (seen, out) \<Longrightarrow> py_strip p \<noteq> [] \<Longrightarrow> py_lower (py_strip p) \<notin> seen \<Longrightarrow>
   merge_inv (insert (py_lower (py_strip p)) seen, out @ [py_strip p])"
  by (simp add: merge_inv_def)

lemma merge_one_inv: "merge_inv acc \<Longrightarrow> merge_inv (merge_one acc ps)"
  by (induction acc ps rule: merge_one.induct) (simp_all add: merge_inv_snoc Let_def)

lemma merge_fold_inv: "merge_inv acc \<Longrightarrow> merge_inv (foldl merge_one acc ls)"
  by (induction ls arbitrary: acc) (simp_all add: merge_one_inv)

lemma merge_start_inv: "merge_inv ({}, [])"
  by (simp add: merge_inv_def)

lemma blank_matches: "py_strip g = [] \<Longrightarrow> permission_matches g r \<Longrightarrow> py_strip r = []"
proof -
  assume g: "py_strip g = []" and m: "permission_matches g r"
  then have "perm_segs r = [[]]"
    by (auto simp: permission_matches_def perm_segs_def split: list.splits if_splits)
  then have "py_lower (py_strip r) = []"
    unfolding perm_segs_def using py_join_split [of "CHR '':''" "py_lower (py_strip r)"] by simp
  then show ?thesis by simp
qed

lemma permission_matches_fold:
  "py_lower (py_strip p) = py_lower (py_strip q) \<Longrightarrow> permission_matches p r = permission_matches q r"
  by (simp add: permission_matches_def perm_segs_def)

lemma merge_one_has:
  "merge_inv acc \<Longrightarrow> py_strip r \<noteq> [] \<Longrightarrow>
   has_permission (snd (merge_one acc ps)) r \<longleftrightarrow> has_permission (snd acc) r \<or> has_permission ps r"
proof (induction acc ps rule: merge_one.induct)
  case (1 acc)
  then show ?case by simp
next
  case (2 seen out p ps)
  let ?k = "py_strip p"
  show ?case
  proof (cases "?k \<noteq> [] \<and> py_lower ?k \<notin> seen")
    case True
    have inv: "merge_inv (insert (py_lower ?k) seen, out @ [?k])"
      using "2.prems"(1) True by (simp add: merge_inv_snoc)
    have "permission_matches ?k r = permission_matches p r"
      by (rule permission_matches_fold) simp
    with "2.IH"(1) [OF refl True inv "2.prems"(2)] True show ?thesis
      by (auto simp: Let_def has_permission_def)
  next
    case False
    have absorbed: "permission_matches p r \<Longrightarrow> has_permission out r"
    proof -
      assume m: "permission_matches p r"
      then have "?k \<noteq> []" using blank_matches "2.prems"(2) by blast
      with False have "py_lower ?k \<in> seen" by simp
      then obtain q where q: "q \<in> set out" and eq: "py_lower q = py_lower ?k" and s: "py_strip q = q"
        using "2.prems"(1) by (auto simp: merge_inv_def)
      have "permission_matches q r = permission_matches p r"
        by (rule permission_matches_fold) (simp add: s eq)
      with q m show ?thesis by (auto simp: has_permission_def)
    qed
    from "2.IH"(2) [OF refl False "2.prems"] absorbed False show ?thesis
      by (auto simp: Let_def has_permission_def)
  qed
qed

lemma merge_fold_has:
  "merge_inv acc \<Longrightarrow> py_strip r \<noteq> [] \<Longrightarrow>
   has_permission (snd (foldl merge_one acc ls)) r
     \<longleftrightarrow> has_permission (snd acc) r \<or> (\<exists>l \<in> set ls. has_permission l r)"
  by (induction ls arbitrary: acc) (simp_all add: merge_one_has merge_one_inv disj_assoc)

lemma merge_permissions_has:
  "py_strip r \<noteq> [] \<Longrightarrow>
   has_permission (merge_permissions ls) r \<longleftrightarrow> (\<exists>l \<in> set ls. has_permission l r)"
  using merge_fold_has [OF merge_start_inv] by (simp add: merge_permissions_def)

lemma merge_permissions_shape:
  "distinct (map py_lower (merge_permissions ls)) \<and>
   (\<forall>q \<in> set (merge_permissions ls). py_strip q = q \<and> q \<noteq> [])"
  using merge_fold_inv [OF merge_start_inv] by (simp add: merge_permissions_def merge_inv_def)

section \<open>Properties\<close>

text \<open>
  C10. \<open>permission_matches\<close> decides its documented rule: after trimming and case folding, a granted
  permission ending in a \<open>*\<close> segment matches every permission that agrees with it on the
  segments before (a \<open>*\<close> there standing for exactly one segment), at that level or below; any other
  granted permission matches exactly the permissions with the same number of segments that agree
  with it segment by segment.
\<close>

theorem permission_matches_spec:
  "permission_matches granted required = match_spec (perm_segs granted) (perm_segs required)"
  by (simp add: permission_matches_def match_segs_spec)

text \<open>
  Covering is enough to prevent privilege escalation, up to one shape: when a caller's
  permissions cover a list, then everything that list grants the caller is granted too, except
  possibly the parent of a pattern \<open>x:*\<close> of the list that is covered only by an entry
  \<open>x:*:*\<close> one level deeper.
\<close>

theorem covers_no_escalation:
  assumes cov: "covers granted required" and has: "has_permission required p"
  shows "has_permission granted p \<or>
    (\<exists>g \<in> set granted. \<exists>r \<in> set required.
       length (perm_segs g) = length (perm_segs r) + 1 \<and>
       length (perm_segs r) = length (perm_segs p) + 1 \<and>
       last (perm_segs g) = ''*'' \<and> last (perm_segs r) = ''*'')"
proof -
  from has obtain r where r: "r \<in> set required" and rp: "permission_matches r p"
    by (auto simp: has_permission_def)
  from cov r obtain g where g: "g \<in> set granted" and gr: "permission_matches g r"
    by (auto simp: covers_def has_permission_def)
  from match_segs_trans_or_parent gr rp g r show ?thesis
    unfolding permission_matches_def has_permission_def by blast
qed

theorem covers_no_escalation_witness:
  "covers [''users:*''] [''users:read''] \<and> has_permission [''users:read''] ''Users:READ ''
   \<and> has_permission [''users:*''] ''Users:READ ''"
proof -
  have c: "covers [''users:*''] [''users:read'']" by code_simp
  have h: "has_permission [''users:read''] ''Users:READ ''" by code_simp
  have len: "length (perm_segs ''users:read'') \<noteq> length (perm_segs ''Users:READ '') + 1"
    by code_simp
  from covers_no_escalation [OF c h] len have "has_permission [''users:*''] ''Users:READ ''"
    by (auto simp del: One_nat_def)
  with c h show ?thesis by simp
qed

text \<open>
  The exception of C12 is real: a caller holding only \<open>a:*:*\<close> passes the coverage check for
  \<open>a:*\<close>, which grants \<open>a\<close>, although the caller itself does not hold \<open>a\<close>.
\<close>

theorem covers_escalation_gap:
  "covers [''a:*:*''] [''a:*''] \<and> has_permission [''a:*''] ''a'' \<and> \<not> has_permission [''a:*:*''] ''a''"
  by code_simp

text \<open>
  \<open>merge_permissions\<close> is a union: the result has no two entries equal up to case, every entry is
  trimmed and not empty, and it grants a (non-blank) permission exactly when one of the merged lists
  does.
\<close>

theorem merge_permissions_union:
  "distinct (map py_lower (merge_permissions ls))
   \<and> (\<forall>q. q \<in> set (merge_permissions ls) \<longrightarrow> py_strip q = q \<and> q \<noteq> [])
   \<and> (py_strip r \<noteq> [] \<longrightarrow>
        has_permission (merge_permissions ls) r = (\<exists>l \<in> set ls. has_permission l r))"
  using merge_permissions_shape [of ls] merge_permissions_has [of r ls] by blast

theorem merge_permissions_union_witness:
  "merge_permissions [['' Users:Read '', ''jobs:*''], [''users:read'', '''']] = [''Users:Read'', ''jobs:*'']
   \<and> has_permission (merge_permissions [['' Users:Read '', ''jobs:*''], [''users:read'', '''']]) ''jobs:run''"
proof -
  have r: "py_strip ''jobs:run'' \<noteq> []" by code_simp
  have l: "has_permission ['' Users:Read '', ''jobs:*''] ''jobs:run''" by code_simp
  have m: "merge_permissions [['' Users:Read '', ''jobs:*''], [''users:read'', '''']]
             = [''Users:Read'', ''jobs:*'']" by code_simp
  show ?thesis
    using merge_permissions_union [of "[['' Users:Read '', ''jobs:*''], [''users:read'', '''']]" "''jobs:run''"]
      r l m by simp
qed

end
