(* ===== verification/UserStores.thy ===== *)
theory UserStores
  imports Permissions
begin

text \<open>
  The records of the users plugin (\<open>models.py\<close>) and its in-memory stores (\<open>stores/in_memory_*.py\<close>):
  users, groups, sessions, credentials and API tokens.  Every store is a dictionary; the time and the
  random identifiers an operation takes are its arguments.  The contract of a session store is a
  locale, and the lemmas on revoking sessions are proved in it.
\<close>

section \<open>Records\<close>

record user =
  u_id :: string
  u_name :: string
  u_email :: string
  u_groups :: "string list"
  u_disabled :: bool
  u_must_change_password :: bool
  u_home_dir :: "string option"
  u_data :: "(string, json) dict option"
  u_last_login_at :: "int option"
  u_created_at :: int
  u_updated_at :: int

record credentials =
  cr_user_id :: string
  cr_password_hash :: string
  cr_salt :: string
  cr_last_changed :: int

record session_metadata =
  sm_remote_address :: "string option"
  sm_user_agent :: "string option"

record session =
  se_id :: string
  se_token_hash :: string
  se_user_id :: string
  se_user_name :: string
  se_created_at :: int
  se_last_activity :: int
  se_metadata :: session_metadata

definition session_expires_at :: "session \<Rightarrow> int \<Rightarrow> int option \<Rightarrow> int" where
  "session_expires_at s timeout_ms max_lifetime_ms =
     (let idle = se_last_activity s + timeout_ms
      in case max_lifetime_ms of None \<Rightarrow> idle | Some m \<Rightarrow> min idle (se_created_at s + m))"

record api_token =
  at_id :: string
  at_user_id :: string
  at_name :: string
  at_token_hash :: string
  at_created_at :: int
  at_expires_at :: "int option"
  at_last_used_at :: "int option"
  at_permissions :: "string list option"

definition token_is_expired :: "api_token \<Rightarrow> int \<Rightarrow> bool" where
  "token_is_expired t now = (case at_expires_at t of None \<Rightarrow> False | Some e \<Rightarrow> e \<le> now)"

record group =
  g_id :: string
  g_name :: string
  g_description :: "string option"
  g_permissions :: "string list"
  g_built_in :: bool
  g_created_at :: int
  g_updated_at :: int

section \<open>User store\<close>

type_synonym user_store = "(string, user) dict"

datatype store_error = ValueError string | KeyError string

definition us_get_users :: "user_store \<Rightarrow> user list" where
  "us_get_users d = dvalues d"

definition us_get_user :: "string \<Rightarrow> user_store \<Rightarrow> user option" where
  "us_get_user id_or_name d =
     (case dget d id_or_name of
        Some u \<Rightarrow> Some u
      | None \<Rightarrow> find (\<lambda>u. py_lower (u_name u) = py_lower id_or_name) (dvalues d))"

definition us_get_user_by_email :: "string \<Rightarrow> user_store \<Rightarrow> user option" where
  "us_get_user_by_email email d =
     find (\<lambda>u. py_lower (u_email u) = py_lower (py_strip email)) (us_get_users d)"

definition us_create_user ::
  "int \<Rightarrow> string \<Rightarrow> string \<Rightarrow> string \<Rightarrow> string list \<Rightarrow> (string, json) dict option \<Rightarrow> bool \<Rightarrow> string option \<Rightarrow> bool
     \<Rightarrow> user_store \<Rightarrow> (store_error + user) \<times> user_store" where
  "us_create_user now new_id name email groups data disabled home_dir must_change d =
     (if \<exists>u \<in> set (dvalues d). py_lower (u_name u) = py_lower name
      then (Inl (ValueError (''user already exists: '' @ name)), d)
      else let u = \<lparr>u_id = new_id, u_name = name, u_email = email, u_groups = groups,
                    u_disabled = disabled, u_must_change_password = must_change,
                    u_home_dir = home_dir, u_data = data, u_last_login_at = None,
                    u_created_at = now, u_updated_at = now\<rparr>
           in (Inr u, dset new_id u d))"

text \<open>The keyword arguments of \<open>update_user\<close>: \<open>None\<close> leaves the field unchanged.\<close>

record user_changes =
  uc_name :: "string option"
  uc_email :: "string option"
  uc_groups :: "string list option"
  uc_disabled :: "bool option"
  uc_data :: "(string, json) dict option"
  uc_home_dir :: "string option"
  uc_last_login_at :: "int option"
  uc_must_change_password :: "bool option"

definition no_changes :: user_changes where
  "no_changes = \<lparr>uc_name = None, uc_email = None, uc_groups = None, uc_disabled = None,
     uc_data = None, uc_home_dir = None, uc_last_login_at = None, uc_must_change_password = None\<rparr>"

definition or_else :: "'a option \<Rightarrow> 'a \<Rightarrow> 'a" where
  "or_else v old = (case v of None \<Rightarrow> old | Some x \<Rightarrow> x)"

definition or_else_opt :: "'a option \<Rightarrow> 'a option \<Rightarrow> 'a option" where
  "or_else_opt v old = (case v of None \<Rightarrow> old | Some x \<Rightarrow> Some x)"

definition change_user :: "int \<Rightarrow> user_changes \<Rightarrow> user \<Rightarrow> user" where
  "change_user now c u = u\<lparr>
     u_name := or_else (uc_name c) (u_name u),
     u_email := or_else (uc_email c) (u_email u),
     u_groups := or_else (uc_groups c) (u_groups u),
     u_disabled := or_else (uc_disabled c) (u_disabled u),
     u_data := or_else_opt (uc_data c) (u_data u),
     u_home_dir := or_else_opt (uc_home_dir c) (u_home_dir u),
     u_last_login_at := or_else_opt (uc_last_login_at c) (u_last_login_at u),
     u_must_change_password := or_else (uc_must_change_password c) (u_must_change_password u),
     u_updated_at := now\<rparr>"

definition us_update_user ::
  "int \<Rightarrow> string \<Rightarrow> user_changes \<Rightarrow> user_store \<Rightarrow> (store_error + user) \<times> user_store" where
  "us_update_user now user_id c d =
     (case dget d user_id of
        None \<Rightarrow> (Inl (KeyError (''user not found: '' @ user_id)), d)
      | Some u \<Rightarrow> let u' = change_user now c u in (Inr u', dset user_id u' d))"

definition us_delete_user :: "string \<Rightarrow> user_store \<Rightarrow> user_store" where
  "us_delete_user user_id d = dpop user_id d"

section \<open>Group store\<close>

type_synonym group_store = "(string, group) dict"

definition gs_get_groups :: "group_store \<Rightarrow> group list" where
  "gs_get_groups d = dvalues d"

definition gs_get_group :: "string \<Rightarrow> group_store \<Rightarrow> group option" where
  "gs_get_group name d = dget d (py_lower name)"

definition gs_create_group ::
  "int \<Rightarrow> string \<Rightarrow> string \<Rightarrow> string option \<Rightarrow> string list \<Rightarrow> bool \<Rightarrow> group_store
     \<Rightarrow> (store_error + group) \<times> group_store" where
  "gs_create_group now new_id name description permissions built_in d =
     (if dget d (py_lower name) \<noteq> None
      then (Inl (ValueError (''group already exists: '' @ name)), d)
      else let g = \<lparr>g_id = new_id, g_name = name, g_description = description,
                    g_permissions = permissions, g_built_in = built_in,
                    g_created_at = now, g_updated_at = now\<rparr>
           in (Inr g, dset (py_lower name) g d))"

definition gs_update_group ::
  "int \<Rightarrow> string \<Rightarrow> string option \<Rightarrow> string list option \<Rightarrow> group_store
     \<Rightarrow> (store_error + group) \<times> group_store" where
  "gs_update_group now name description permissions d =
     (case dget d (py_lower name) of
        None \<Rightarrow> (Inl (KeyError (''group not found: '' @ name)), d)
      | Some g \<Rightarrow> let g' = g\<lparr>g_description := or_else_opt description (g_description g),
                              g_permissions := or_else permissions (g_permissions g),
                              g_updated_at := now\<rparr>
                  in (Inr g', dset (py_lower name) g' d))"

definition gs_delete_group :: "string \<Rightarrow> group_store \<Rightarrow> group_store" where
  "gs_delete_group name d = dpop (py_lower name) d"

section \<open>Session store\<close>

type_synonym session_store = "(string, session) dict"

definition ss_create_session ::
  "int \<Rightarrow> string \<Rightarrow> string \<Rightarrow> string \<Rightarrow> session_metadata \<Rightarrow> string \<Rightarrow> session_store \<Rightarrow> session \<times> session_store" where
  "ss_create_session now new_id user_id token_hash metadata user_name d =
     (let s = \<lparr>se_id = new_id, se_token_hash = token_hash, se_user_id = user_id,
               se_user_name = user_name, se_created_at = now, se_last_activity = now,
               se_metadata = metadata\<rparr>
      in (s, dset token_hash s d))"

definition ss_get_session :: "string \<Rightarrow> session_store \<Rightarrow> session option" where
  "ss_get_session token_hash d = dget d token_hash"

definition ss_get_session_by_id :: "string \<Rightarrow> session_store \<Rightarrow> session option" where
  "ss_get_session_by_id session_id d = find (\<lambda>s. se_id s = session_id) (dvalues d)"

definition ss_get_active_sessions :: "session_store \<Rightarrow> session list" where
  "ss_get_active_sessions d = dvalues d"

definition ss_delete_session :: "string \<Rightarrow> session_store \<Rightarrow> session_store" where
  "ss_delete_session token_hash d = dpop token_hash d"

definition ss_delete_session_by_id :: "string \<Rightarrow> session_store \<Rightarrow> session_store" where
  "ss_delete_session_by_id session_id d =
     (case find (\<lambda>p. se_id (snd p) = session_id) d of
        None \<Rightarrow> d | Some p \<Rightarrow> dpop (fst p) d)"

definition ss_delete_user_sessions :: "string \<Rightarrow> session_store \<Rightarrow> session_store" where
  "ss_delete_user_sessions user_id d = filter (\<lambda>p. se_user_id (snd p) \<noteq> user_id) d"

definition ss_update_last_activity :: "int \<Rightarrow> string \<Rightarrow> session_store \<Rightarrow> session_store" where
  "ss_update_last_activity now token_hash d =
     (case dget d token_hash of
        None \<Rightarrow> d | Some s \<Rightarrow> dset token_hash (s\<lparr>se_last_activity := now\<rparr>) d)"

definition ss_cleanup :: "int \<Rightarrow> int \<Rightarrow> session_store \<Rightarrow> session_store" where
  "ss_cleanup now max_age_ms d = filter (\<lambda>p. \<not> se_last_activity (snd p) < now - max_age_ms) d"

section \<open>Credential store\<close>

type_synonym credential_store = "(string, credentials) dict"

definition cs_set_password :: "int \<Rightarrow> string \<Rightarrow> string \<Rightarrow> string \<Rightarrow> credential_store \<Rightarrow> credential_store" where
  "cs_set_password now user_id hash salt d =
     dset user_id \<lparr>cr_user_id = user_id, cr_password_hash = hash, cr_salt = salt, cr_last_changed = now\<rparr> d"

definition cs_get_credentials :: "string \<Rightarrow> credential_store \<Rightarrow> credentials option" where
  "cs_get_credentials user_id d = dget d user_id"

definition cs_delete_credentials :: "string \<Rightarrow> credential_store \<Rightarrow> credential_store" where
  "cs_delete_credentials user_id d = dpop user_id d"

section \<open>API token store\<close>

type_synonym api_token_store = "(string, api_token) dict"

definition ts_create_token :: "api_token \<Rightarrow> api_token_store \<Rightarrow> api_token \<times> api_token_store" where
  "ts_create_token t d = (t, dset (at_id t) t d)"

definition ts_get_token_by_hash :: "string \<Rightarrow> api_token_store \<Rightarrow> api_token option" where
  "ts_get_token_by_hash token_hash d = find (\<lambda>t. at_token_hash t = token_hash) (dvalues d)"

definition ts_get_token :: "string \<Rightarrow> api_token_store \<Rightarrow> api_token option" where
  "ts_get_token token_id d = dget d token_id"

definition ts_get_tokens :: "string option \<Rightarrow> api_token_store \<Rightarrow> api_token list" where
  "ts_get_tokens user_id d =
     filter (\<lambda>t. case user_id of None \<Rightarrow> True | Some u \<Rightarrow> at_user_id t = u) (dvalues d)"

definition ts_delete_token :: "string \<Rightarrow> api_token_store \<Rightarrow> api_token_store" where
  "ts_delete_token token_id d = dpop token_id d"

definition ts_delete_user_tokens :: "string \<Rightarrow> api_token_store \<Rightarrow> api_token_store" where
  "ts_delete_user_tokens user_id d = filter (\<lambda>p. at_user_id (snd p) \<noteq> user_id) d"

definition ts_update_last_used :: "string \<Rightarrow> int \<Rightarrow> api_token_store \<Rightarrow> api_token_store" where
  "ts_update_last_used token_id last_used_at d =
     (case dget d token_id of
        None \<Rightarrow> d | Some t \<Rightarrow> dset token_id (t\<lparr>at_last_used_at := Some last_used_at\<rparr>) d)"

section \<open>Well-formed stores\<close>

definition user_store_ok :: "user_store \<Rightarrow> bool" where
  "user_store_ok d \<longleftrightarrow> dict_ok d \<and> (\<forall>(k, u) \<in> set d. u_id u = k)"

definition group_store_ok :: "group_store \<Rightarrow> bool" where
  "group_store_ok d \<longleftrightarrow> dict_ok d \<and> (\<forall>(k, g) \<in> set d. py_lower (g_name g) = k)"

definition session_store_ok :: "session_store \<Rightarrow> bool" where
  "session_store_ok d \<longleftrightarrow>
     dict_ok d \<and> (\<forall>p \<in> set d. se_token_hash (snd p) = fst p) \<and> inj_on (\<lambda>p. se_id (snd p)) (set d)"

definition token_store_ok :: "api_token_store \<Rightarrow> bool" where
  "token_store_ok d \<longleftrightarrow> dict_ok d \<and> (\<forall>(k, t) \<in> set d. at_id t = k)"

lemma user_store_ok_key: "user_store_ok d \<Longrightarrow> dget d k = Some u \<Longrightarrow> u_id u = k"
  by (auto simp: user_store_ok_def dest: dget_mem)

lemma u_id_change_user [simp]: "u_id (change_user now c u) = u_id u"
  by (simp add: change_user_def)

lemma user_store_ok_dset: "user_store_ok d \<Longrightarrow> u_id u = k \<Longrightarrow> user_store_ok (dset k u d)"
  by (auto simp: user_store_ok_def set_dset)

lemma user_store_ok_create:
  "user_store_ok d \<Longrightarrow> us_create_user now i n e g dat dis h m d = (r, d') \<Longrightarrow> user_store_ok d'"
  by (auto simp: us_create_user_def Let_def user_store_ok_dset split: if_splits)

lemma user_store_ok_update:
  "user_store_ok d \<Longrightarrow> us_update_user now i c d = (r, d') \<Longrightarrow> user_store_ok d'"
  by (auto simp: us_update_user_def Let_def user_store_ok_dset user_store_ok_key split: option.splits)

lemma user_store_ok_delete: "user_store_ok d \<Longrightarrow> user_store_ok (us_delete_user i d)"
  by (auto simp: user_store_ok_def us_delete_user_def set_dpop)

lemmas user_store_ok_ops = user_store_ok_create user_store_ok_update user_store_ok_delete

section \<open>The session store interface\<close>

text \<open>
  What the authentication service relies on (\<open>ISessionStore\<close>): reading by id and deleting by id
  agree with the list of active sessions.  A store that satisfies it lets the service revoke all
  sessions of a user by deleting the listed ones, one by one.
\<close>

locale session_store_spec =
  fixes active :: "'st \<Rightarrow> session list"
    and get_by_id :: "string \<Rightarrow> 'st \<Rightarrow> session option"
    and delete_by_id :: "string \<Rightarrow> 'st \<Rightarrow> 'st"
    and invar :: "'st \<Rightarrow> bool"
  assumes get_by_id_active:
      "invar st \<Longrightarrow> get_by_id i st = Some s \<longleftrightarrow> s \<in> set (active st) \<and> se_id s = i"
    and delete_by_id_active:
      "invar st \<Longrightarrow> set (active (delete_by_id i st)) = {s \<in> set (active st). se_id s \<noteq> i}"
    and invar_delete_by_id: "invar st \<Longrightarrow> invar (delete_by_id i st)"
begin

lemma deleted_not_found: "invar st \<Longrightarrow> get_by_id i (delete_by_id i st) = None"
  using get_by_id_active [OF invar_delete_by_id] delete_by_id_active
  by (metis (mono_tags, lifting) mem_Collect_eq not_None_eq)

lemma fold_delete:
  "invar st \<Longrightarrow>
   invar (fold delete_by_id is st)
   \<and> set (active (fold delete_by_id is st)) = {s \<in> set (active st). se_id s \<notin> set is}"
proof (induction "is" arbitrary: st)
  case (Cons i "is")
  then show ?case
    using invar_delete_by_id delete_by_id_active by auto
qed simp

text \<open>Deleting the listed sessions that satisfy a condition leaves none that satisfies it.\<close>

lemma delete_listed:
  assumes "invar st" and "\<And>s. s \<in> set (active st) \<Longrightarrow> P s \<Longrightarrow> se_id s \<in> set is"
  shows "\<forall>s \<in> set (active (fold delete_by_id is st)). \<not> P s"
  using fold_delete [OF assms(1), of "is"] assms(2) by auto

lemma get_by_id_none: "invar st \<Longrightarrow> get_by_id i st = None \<longleftrightarrow> (\<forall>s \<in> set (active st). se_id s \<noteq> i)"
  using get_by_id_active by (metis not_None_eq)

end

lemma session_store_unique:
  "session_store_ok d \<Longrightarrow> p \<in> set d \<Longrightarrow> q \<in> set d \<Longrightarrow> se_id (snd p) = se_id (snd q) \<Longrightarrow> p = q"
  unfolding session_store_ok_def by (blast dest: inj_onD)

lemma dict_ok_unique: "dict_ok d \<Longrightarrow> p \<in> set d \<Longrightarrow> q \<in> set d \<Longrightarrow> fst p = fst q \<Longrightarrow> p = q"
  by (metis dict_ok_def distinct_map inj_onD)

lemma session_store_ok_dict: "session_store_ok d \<Longrightarrow> dict_ok d"
  by (simp add: session_store_ok_def)

lemma ss_delete_by_id_filter:
  assumes "session_store_ok d"
  shows "ss_delete_session_by_id i d = filter (\<lambda>p. se_id (snd p) \<noteq> i) d"
proof (cases "find (\<lambda>p. se_id (snd p) = i) d")
  case None
  then have "\<forall>p \<in> set d. se_id (snd p) \<noteq> i"
    unfolding find_None_iff by blast
  then have "filter (\<lambda>p. se_id (snd p) \<noteq> i) d = d"
    by (rule filter_True)
  with None show ?thesis
    by (simp add: ss_delete_session_by_id_def)
next
  case (Some p)
  then have p: "p \<in> set d" "se_id (snd p) = i"
    by (auto simp: find_Some_iff)
  have "fst q \<noteq> fst p \<longleftrightarrow> se_id (snd q) \<noteq> i" if "q \<in> set d" for q
    using session_store_unique [OF assms that p(1)] dict_ok_unique [OF session_store_ok_dict [OF assms] that p(1)] p(2)
    by auto
  then have "filter (\<lambda>q. fst q \<noteq> fst p) d = filter (\<lambda>p. se_id (snd p) \<noteq> i) d"
    by (rule filter_cong [OF refl])
  with Some show ?thesis
    by (simp add: ss_delete_session_by_id_def dpop_filter)
qed

lemma session_store_ok_filter: "session_store_ok d \<Longrightarrow> session_store_ok (filter p d)"
  by (auto simp: session_store_ok_def intro: inj_on_subset)

lemma ss_get_by_id_iff:
  assumes "session_store_ok d"
  shows "ss_get_session_by_id i d = Some s \<longleftrightarrow> s \<in> set (dvalues d) \<and> se_id s = i"
proof
  assume "ss_get_session_by_id i d = Some s"
  then show "s \<in> set (dvalues d) \<and> se_id s = i"
    by (auto simp: ss_get_session_by_id_def find_Some_iff)
next
  assume s: "s \<in> set (dvalues d) \<and> se_id s = i"
  then obtain s' where s': "ss_get_session_by_id i d = Some s'"
    by (cases "ss_get_session_by_id i d") (auto simp: ss_get_session_by_id_def find_None_iff)
  then have "s' \<in> set (dvalues d)" "se_id s' = i"
    by (auto simp: ss_get_session_by_id_def find_Some_iff)
  moreover from this(1) s obtain k k' where "(k, s) \<in> set d" "(k', s') \<in> set d"
    by (auto simp: dvalues_def)
  ultimately have "s' = s"
    using s session_store_unique [OF assms, of "(k, s)" "(k', s')"] by simp
  with s' show "ss_get_session_by_id i d = Some s" by simp
qed

interpretation mem_sessions:
  session_store_spec ss_get_active_sessions ss_get_session_by_id ss_delete_session_by_id session_store_ok
proof
  show "ss_get_session_by_id i st = Some s \<longleftrightarrow> s \<in> set (ss_get_active_sessions st) \<and> se_id s = i"
    if "session_store_ok st" for st i s
    by (simp add: ss_get_active_sessions_def ss_get_by_id_iff that)
  show "set (ss_get_active_sessions (ss_delete_session_by_id i st))
      = {s \<in> set (ss_get_active_sessions st). se_id s \<noteq> i}" if "session_store_ok st" for st i
    by (auto simp: ss_get_active_sessions_def ss_delete_by_id_filter [OF that] dvalues_def)
  show "session_store_ok (ss_delete_session_by_id i st)" if "session_store_ok st" for st i
    by (simp add: ss_delete_by_id_filter [OF that] session_store_ok_filter that)
qed

lemma session_store_ok_dset:
  assumes ok: "session_store_ok d" and h: "se_token_hash s = h"
    and fresh: "\<And>p. p \<in> set d \<Longrightarrow> fst p \<noteq> h \<Longrightarrow> se_id (snd p) \<noteq> se_id s"
  shows "session_store_ok (dset h s d)"
proof -
  have d: "dict_ok d" by (rule session_store_ok_dict [OF ok])
  have sub: "inj_on (\<lambda>p. se_id (snd p)) {p \<in> set d. fst p \<noteq> h}"
    by (rule inj_on_subset [of _ "set d"]) (use ok in \<open>auto simp: session_store_ok_def\<close>)
  have "inj_on (\<lambda>p. se_id (snd p)) (insert (h, s) {p \<in> set d. fst p \<noteq> h})"
    using sub by (auto simp: inj_on_insert dest: fresh)
  with ok h d show ?thesis
    by (auto simp: session_store_ok_def set_dset)
qed

lemma session_store_ok_create:
  assumes "session_store_ok d" and "\<forall>s \<in> set (dvalues d). se_id s \<noteq> i"
    and "ss_create_session now i u h m n d = (s, d')"
  shows "session_store_ok d'"
proof -
  have "session_store_ok (dset h s d)"
    by (rule session_store_ok_dset [OF assms(1)])
      (use assms(2,3) in \<open>auto simp: ss_create_session_def Let_def dvalues_def\<close>)
  with assms(3) show ?thesis by (auto simp: ss_create_session_def Let_def)
qed

lemma session_store_ok_touch:
  assumes "session_store_ok d"
  shows "session_store_ok (ss_update_last_activity now h d)"
proof (cases "dget d h")
  case (Some s)
  then have s: "(h, s) \<in> set d" by (rule dget_mem)
  have "session_store_ok (dset h (s\<lparr>se_last_activity := now\<rparr>) d)"
  proof (rule session_store_ok_dset [OF assms])
    show "se_token_hash (s\<lparr>se_last_activity := now\<rparr>) = h"
      using assms s by (auto simp: session_store_ok_def)
    show "se_id (snd p) \<noteq> se_id (s\<lparr>se_last_activity := now\<rparr>)" if "p \<in> set d" "fst p \<noteq> h" for p
      using session_store_unique [OF assms that(1) s] that(2) by auto
  qed
  with Some show ?thesis by (simp add: ss_update_last_activity_def)
qed (simp add: ss_update_last_activity_def assms)

lemma session_store_ok_delete: "session_store_ok d \<Longrightarrow> session_store_ok (ss_delete_session h d)"
  by (simp add: ss_delete_session_def dpop_filter session_store_ok_filter)

lemma session_store_ok_cleanup: "session_store_ok d \<Longrightarrow> session_store_ok (ss_cleanup now a d)"
  by (simp add: ss_cleanup_def session_store_ok_filter)

lemmas session_store_ok_ops = session_store_ok_touch session_store_ok_delete session_store_ok_cleanup
  mem_sessions.invar_delete_by_id

section \<open>Lookups\<close>

lemma us_get_user_in: "us_get_user k d = Some u \<Longrightarrow> u \<in> set (us_get_users d)"
  by (auto simp: us_get_user_def us_get_users_def find_Some_iff dget_value split: option.splits)

lemma us_get_user_by_id:
  "user_store_ok d \<Longrightarrow> u \<in> set (us_get_users d) \<Longrightarrow> us_get_user (u_id u) d = Some u"
  by (auto simp: us_get_users_def dvalues_def user_store_ok_def us_get_user_def dict_ok_def)

lemma us_update_get:
  "us_update_user now i c d = (Inr u', d') \<Longrightarrow>
   \<exists>u. dget d i = Some u \<and> u' = change_user now c u \<and> d' = dset i u' d"
  by (auto simp: us_update_user_def Let_def split: option.splits)

end
