(* ===== verification/Validation.thy ===== *)
theory Validation
  imports Permissions
begin

text \<open>
  Input validation of the users plugin (\<open>validation.py\<close>, the errors of \<open>errors.py\<close>) and its password
  hashes (\<open>services/password_hasher.py\<close>).  Regular expressions are boolean functions on strings;
  \<open>$\<close> also matches before a final newline, as in Python's \<open>re.match\<close>.
\<close>

section \<open>Errors\<close>

text \<open>
  \<open>UsersApiError\<close> carries a status and a message; \<open>Uncaught\<close> is an exception of a store that no
  handler of the source catches.
\<close>

datatype api_error = ApiError int string | Uncaught string

definition bad_request :: "string \<Rightarrow> api_error" where "bad_request m = ApiError 400 m"
definition unauthorized :: "string \<Rightarrow> api_error" where "unauthorized m = ApiError 401 m"
definition forbidden :: "string \<Rightarrow> api_error" where "forbidden m = ApiError 403 m"
definition not_found :: "string \<Rightarrow> api_error" where "not_found m = ApiError 404 m"
definition conflict :: "string \<Rightarrow> api_error" where "conflict m = ApiError 409 m"

section \<open>Characters and regular expressions\<close>

definition is_alpha :: "char \<Rightarrow> bool" where
  "is_alpha c = (let n = (of_char c :: nat) in (65 \<le> n \<and> n \<le> 90) \<or> (97 \<le> n \<and> n \<le> 122))"

definition is_alnum :: "char \<Rightarrow> bool" where
  "is_alnum c = (is_alpha c \<or> py_is_digit c)"

definition newline :: char where "newline = char_of (10 :: nat)"

definition re_dollar :: "(string \<Rightarrow> bool) \<Rightarrow> string \<Rightarrow> bool" where
  "re_dollar P s = (P s \<or> (s \<noteq> [] \<and> last s = newline \<and> P (butlast s)))"

definition is_control :: "char \<Rightarrow> bool" where
  "is_control c = (let n = (of_char c :: nat) in n \<le> 31 \<or> n = 127)"

definition has_control_chars :: "string \<Rightarrow> bool" where
  "has_control_chars s = (\<exists>c \<in> set s. is_control c)"

definition sanitize :: "string option \<Rightarrow> nat option \<Rightarrow> string option" where
  "sanitize value max_len =
     (case value of
        None \<Rightarrow> None
      | Some v \<Rightarrow> let cleaned = filter (\<lambda>c. \<not> is_control c) v
                  in Some (case max_len of None \<Rightarrow> cleaned | Some n \<Rightarrow> take n cleaned))"

definition NAME_MAX :: nat where "NAME_MAX = 64"
definition EMAIL_MAX :: nat where "EMAIL_MAX = 254"
definition PERMISSION_MAX :: nat where "PERMISSION_MAX = 128"
definition PERMISSIONS_PER_GROUP_MAX :: nat where "PERMISSIONS_PER_GROUP_MAX = 100"
definition DATA_MAX_BYTES :: nat where "DATA_MAX_BYTES = 16384"
definition PASSWORD_MAX :: nat where "PASSWORD_MAX = 1024"

definition name_re :: "string \<Rightarrow> bool" where
  "name_re = re_dollar (\<lambda>s. case s of [] \<Rightarrow> False
     | c # cs \<Rightarrow> is_alnum c \<and> (\<forall>d \<in> set cs. is_alnum d \<or> d \<in> set ''._@-''))"

text \<open>The characters of an unquoted local part (backtick is the character with code 96).\<close>

definition is_atext :: "char \<Rightarrow> bool" where
  "is_atext c = (is_alnum c \<or> c \<in> set ''!#$%&*+/=?^_{|}~-'' \<or> c = char_of (39 :: nat) \<or> c = char_of (96 :: nat))"

definition dns_label :: "string \<Rightarrow> bool" where
  "dns_label l = (l \<noteq> [] \<and> length l \<le> 63 \<and> is_alnum (hd l) \<and> is_alnum (last l)
     \<and> (\<forall>c \<in> set l. is_alnum c \<or> c = CHR ''-''))"

definition email_domain :: "string \<Rightarrow> bool" where
  "email_domain d = (d = ''localhost'' \<or>
     (let ps = py_split (CHR ''.'') d
      in 2 \<le> length ps \<and> (\<forall>l \<in> set (butlast ps). dns_label l)
         \<and> (\<forall>c \<in> set (last ps). is_alpha c) \<and> 2 \<le> length (last ps) \<and> length (last ps) \<le> 63))"

definition email_re :: "string \<Rightarrow> bool" where
  "email_re s =
     (case py_split (CHR ''@'') s of
        [local_part, domain] \<Rightarrow>
          1 \<le> length local_part \<and> length local_part \<le> 64
          \<and> (\<forall>a \<in> set (py_split (CHR ''.'') local_part). a \<noteq> [] \<and> (\<forall>c \<in> set a. is_atext c))
          \<and> email_domain domain
      | _ \<Rightarrow> False)"

definition is_perm_char :: "char \<Rightarrow> bool" where
  "is_perm_char c = (is_alnum c \<or> c \<in> set ''_.-'')"

definition perm_word :: "string \<Rightarrow> bool" where
  "perm_word w = (w \<noteq> [] \<and> (\<forall>c \<in> set w. is_perm_char c))"

definition permission_re :: "string \<Rightarrow> bool" where
  "permission_re = re_dollar (\<lambda>s. s = ''*'' \<or>
     (case py_split (CHR '':'') s of
        [] \<Rightarrow> False
      | w # ws \<Rightarrow> perm_word w \<and> (\<forall>v \<in> set ws. perm_word v \<or> v = ''*'')))"

section \<open>Validators\<close>

definition validate_name :: "string \<Rightarrow> string \<Rightarrow> api_error + string" where
  "validate_name value kind =
     (if value = [] then Inl (bad_request (kind @ '' is required''))
      else if length value > NAME_MAX
      then Inl (bad_request (kind @ '' must be at most 64 characters''))
      else if \<not> name_re value
      then Inl (bad_request (''invalid '' @ kind @ '': must start with a letter or digit and contain only letters, digits, '' @
             [char_of (39 :: nat)] @ ''.'' @ [char_of (39 :: nat)] @ '', '' @ [char_of (39 :: nat)] @ ''_'' @ [char_of (39 :: nat)] @ '', '' @
             [char_of (39 :: nat)] @ ''@'' @ [char_of (39 :: nat)] @ '' or '' @ [char_of (39 :: nat)] @ ''-'' @ [char_of (39 :: nat)]))
      else Inr value)"

definition validate_email :: "string \<Rightarrow> api_error + string" where
  "validate_email value =
     (if value = [] then Inl (bad_request ''email is required'')
      else if length value > EMAIL_MAX \<or> has_control_chars value \<or> \<not> email_re value
      then Inl (bad_request ''invalid email'')
      else Inr value)"

definition validate_text :: "string option \<Rightarrow> string \<Rightarrow> nat \<Rightarrow> api_error + string option" where
  "validate_text value field max_len =
     (case value of
        None \<Rightarrow> Inr None
      | Some v \<Rightarrow>
          if has_control_chars v then Inl (bad_request (field @ '' must not contain control characters''))
          else if length v > max_len
          then Inl (bad_request (field @ '' must be at most '' @ show_nat max_len @ '' characters''))
          else Inr (Some v))"

fun validate_permissions_loop :: "string list \<Rightarrow> string list \<Rightarrow> api_error + string list" where
  "validate_permissions_loop out [] = Inr out"
| "validate_permissions_loop out (raw # rest) =
     (let p = py_strip raw
      in if p = [] \<or> length p > PERMISSION_MAX \<or> \<not> permission_re p
         then Inl (bad_request (''invalid permission: '' @ the (sanitize (Some raw) (Some PERMISSION_MAX))))
         else if py_lower p \<notin> py_lower ` set out
         then validate_permissions_loop (out @ [p]) rest
         else validate_permissions_loop out rest)"

definition validate_permissions :: "string list option \<Rightarrow> api_error + string list option" where
  "validate_permissions permissions =
     (case permissions of
        None \<Rightarrow> Inr None
      | Some ps \<Rightarrow>
          if length ps > PERMISSIONS_PER_GROUP_MAX
          then Inl (bad_request ''at most 100 permissions per group'')
          else (case validate_permissions_loop [] ps of Inl e \<Rightarrow> Inl e | Inr out \<Rightarrow> Inr (Some out)))"

text \<open>
  The size of \<open>json.dumps(data, separators=(",", ":"), ensure_ascii=False)\<close> in UTF-8: a code point
  from 128 on takes two bytes, the named escapes two characters and other control characters six.
\<close>

definition json_char_size :: "char \<Rightarrow> nat" where
  "json_char_size c =
     (let n = (of_char c :: nat)
      in if n = 34 \<or> n = 92 \<or> n = 8 \<or> n = 9 \<or> n = 10 \<or> n = 12 \<or> n = 13 then 2
         else if n < 32 then 6 else if n < 128 then 1 else 2)"

definition json_str_size :: "string \<Rightarrow> nat" where
  "json_str_size s = 2 + sum_list (map json_char_size s)"

definition int_size :: "int \<Rightarrow> nat" where
  "int_size i = (if i < 0 then Suc (length (show_nat (nat (- i)))) else length (show_nat (nat i)))"

text \<open>Brackets and one separator between consecutive items.\<close>

definition seq_size :: "nat list \<Rightarrow> nat" where
  "seq_size ns = 2 + sum_list ns + (length ns - 1)"

fun json_size :: "json \<Rightarrow> nat" where
  "json_size JNull = 4"
| "json_size (JBool b) = (if b then 4 else 5)"
| "json_size (JInt i) = int_size i"
| "json_size (JStr s) = json_str_size s"
| "json_size (JArr xs) = seq_size (map json_size xs)"
| "json_size (JObj kvs) = seq_size (map (\<lambda>kv. json_str_size (fst kv) + 1 + json_size (snd kv)) kvs)"

definition validate_data :: "(string, json) dict option \<Rightarrow> api_error + (string, json) dict option" where
  "validate_data data =
     (case data of
        None \<Rightarrow> Inr None
      | Some kvs \<Rightarrow>
          if json_size (JObj kvs) > DATA_MAX_BYTES
          then Inl (bad_request ''data must be at most 16384 bytes'')
          else Inr (Some kvs))"

section \<open>Password hashes\<close>

text \<open>
  The digests are parameters: \<open>pbkdf2_hmac\<close> (password, salt, iterations, key length), hexadecimal
  SHA-256 and Base64 with its decoding errors.
\<close>

record crypto =
  pbkdf2_hmac :: "string \<Rightarrow> string \<Rightarrow> int \<Rightarrow> nat \<Rightarrow> string"
  sha256_hex :: "string \<Rightarrow> string"
  b64encode :: "string \<Rightarrow> string"
  b64decode :: "string \<Rightarrow> string option"

definition ITERATIONS :: int where "ITERATIONS = 100000"
definition ITERATIONS_text :: string where "ITERATIONS_text = ''100000''"
definition KEY_BYTES :: nat where "KEY_BYTES = 32"
definition PREFIX :: string where "PREFIX = ''pbkdf2''"

definition hash_password :: "crypto \<Rightarrow> string \<Rightarrow> string \<Rightarrow> string \<times> string" where
  "hash_password c salt password =
     (let key = pbkdf2_hmac c password salt ITERATIONS KEY_BYTES;
          salt_b64 = b64encode c salt
      in (py_join ''$'' [PREFIX, ITERATIONS_text, salt_b64, b64encode c key], salt_b64))"

definition verify_password :: "crypto \<Rightarrow> string \<Rightarrow> string \<Rightarrow> string \<Rightarrow> bool" where
  "verify_password c password encoded legacy_salt =
     (if encoded = [] then False
      else (case py_split (CHR ''$'') encoded of
              [a, b, s, k] \<Rightarrow>
                if a = PREFIX then
                  (case (py_int b, b64decode c s, b64decode c k) of
                     (Some iterations, Some salt, Some expected) \<Rightarrow>
                       if iterations \<le> 0 \<or> expected = [] then False
                       else pbkdf2_hmac c password salt iterations (length expected) = expected
                   | _ \<Rightarrow> False)
                else sha256_hex c (legacy_salt @ password) = encoded
            | _ \<Rightarrow> sha256_hex c (legacy_salt @ password) = encoded))"

definition needs_rehash :: "string \<Rightarrow> bool" where
  "needs_rehash encoded =
     (case py_split (CHR ''$'') encoded of
        [a, b, _, _] \<Rightarrow> \<not> (a = PREFIX \<and> b = ITERATIONS_text)
      | _ \<Rightarrow> True)"

section \<open>Lemmas\<close>

lemma sanitize_no_control:
  "sanitize v n = Some w \<Longrightarrow> \<not> has_control_chars w"
  by (auto simp: sanitize_def has_control_chars_def Let_def split: option.splits dest: in_set_takeD)

lemma sanitize_length: "sanitize v (Some n) = Some w \<Longrightarrow> length w \<le> n"
  by (auto simp: sanitize_def Let_def split: option.splits)

lemma validate_name_ok:
  "validate_name v k = Inr w \<Longrightarrow> w = v \<and> v \<noteq> [] \<and> length v \<le> NAME_MAX \<and> name_re v"
  by (auto simp: validate_name_def split: if_splits)

lemma validate_email_ok:
  "validate_email v = Inr w \<Longrightarrow> w = v \<and> length v \<le> EMAIL_MAX \<and> \<not> has_control_chars v \<and> email_re v"
  by (auto simp: validate_email_def split: if_splits)

definition perms_valid :: "string list \<Rightarrow> bool" where
  "perms_valid ps \<longleftrightarrow> distinct (map py_lower ps)
     \<and> (\<forall>p \<in> set ps. p \<noteq> [] \<and> length p \<le> PERMISSION_MAX \<and> permission_re p \<and> py_strip p = p)"

lemma perms_valid_snoc:
  "perms_valid out \<Longrightarrow> py_strip raw \<noteq> [] \<Longrightarrow> length (py_strip raw) \<le> PERMISSION_MAX \<Longrightarrow>
   permission_re (py_strip raw) \<Longrightarrow> py_lower (py_strip raw) \<notin> py_lower ` set out \<Longrightarrow>
   perms_valid (out @ [py_strip raw])"
  by (simp add: perms_valid_def)

lemma validate_permissions_loop_ok:
  "validate_permissions_loop out ps = Inr r \<Longrightarrow> perms_valid out \<Longrightarrow> perms_valid r"
  by (induction out ps rule: validate_permissions_loop.induct)
    (simp_all add: Let_def perms_valid_snoc split: if_splits)

lemma validate_permissions_loop_set:
  "validate_permissions_loop out ps = Inr r \<Longrightarrow>
   py_lower ` set r = py_lower ` set out \<union> (\<lambda>p. py_lower (py_strip p)) ` set ps"
proof (induction out ps rule: validate_permissions_loop.induct)
  case (2 out raw rest)
  let ?p = "py_strip raw"
  have ok: "\<not> (?p = [] \<or> length ?p > PERMISSION_MAX \<or> \<not> permission_re ?p)"
    using "2.prems" by (simp add: Let_def split: if_splits)
  show ?case
  proof (cases "py_lower ?p \<notin> py_lower ` set out")
    case True
    then have "validate_permissions_loop (out @ [?p]) rest = Inr r"
      using "2.prems" ok by (simp add: Let_def)
    from "2.IH"(1) [OF refl ok True this] show ?thesis by simp
  next
    case False
    then have "validate_permissions_loop out rest = Inr r"
      using "2.prems" ok by (simp add: Let_def)
    from "2.IH"(2) [OF refl ok False this] False show ?thesis by (simp add: insert_absorb)
  qed
qed simp

lemma split4: "\<forall>w \<in> set [a, b, c, d]. CHR ''$'' \<notin> set w \<Longrightarrow>
  py_split (CHR ''$'') (py_join ''$'' [a, b, c, d]) = [a, b, c, d]"
  by (rule py_split_join) simp_all

section \<open>Properties\<close>



lemma verify_hashed:
  assumes b64: "\<And>x. b64decode c (b64encode c x) = Some x"
    and alphabet: "\<And>x. CHR ''$'' \<notin> set (b64encode c x)"
    and len: "\<And>p s n l. length (pbkdf2_hmac c p s n l) = l"
    and enc: "hash_password c salt password = (encoded, salt_b64)"
  shows "verify_password c password encoded legacy
    \<and> \<not> needs_rehash encoded
    \<and> (verify_password c other encoded legacy
         = (pbkdf2_hmac c other salt ITERATIONS KEY_BYTES = pbkdf2_hmac c password salt ITERATIONS KEY_BYTES))"
proof -
  let ?key = "pbkdf2_hmac c password salt ITERATIONS KEY_BYTES"
  have encoded: "encoded = py_join ''$'' [PREFIX, ITERATIONS_text, b64encode c salt, b64encode c ?key]"
    using enc by (auto simp: hash_password_def Let_def)
  have split: "py_split (CHR ''$'') encoded = [PREFIX, ITERATIONS_text, b64encode c salt, b64encode c ?key]"
    unfolding encoded by (rule split4) (simp add: alphabet PREFIX_def ITERATIONS_text_def)
  have ne: "encoded \<noteq> []" using encoded by (simp add: PREFIX_def)
  have it: "py_int ITERATIONS_text = Some ITERATIONS" by code_simp
  have key: "length ?key = KEY_BYTES" "?key \<noteq> []"
    using len [of password salt ITERATIONS KEY_BYTES] by (auto simp: KEY_BYTES_def)
  have verify: "verify_password c x encoded legacy = (pbkdf2_hmac c x salt ITERATIONS KEY_BYTES = ?key)" for x
    using split ne it key by (simp add: verify_password_def b64 ITERATIONS_def)
  show ?thesis
    unfolding verify by (simp add: needs_rehash_def split)
qed

text \<open>
  Round trip of password hashes: a password verifies against the hash computed for it, the hash
  is never reported as outdated, and another password verifies only when the derived keys collide,
  provided Base64 decodes what it encodes, its alphabet has no dollar sign, and the derivation
  returns keys of the requested length.
\<close>

theorem password_hash_roundtrip:
  assumes b64: "\<And>x. b64decode c (b64encode c x) = Some x"
    and alphabet: "\<And>x. CHR ''$'' \<notin> set (b64encode c x)"
    and len: "\<And>p s n l. length (pbkdf2_hmac c p s n l) = l"
    and enc: "hash_password c salt password = (encoded, salt_b64)"
  shows "verify_password c password encoded legacy
    \<and> \<not> needs_rehash encoded
    \<and> (verify_password c other encoded legacy
         = (pbkdf2_hmac c other salt ITERATIONS KEY_BYTES = pbkdf2_hmac c password salt ITERATIONS KEY_BYTES))"
  by (rule verify_hashed [OF assms])

definition hex_digit :: "nat \<Rightarrow> char" where
  "hex_digit n = char_of (97 + n)"

text \<open>An instance with a real encoding: two letters per byte.\<close>

definition hex_encode :: "string \<Rightarrow> string" where
  "hex_encode s = concat (map (\<lambda>ch. [hex_digit (of_char ch div 16), hex_digit (of_char ch mod 16)]) s)"

fun hex_decode :: "string \<Rightarrow> string option" where
  "hex_decode [] = Some []"
| "hex_decode [c] = None"
| "hex_decode (a # b # cs) = map_option (\<lambda>r. char_of (((of_char a - 97) * 16 + (of_char b - 97)) :: nat) # r) (hex_decode cs)"

definition hex_crypto :: crypto where
  "hex_crypto = \<lparr>pbkdf2_hmac = (\<lambda>p s n l. take l (p @ s @ replicate l (CHR ''0''))), sha256_hex = id,
     b64encode = hex_encode, b64decode = hex_decode\<rparr>"

lemma hex_byte:
  fixes ch :: char
  shows "of_char (hex_digit (of_char ch div 16)) = (97 + of_char ch div 16 :: nat)"
    "of_char (hex_digit (of_char ch mod 16)) = (97 + of_char ch mod 16 :: nat)"
proof -
  have "(of_char ch :: nat) < 256" by (cases ch) simp
  then have "of_char ch div 16 < (16 :: nat)" "of_char ch mod 16 < (16 :: nat)" by arith+
  then show "of_char (hex_digit (of_char ch div 16)) = (97 + of_char ch div 16 :: nat)"
    and "of_char (hex_digit (of_char ch mod 16)) = (97 + of_char ch mod 16 :: nat)"
    unfolding hex_digit_def by (simp_all only: of_char_of) simp_all
qed

lemma hex_roundtrip: "hex_decode (hex_encode s) = Some s"
  by (induction s) (simp_all add: hex_encode_def hex_byte)

lemma hex_no_dollar: "CHR ''$'' \<notin> set (hex_encode s)"
proof -
  have "CHR ''$'' \<noteq> hex_digit (of_char ch div 16)" "CHR ''$'' \<noteq> hex_digit (of_char ch mod 16)" for ch :: char
    using hex_byte [of ch] by (auto dest!: arg_cong [where f = "of_char :: char \<Rightarrow> nat"])
  then show ?thesis by (auto simp: hex_encode_def)
qed

theorem password_hash_roundtrip_witness:
  "verify_password hex_crypto ''secret'' (fst (hash_password hex_crypto ''salt'' ''secret'')) ''''
   \<and> \<not> needs_rehash (fst (hash_password hex_crypto ''salt'' ''secret''))"
proof -
  have b64: "\<And>x. b64decode hex_crypto (b64encode hex_crypto x) = Some x"
    by (simp add: hex_crypto_def hex_roundtrip)
  have alphabet: "\<And>x. CHR ''$'' \<notin> set (b64encode hex_crypto x)"
    by (simp add: hex_crypto_def hex_no_dollar)
  have len: "\<And>p s n l. length (pbkdf2_hmac hex_crypto p s n l) = l"
    by (simp add: hex_crypto_def)
  show ?thesis
    using password_hash_roundtrip [OF b64 alphabet len prod.collapse [symmetric], of "''secret''" "''salt''"]
    by blast
qed

end
