(* ===== verification/AuditStore.thy ===== *)
theory AuditStore
  imports Prelude
begin

text \<open>
  The audit log: entries and query options (\<open>qodalis_cli_server_abstractions/audit\<close>) and the
  in-memory store of the audit plugin (\<open>plugins/audit/qodalis_cli_audit/in_memory_audit_store.py\<close>),
  with its two bounded queues, sequence numbers, queries and pruning.
\<close>

section \<open>Entries and queries\<close>

record audit_entry =
  ae_id :: string
  ae_timestamp :: int
  ae_event :: string
  ae_username :: string
  ae_details :: "string option"
  ae_actor :: "string option"
  ae_metadata :: "(string, json) dict option"
  ae_user_id :: "string option"
  ae_actor_id :: "string option"
  ae_target :: "string option"
  ae_properties :: "(string, json) dict option"

definition opt_field :: "string \<Rightarrow> ('a \<Rightarrow> json) \<Rightarrow> 'a option \<Rightarrow> (string, json) dict" where
  "opt_field k f v = (case v of None \<Rightarrow> [] | Some x \<Rightarrow> [(k, f x)])"

definition audit_entry_to_dict :: "audit_entry \<Rightarrow> (string, json) dict" where
  "audit_entry_to_dict e =
     [(''id'', JStr (ae_id e)), (''timestamp'', JInt (ae_timestamp e)),
      (''event'', JStr (ae_event e)), (''username'', JStr (ae_username e))]
     @ opt_field ''userId'' JStr (ae_user_id e)
     @ opt_field ''actorId'' JStr (ae_actor_id e)
     @ opt_field ''details'' JStr (ae_details e)
     @ opt_field ''actor'' JStr (ae_actor e)
     @ opt_field ''target'' JStr (ae_target e)
     @ opt_field ''properties'' JObj (ae_properties e)
     @ opt_field ''metadata'' JObj (ae_metadata e)"

record audit_query =
  aq_limit :: "int option"
  aq_event :: "string option"
  aq_username :: "string option"
  aq_actor :: "string option"
  aq_offset :: "int option"
  aq_from :: "int option"
  aq_to :: "int option"

section \<open>The in-memory store\<close>

definition MAX_ENTRIES :: int where "MAX_ENTRIES = 1000"
definition MAX_FAILED_LOGIN_ENTRIES :: int where "MAX_FAILED_LOGIN_ENTRIES = 200"
definition FAILED_LOGIN_EVENT :: string where "FAILED_LOGIN_EVENT = ''login_failed''"

record audit_store =
  max_entries :: int
  max_failed :: int
  next_seq :: int
  entries :: "(int \<times> audit_entry) list"
  failed :: "(int \<times> audit_entry) list"

definition new_audit_store :: "int \<Rightarrow> int \<Rightarrow> audit_store" where
  "new_audit_store me mf =
     \<lparr>max_entries = (if me > 0 then me else MAX_ENTRIES),
      max_failed = (if mf > 0 then mf else MAX_FAILED_LOGIN_ENTRIES),
      next_seq = 0, entries = [], failed = []\<rparr>"

definition audit_log :: "audit_entry \<Rightarrow> audit_store \<Rightarrow> audit_store" where
  "audit_log e s =
     (if ae_event e = FAILED_LOGIN_EVENT
      then s\<lparr>failed := last_n (nat (max_failed s)) (failed s @ [(next_seq s, e)]),
             next_seq := next_seq s + 1\<rparr>
      else s\<lparr>entries := last_n (nat (max_entries s)) (entries s @ [(next_seq s, e)]),
             next_seq := next_seq s + 1\<rparr>)"

text \<open>\<open>if options.event: ... == event\<close>: an absent or empty filter keeps everything.\<close>

definition filter_text :: "string option \<Rightarrow> ('a \<Rightarrow> string) \<Rightarrow> 'a list \<Rightarrow> 'a list" where
  "filter_text opt f xs =
     (case opt of None \<Rightarrow> xs
      | Some t \<Rightarrow> if t = [] then xs else filter (\<lambda>e. py_lower (f e) = py_lower t) xs)"

definition audit_matches :: "audit_query \<Rightarrow> audit_entry list \<Rightarrow> audit_entry list" where
  "audit_matches q es =
     (let es = filter_text (aq_event q) ae_event es;
          es = filter_text (aq_username q) ae_username es;
          es = filter_text (aq_actor q) (\<lambda>e. case ae_actor e of None \<Rightarrow> [] | Some a \<Rightarrow> a) es;
          es = (case aq_from q of None \<Rightarrow> es | Some t \<Rightarrow> filter (\<lambda>e. t \<le> ae_timestamp e) es)
      in (case aq_to q of None \<Rightarrow> es | Some t \<Rightarrow> filter (\<lambda>e. ae_timestamp e < t) es))"

definition audit_page :: "audit_query \<Rightarrow> 'a list \<Rightarrow> 'a list" where
  "audit_page q es =
     (let es = (case aq_offset q of None \<Rightarrow> es | Some k \<Rightarrow> if k > 0 then drop (nat k) es else es)
      in (case aq_limit q of None \<Rightarrow> es | Some k \<Rightarrow> if k \<ge> 0 then take (nat k) es else es))"

definition newest_first :: "audit_store \<Rightarrow> (int \<times> audit_entry) list" where
  "newest_first s = sort_key (\<lambda>p. - fst p) (entries s @ failed s)"

definition audit_get_entries :: "audit_query option \<Rightarrow> audit_store \<Rightarrow> audit_entry list" where
  "audit_get_entries options s =
     (let result = map snd (newest_first s)
      in case options of None \<Rightarrow> result | Some q \<Rightarrow> audit_page q (audit_matches q result))"

definition audit_prune :: "int \<Rightarrow> audit_store \<Rightarrow> int \<times> audit_store" where
  "audit_prune before s =
     (let kept_e = filter (\<lambda>p. before \<le> ae_timestamp (snd p)) (entries s);
          kept_f = filter (\<lambda>p. before \<le> ae_timestamp (snd p)) (failed s);
          removed = (int (length (entries s)) - int (length kept_e))
                    + (int (length (failed s)) - int (length kept_f))
      in (removed, s\<lparr>entries := last_n (nat (max_entries s)) kept_e,
                     failed := last_n (nat (max_failed s)) kept_f\<rparr>))"

definition audit_clear :: "audit_store \<Rightarrow> audit_store" where
  "audit_clear s = s\<lparr>entries := [], failed := []\<rparr>"

section \<open>Reachable stores\<close>

inductive audit_step :: "audit_store \<Rightarrow> audit_store \<Rightarrow> bool" where
  step_log: "audit_step s (audit_log e s)"
| step_prune: "audit_step s (snd (audit_prune before s))"
| step_clear: "audit_step s (audit_clear s)"

definition audit_init :: "audit_store \<Rightarrow> bool" where
  "audit_init s \<longleftrightarrow> (\<exists>me mf. s = new_audit_store me mf)"

definition queue_ok :: "int \<Rightarrow> int \<Rightarrow> (int \<times> audit_entry) list \<Rightarrow> bool" where
  "queue_ok m k q \<longleftrightarrow> 0 < m \<and> length q \<le> nat m \<and> sorted_wrt (<) (map fst q) \<and> (\<forall>p \<in> set q. fst p < k)"

definition audit_inv :: "audit_store \<Rightarrow> bool" where
  "audit_inv s \<longleftrightarrow>
     queue_ok (max_entries s) (next_seq s) (entries s) \<and> queue_ok (max_failed s) (next_seq s) (failed s)
     \<and> (\<forall>p \<in> set (entries s). \<forall>q \<in> set (failed s). fst p \<noteq> fst q)"

lemma set_last_n_snoc: "p \<in> set (last_n m (q @ [x])) \<Longrightarrow> p \<in> set q \<or> p = x"
  using set_last_n [of m "q @ [x]"] by auto

lemma queue_ok_append:
  assumes "queue_ok m k q"
  shows "queue_ok m (k + 1) (last_n (nat m) (q @ [(k, e)]))"
proof -
  have "sorted_wrt (<) (map fst (q @ [(k, e)]))"
    using assms by (auto simp: queue_ok_def sorted_wrt_append)
  then have "sorted_wrt (<) (map fst (last_n (nat m) (q @ [(k, e)])))"
    by (simp only: last_n_def drop_map [symmetric] sorted_wrt_drop)
  with assms show ?thesis
    by (force simp: queue_ok_def dest: set_last_n_snoc)
qed

lemma queue_ok_later: "queue_ok m k q \<Longrightarrow> queue_ok m (k + 1) q"
  by (auto simp: queue_ok_def)

lemma length_filter_le_trans: "length xs \<le> n \<Longrightarrow> length (filter p xs) \<le> n"
  by (rule le_trans [OF length_filter_le])

lemma queue_ok_filter: "queue_ok m k q \<Longrightarrow> queue_ok m k (filter p q)"
  by (simp add: queue_ok_def length_filter_le_trans sorted_wrt_map sorted_wrt_filter)

lemma queue_ok_filter_all: "queue_ok m k q \<Longrightarrow> last_n (nat m) (filter p q) = filter p q"
  by (simp add: queue_ok_def length_filter_le_trans)

lemma queue_ok_fresh: "queue_ok m k q \<Longrightarrow> p \<in> set q \<Longrightarrow> fst p \<noteq> k"
  by (auto simp: queue_ok_def)

lemma audit_inv_log: "audit_inv s \<Longrightarrow> audit_inv (audit_log e s)"
  unfolding audit_inv_def audit_log_def
  by (auto simp: queue_ok_append queue_ok_later dest!: set_last_n_snoc dest: queue_ok_fresh)

lemma audit_prune_eq:
  assumes "audit_inv s"
  shows "audit_prune before s =
    ((int (length (entries s)) - int (length [p\<leftarrow>entries s. before \<le> ae_timestamp (snd p)]))
     + (int (length (failed s)) - int (length [p\<leftarrow>failed s. before \<le> ae_timestamp (snd p)])),
     s\<lparr>entries := [p\<leftarrow>entries s. before \<le> ae_timestamp (snd p)],
       failed := [p\<leftarrow>failed s. before \<le> ae_timestamp (snd p)]\<rparr>)"
proof -
  from assms have "queue_ok (max_entries s) (next_seq s) (entries s)"
    and "queue_ok (max_failed s) (next_seq s) (failed s)"
    by (auto simp: audit_inv_def)
  then show ?thesis
    unfolding audit_prune_def Let_def by (simp only: queue_ok_filter_all)
qed

lemma audit_inv_prune: "audit_inv s \<Longrightarrow> audit_inv (snd (audit_prune before s))"
  by (simp add: audit_prune_eq) (simp add: audit_inv_def queue_ok_filter)

lemma audit_inv_clear: "audit_inv s \<Longrightarrow> audit_inv (audit_clear s)"
  by (simp add: audit_inv_def audit_clear_def queue_ok_def)

lemma audit_init_new: "audit_init (new_audit_store me mf)"
  by (auto simp: audit_init_def)

interpretation audit: invariant_system audit_init audit_step audit_inv
proof
  show "audit_inv s" if "audit_init s" for s
    using that by (auto simp: audit_init_def new_audit_store_def audit_inv_def queue_ok_def MAX_ENTRIES_def
        MAX_FAILED_LOGIN_ENTRIES_def)
  show "audit_inv t" if "audit_inv s" "audit_step s t" for s t
    using that(2,1) by cases (auto intro: audit_inv_log audit_inv_prune audit_inv_clear)
qed

section \<open>Queries\<close>

lemma newest_first_set: "set (newest_first s) = set (entries s) \<union> set (failed s)"
  by (simp add: newest_first_def)

lemma newest_first_desc:
  assumes "audit_inv s"
  shows "sorted_wrt (\<lambda>p q. fst q < fst p) (newest_first s)"
proof -
  let ?xs = "newest_first s"
  have d: "distinct (map fst (entries s @ failed s))"
    using assms by (auto simp: audit_inv_def queue_ok_def strict_sorted_iff)
  then have "distinct (map uminus (map fst (entries s @ failed s)))"
    by (simp only: distinct_map) simp
  then have "distinct (map (\<lambda>p. - fst p) (entries s @ failed s))"
    by (simp add: comp_def)
  then have "distinct (map (\<lambda>p. - fst p) ?xs)"
    by (simp only: newest_first_def distinct_map distinct_sort set_sort)
  moreover have "sorted (map (\<lambda>p. - fst p) ?xs)"
    unfolding newest_first_def by simp
  ultimately have "sorted_wrt (<) (map (\<lambda>p. - fst p) ?xs)"
    by (simp only: strict_sorted_iff)
  then show ?thesis
    by (simp add: sorted_wrt_map)
qed

text \<open>The queues as functions of the whole history of logged entries.\<close>

definition history :: "audit_entry list \<Rightarrow> (int \<times> audit_entry) list" where
  "history es = zip (map int [0..<length es]) es"

definition is_failed :: "int \<times> audit_entry \<Rightarrow> bool" where
  "is_failed p \<longleftrightarrow> ae_event (snd p) = FAILED_LOGIN_EVENT"

lemma history_snoc: "history (es @ [e]) = history es @ [(int (length es), e)]"
  by (simp add: history_def)

lemma audit_log_frame [state_frame]:
  "max_entries (audit_log e s) = max_entries s" "max_failed (audit_log e s) = max_failed s"
  "next_seq (audit_log e s) = next_seq s + 1"
  by (simp_all add: audit_log_def)

lemma audit_log_history:
  assumes "s = fold audit_log es (new_audit_store me mf)"
  shows "next_seq s = int (length es)
    \<and> max_entries s = max_entries (new_audit_store me mf) \<and> max_failed s = max_failed (new_audit_store me mf)
    \<and> entries s = last_n (nat (max_entries s)) (filter (\<lambda>p. \<not> is_failed p) (history es))
    \<and> failed s = last_n (nat (max_failed s)) (filter is_failed (history es))"
  using assms
proof (induction es arbitrary: s rule: rev_induct)
  case Nil
  then show ?case by (simp add: new_audit_store_def history_def)
next
  case (snoc e es)
  define s0 where "s0 = fold audit_log es (new_audit_store me mf)"
  have s: "s = audit_log e s0" using snoc.prems by (simp add: s0_def)
  note IH = snoc.IH [OF s0_def]
  show ?case
    using IH by (auto simp: s audit_log_def history_snoc is_failed_def)
qed

section \<open>Properties\<close>

text \<open>
  However entries are logged, pruned and cleared, the store never holds more than its two
  capacities, and a query without options returns the entries in strictly decreasing order of
  recording (newest first).
\<close>

theorem audit_bounded_newest_first:
  assumes "reachable audit_init audit_step s"
  shows "int (length (audit_get_entries None s)) \<le> max_entries s + max_failed s
    \<and> sorted_wrt (\<lambda>p q. fst q < fst p) (newest_first s)
    \<and> audit_get_entries None s = map snd (newest_first s)"
proof -
  have inv: "audit_inv s" by (rule audit.reachable_inv [OF assms])
  moreover have "length (newest_first s) = length (entries s) + length (failed s)"
    by (simp add: newest_first_def)
  moreover have "int (length (entries s)) \<le> max_entries s" "int (length (failed s)) \<le> max_failed s"
    using inv by (auto simp: audit_inv_def queue_ok_def)
  ultimately show ?thesis
    by (simp add: audit_get_entries_def newest_first_desc)
qed

definition sample_entry :: "string \<Rightarrow> int \<Rightarrow> audit_entry" where
  "sample_entry ev t = \<lparr>ae_id = ''e'', ae_timestamp = t, ae_event = ev, ae_username = ''ada'',
     ae_details = None, ae_actor = None, ae_metadata = None, ae_user_id = None, ae_actor_id = None,
     ae_target = None, ae_properties = None\<rparr>"

theorem audit_bounded_newest_first_witness:
  "int (length (audit_get_entries None (audit_log (sample_entry ''login'' 5) (new_audit_store 1 1)))) \<le> 2"
proof -
  let ?s = "audit_log (sample_entry ''login'' 5) (new_audit_store 1 1)"
  have "reachable audit_init audit_step ?s"
    by (rule reach_step [where s = "new_audit_store 1 1"]) (auto intro: reach_init step_log audit_init_new)
  moreover have "max_entries ?s + max_failed ?s = 2"
    by (simp add: audit_log_frame) (simp add: new_audit_store_def)
  ultimately show ?thesis
    using audit_bounded_newest_first [of ?s] by linarith
qed

text \<open>
  C11. The store is a bounded view of the whole history: after logging any sequence of entries, it
  holds exactly the latest \<open>max_failed_login_entries\<close> failed sign-ins and the latest \<open>max_entries\<close>
  other entries, each with its position in the sequence; so a flood of failed sign-ins evicts nothing
  else.
\<close>

theorem audit_store_refines_history:
  fixes es me mf
  defines "s \<equiv> fold audit_log es (new_audit_store me mf)"
  shows "set (newest_first s) =
      set (last_n (nat (max_failed s)) (filter is_failed (history es)))
      \<union> set (last_n (nat (max_entries s)) (filter (\<lambda>p. \<not> is_failed p) (history es)))"
  using audit_log_history [of s es me mf] by (auto simp: s_def newest_first_set)

text \<open>
  Pruning removes exactly the entries older than the cutoff and reports how many it removed, in
  any reachable store.
\<close>

theorem audit_prune_exact:
  assumes "reachable audit_init audit_step s" and "audit_prune before s = (n, s')"
  shows "set (newest_first s') = {p \<in> set (newest_first s). before \<le> ae_timestamp (snd p)}
    \<and> n = int (length (newest_first s)) - int (length (newest_first s')) \<and> 0 \<le> n"
proof -
  have inv: "audit_inv s" by (rule audit.reachable_inv [OF assms(1)])
  let ?k = "\<lambda>p. before \<le> ae_timestamp (snd p)"
  have s': "s' = s\<lparr>entries := filter ?k (entries s), failed := filter ?k (failed s)\<rparr>"
    and n: "n = (int (length (entries s)) - int (length (filter ?k (entries s))))
      + (int (length (failed s)) - int (length (filter ?k (failed s))))"
    using assms(2) by (auto simp: audit_prune_eq [OF inv])
  show ?thesis
    unfolding s' n
    using length_filter_le [of ?k "entries s"] length_filter_le [of ?k "failed s"]
    by (auto simp: newest_first_def)
qed

theorem audit_prune_exact_witness:
  "fst (audit_prune 7 (audit_log (sample_entry ''login'' 5) (new_audit_store 1 1))) = 1"
proof -
  let ?s = "audit_log (sample_entry ''login'' 5) (new_audit_store 1 1)"
  have r: "reachable audit_init audit_step ?s"
    by (rule reach_step [where s = "new_audit_store 1 1"]) (auto intro: reach_init step_log audit_init_new)
  obtain n s' where p: "audit_prune 7 ?s = (n, s')" by fastforce
  have "newest_first ?s = [(0, sample_entry ''login'' 5)]" by code_simp
  moreover have "newest_first s' = []" using p
    by (simp add: audit_prune_def audit_log_def new_audit_store_def sample_entry_def
        FAILED_LOGIN_EVENT_def newest_first_def Let_def) auto
  ultimately show ?thesis
    using audit_prune_exact [OF r p] p by simp
qed

end
