(* ===== verification/AuthService.thy ===== *)
theory AuthService
  imports UserStores Validation AuditStore
begin

text \<open>
  The authentication service of the users plugin (\<open>services/auth_service.py\<close>): lockout and rate
  limit, effective permissions and privilege checks, audit and events, sessions, API tokens,
  WebSocket tickets, sign-in, sign-out and seeding.

  The service's fields and its in-memory stores are one state record.  The clock, the random values,
  the digests, the options and which hooks are installed are in an environment that is fixed during
  one atomic step (between two suspension points of the event loop).  Published events and listener
  calls are recorded in the order they happen.
\<close>

section \<open>Contexts, options and state\<close>

record auth_context =
  cx_user :: user
  cx_groups :: "string list"
  cx_permissions :: "string list"
  cx_session :: "session option"
  cx_token :: "string option"
  cx_external :: bool
  cx_api_token :: "api_token option"

definition ctx_can :: "auth_context \<Rightarrow> string \<Rightarrow> bool" where
  "ctx_can ctx permission = has_permission (cx_permissions ctx) permission"

definition ctx_is_self :: "auth_context \<Rightarrow> user \<Rightarrow> bool" where
  "ctx_is_self ctx u = (u_id u = u_id (cx_user ctx))"

definition ctx_api_token_id :: "auth_context \<Rightarrow> string option" where
  "ctx_api_token_id ctx = map_option at_id (cx_api_token ctx)"

record lockout_state =
  lo_failures :: int
  lo_locked_until :: int

record ticket =
  tk_session_id :: "string option"
  tk_user_id :: string
  tk_expires_at :: int
  tk_external_ctx :: "auth_context option"
  tk_api_token_id :: "string option"

datatype trust_proxy = TrustBool bool | TrustHops int

record auth_options =
  session_timeout_ms :: int
  max_session_lifetime_ms :: int
  min_password_length :: nat
  max_login_attempts :: int
  lockout_ms :: int
  rate_limit_attempts :: nat
  rate_limit_window_ms :: int
  opt_trust_proxy :: trust_proxy
  ticket_ttl_ms :: int
  allow_non_expiring_tokens :: bool
  read_only_users :: bool
  read_only_groups :: bool

datatype effect =
    Bus string "(string \<times> string) list" "string option" "string option"
  | Broadcast string "(string \<times> string) list"
  | UserEvent string string "(string \<times> string) list"
  | AuditRecorded audit_entry
  | Change

record env =
  e_now :: int
  e_rnd :: "nat \<Rightarrow> string"
  e_crypto :: crypto
  e_opts :: auth_options
  e_bus :: bool
  e_broadcast :: bool
  e_user_sender :: bool
  e_audit_hook :: bool
  e_external_auth :: bool

record auth =
  a_users :: user_store
  a_groups :: group_store
  a_sessions :: session_store
  a_credentials :: credential_store
  a_tokens :: api_token_store
  a_audit :: audit_store
  a_lockouts :: "(string, lockout_state) dict"
  a_rate :: "(string, int list) dict"
  a_tickets :: "(string, ticket) dict"
  a_effects :: "effect list"
  a_draws :: nat

definition default_options :: auth_options where
  "default_options =
     \<lparr>session_timeout_ms = 30 * 60 * 1000, max_session_lifetime_ms = 12 * 60 * 60 * 1000,
      min_password_length = 8, max_login_attempts = 5, lockout_ms = 5 * 60 * 1000,
      rate_limit_attempts = 20, rate_limit_window_ms = 60 * 1000, opt_trust_proxy = TrustBool False,
      ticket_ttl_ms = 30 * 1000, allow_non_expiring_tokens = False, read_only_users = False,
      read_only_groups = False\<rparr>"

definition new_auth :: "audit_store \<Rightarrow> auth" where
  "new_auth audit_st =
     \<lparr>a_users = [], a_groups = [], a_sessions = [], a_credentials = [], a_tokens = [], a_audit = audit_st,
      a_lockouts = [], a_rate = [], a_tickets = [], a_effects = [], a_draws = 0\<rparr>"

definition MAX_TRACKED_KEYS :: nat where "MAX_TRACKED_KEYS = 10000"

definition API_TOKEN_PREFIX :: string where "API_TOKEN_PREFIX = ''qcli_pat_''"
definition API_TOKEN_LAST_USED_INTERVAL_MS :: int where "API_TOKEN_LAST_USED_INTERVAL_MS = 60000"

definition NON_CHANGING_EVENTS :: "string list" where
  "NON_CHANGING_EVENTS = [''login'', ''login_failed'', ''shell_opened'', ''shell_closed'']"

text \<open>A fresh random value (identifier, token or salt) is the next one of the environment's stream.\<close>

definition fresh :: "env \<Rightarrow> auth \<Rightarrow> string \<times> auth" where
  "fresh e s = (e_rnd e (a_draws s), s\<lparr>a_draws := Suc (a_draws s)\<rparr>)"

definition emit :: "effect \<Rightarrow> auth \<Rightarrow> auth" where
  "emit ef s = s\<lparr>a_effects := a_effects s @ [ef]\<rparr>"

definition hash_token :: "env \<Rightarrow> string \<Rightarrow> string" where
  "hash_token e token = sha256_hex (e_crypto e) token"

section \<open>Passwords\<close>

definition validate_password_policy :: "env \<Rightarrow> string option \<Rightarrow> string option" where
  "validate_password_policy e password =
     (case password of
        None \<Rightarrow> Some ''password is required''
      | Some p \<Rightarrow>
          if p = [] then Some ''password is required''
          else if length p < min_password_length (e_opts e)
          then Some (''password must be at least '' @ show_nat (min_password_length (e_opts e)) @ '' characters'')
          else if length p > PASSWORD_MAX
          then Some (''password must be at most '' @ show_nat PASSWORD_MAX @ '' characters'')
          else None)"

definition set_password :: "env \<Rightarrow> string \<Rightarrow> string \<Rightarrow> auth \<Rightarrow> auth" where
  "set_password e user_id password s =
     (let (salt, s) = fresh e s;
          (encoded, salt_b64) = hash_password (e_crypto e) salt password
      in s\<lparr>a_credentials := cs_set_password (e_now e) user_id encoded salt_b64 (a_credentials s)\<rparr>)"

definition auth_verify_password :: "env \<Rightarrow> string \<Rightarrow> string \<Rightarrow> auth \<Rightarrow> bool \<times> auth" where
  "auth_verify_password e user_id password s =
     (case cs_get_credentials user_id (a_credentials s) of
        None \<Rightarrow> (False, s)
      | Some creds \<Rightarrow>
          if length password > PASSWORD_MAX then (False, s)
          else let valid = verify_password (e_crypto e) password (cr_password_hash creds) (cr_salt creds)
               in if valid \<and> needs_rehash (cr_password_hash creds)
                  then (valid, set_password e user_id password s) else (valid, s))"

section \<open>Lockout\<close>

definition lockout_key :: "user option \<Rightarrow> string \<Rightarrow> string" where
  "lockout_key user attempted =
     (case user of
        Some u \<Rightarrow> u_id u
      | None \<Rightarrow> ''unknown:'' @ take 256 (py_lower (py_strip attempted)))"

text \<open>\<open>while len(d) > MAX: d.popitem(last=False)\<close> drops the oldest keys.\<close>

definition evict_oldest :: "('k, 'v) dict \<Rightarrow> ('k, 'v) dict" where
  "evict_oldest d = drop (length d - MAX_TRACKED_KEYS) d"

definition lockout_get_or_create ::
  "string \<Rightarrow> (string, lockout_state) dict \<Rightarrow> lockout_state \<times> (string, lockout_state) dict" where
  "lockout_get_or_create key d =
     (case dget d key of
        Some st \<Rightarrow> (st, d)
      | None \<Rightarrow> let st = \<lparr>lo_failures = 0, lo_locked_until = 0\<rparr>
                in (st, evict_oldest (dset key st d)))"

definition is_locked :: "int \<Rightarrow> string \<Rightarrow> (string, lockout_state) dict \<Rightarrow> bool \<times> (string, lockout_state) dict" where
  "is_locked now key d =
     (case dget d key of
        None \<Rightarrow> (False, d)
      | Some st \<Rightarrow>
          if lo_locked_until st = 0 then (False, d)
          else if lo_locked_until st > now then (True, d)
          else (False, dpop key d))"

definition reserve ::
  "auth_options \<Rightarrow> int \<Rightarrow> string \<Rightarrow> (string, lockout_state) dict \<Rightarrow> bool \<times> (string, lockout_state) dict" where
  "reserve opts now key d =
     (let (locked, d) = is_locked now key d
      in if locked then (False, d)
         else let (st, d) = lockout_get_or_create key d;
                  failures = lo_failures st + 1;
                  st = (if failures \<ge> max_login_attempts opts
                        then \<lparr>lo_failures = 0, lo_locked_until = now + lockout_ms opts\<rparr>
                        else st\<lparr>lo_failures := failures\<rparr>)
              in (True, dset key st d))"

definition reserve_attempt :: "env \<Rightarrow> string \<Rightarrow> auth \<Rightarrow> bool \<times> auth" where
  "reserve_attempt e key s =
     (let (ok, d) = reserve (e_opts e) (e_now e) key (a_lockouts s) in (ok, s\<lparr>a_lockouts := d\<rparr>))"

definition reset_failures :: "string \<Rightarrow> auth \<Rightarrow> auth" where
  "reset_failures key s = s\<lparr>a_lockouts := dpop key (a_lockouts s)\<rparr>"

section \<open>Client address and rate limit\<close>

definition trusted_hops :: "trust_proxy \<Rightarrow> nat" where
  "trusted_hops t =
     (case t of TrustBool b \<Rightarrow> if b then 1 else 0
      | TrustHops n \<Rightarrow> if n = 0 then 0 else nat (max n 1))"

text \<open>\<open>xff\<close> are the values of the \<open>X-Forwarded-For\<close> headers, in order.\<close>

definition forwarded_client_ip :: "string list \<Rightarrow> trust_proxy \<Rightarrow> string option" where
  "forwarded_client_ip xff trust =
     (let hops = trusted_hops trust
      in if hops = 0 then None
         else let entries = map py_strip (concat (map (py_split (CHR '','')) xff))
              in if entries = [] then None else or_none (entries ! (length entries - hops)))"

definition client_ip :: "env \<Rightarrow> string list \<Rightarrow> string option \<Rightarrow> string" where
  "client_ip e xff peer =
     (case forwarded_client_ip xff (opt_trust_proxy (e_opts e)) of
        Some ip \<Rightarrow> ip
      | None \<Rightarrow> (case peer of None \<Rightarrow> ''unknown'' | Some h \<Rightarrow> if h = [] then ''unknown'' else h))"

definition rate_limit ::
  "auth_options \<Rightarrow> int \<Rightarrow> string \<Rightarrow> (string, int list) dict \<Rightarrow> bool \<times> (string, int list) dict" where
  "rate_limit opts now ip d =
     (let (window, d) = (case dget d ip of
                           Some w \<Rightarrow> (w, d)
                         | None \<Rightarrow> ([], evict_oldest (dset ip [] d)));
          window = dropWhile (\<lambda>t. t \<le> now - rate_limit_window_ms opts) window
      in if length window \<ge> rate_limit_attempts opts then (False, dset ip window d)
         else (True, dset ip (window @ [now]) d))"

definition check_rate_limit :: "env \<Rightarrow> string list \<Rightarrow> string option \<Rightarrow> (api_error, unit, auth) act" where
  "check_rate_limit e xff peer s =
     (let (ok, d) = rate_limit (e_opts e) (e_now e) (client_ip e xff peer) (a_rate s)
      in (if ok then Inr () else Inl (ApiError 429 ''too many requests, try again later''),
          s\<lparr>a_rate := d\<rparr>))"

section \<open>Users, groups and permissions\<close>

definition find_user :: "string \<Rightarrow> auth \<Rightarrow> user option" where
  "find_user id_name_or_email s =
     (case us_get_user id_name_or_email (a_users s) of
        Some u \<Rightarrow> Some u
      | None \<Rightarrow> if CHR ''@'' \<in> set id_name_or_email
                then us_get_user_by_email id_name_or_email (a_users s) else None)"

definition effective_permissions :: "string list \<Rightarrow> auth \<Rightarrow> string list" where
  "effective_permissions groups s =
     merge_permissions (map g_permissions (List.map_filter (\<lambda>n. gs_get_group n (a_groups s)) groups))"

definition user_permissions :: "user \<Rightarrow> auth \<Rightarrow> string list" where
  "user_permissions u s = effective_permissions (u_groups u) s"

definition ensure_covers_user :: "auth_context \<Rightarrow> user \<Rightarrow> auth \<Rightarrow> api_error + unit" where
  "ensure_covers_user ctx target s =
     (if ctx_is_self ctx target then Inr ()
      else if covers (cx_permissions ctx) (user_permissions target s) then Inr ()
      else Inl (forbidden ''insufficient privileges for this user''))"

definition ensure_can_grant_permissions :: "auth_context \<Rightarrow> string list \<Rightarrow> api_error + unit" where
  "ensure_can_grant_permissions ctx permissions =
     (let missing = uncovered (cx_permissions ctx) permissions
      in if missing \<noteq> []
         then Inl (forbidden (''cannot grant permissions you do not hold: '' @ py_join '', '' missing))
         else Inr ())"

definition ensure_can_grant_groups :: "auth_context \<Rightarrow> string list \<Rightarrow> auth \<Rightarrow> api_error + unit" where
  "ensure_can_grant_groups ctx groups s =
     ensure_can_grant_permissions ctx (effective_permissions groups s)"

definition in_group :: "user \<Rightarrow> string \<Rightarrow> bool" where
  "in_group u gname = (\<exists>x \<in> set (u_groups u). py_lower x = py_lower gname)"

definition enabled_admin :: "user \<Rightarrow> bool" where
  "enabled_admin u = (\<not> u_disabled u \<and> in_group u ADMIN_GROUP)"

definition is_last_enabled_admin :: "user \<Rightarrow> auth \<Rightarrow> bool" where
  "is_last_enabled_admin u s =
     (if u_disabled u \<or> \<not> in_group u ADMIN_GROUP then False
      else length (filter enabled_admin (us_get_users (a_users s))) \<le> 1)"

section \<open>Audit and events\<close>

definition notify_change :: "auth \<Rightarrow> auth" where
  "notify_change s = emit Change s"

record audit_args =
  aa_details :: "string option"
  aa_actor :: "string option"
  aa_metadata :: "(string, json) dict option"
  aa_user_id :: "string option"
  aa_actor_id :: "string option"
  aa_target :: "string option"

definition no_args :: audit_args where
  "no_args = \<lparr>aa_details = None, aa_actor = None, aa_metadata = None, aa_user_id = None,
     aa_actor_id = None, aa_target = None\<rparr>"

definition audit :: "env \<Rightarrow> string \<Rightarrow> string \<Rightarrow> audit_args \<Rightarrow> auth \<Rightarrow> auth" where
  "audit e event username args s =
     (let (i, s) = fresh e s;
          entry = \<lparr>ae_id = i, ae_timestamp = e_now e, ae_event = event,
                   ae_username = the (sanitize (Some username) (Some 256)),
                   ae_details = sanitize (aa_details args) (Some 1024),
                   ae_actor = sanitize (aa_actor args) (Some 256),
                   ae_metadata = aa_metadata args, ae_user_id = aa_user_id args,
                   ae_actor_id = aa_actor_id args,
                   ae_target = sanitize (aa_target args) (Some 256), ae_properties = None\<rparr>;
          s = s\<lparr>a_audit := audit_log entry (a_audit s)\<rparr>;
          s = (if e_audit_hook e then emit (AuditRecorded entry) s else s)
      in if event \<in> set NON_CHANGING_EVENTS then s else notify_change s)"

definition present :: "(string \<times> string option) list \<Rightarrow> (string \<times> string) list" where
  "present data = List.map_filter (\<lambda>(k, v). map_option (Pair k) v) data"

definition broadcast :: "env \<Rightarrow> string \<Rightarrow> (string \<times> string) list \<Rightarrow> auth \<Rightarrow> auth" where
  "broadcast e event_type flds s = (if e_broadcast e then emit (Broadcast event_type flds) s else s)"

definition publish ::
  "env \<Rightarrow> string \<Rightarrow> (string \<times> string option) list \<Rightarrow> string option \<Rightarrow> string option \<Rightarrow> auth \<Rightarrow> auth" where
  "publish e event_type data permission user_id s =
     (let flds = present data
      in if \<not> e_bus e then broadcast e event_type flds s
         else emit (Bus event_type flds permission user_id) s)"

definition publish_session_closed :: "env \<Rightarrow> session \<Rightarrow> string option \<Rightarrow> auth \<Rightarrow> auth" where
  "publish_session_closed e se actor s =
     publish e ''session:closed''
       [(''userId'', Some (se_user_id se)), (''username'', or_none (se_user_name se)),
        (''sessionId'', Some (se_id se)), (''actor'', actor)]
       (Some ''sessions:read'') None s"

definition notify_user :: "env \<Rightarrow> string \<Rightarrow> string \<Rightarrow> (string \<times> string) list \<Rightarrow> auth \<Rightarrow> auth" where
  "notify_user e user_id event_type flds s =
     (if e_user_sender e then emit (UserEvent user_id event_type flds) s
      else broadcast e event_type flds s)"

section \<open>Sessions\<close>

definition is_expired :: "env \<Rightarrow> session \<Rightarrow> bool" where
  "is_expired e se =
     (e_now e > session_expires_at se (session_timeout_ms (e_opts e)) (Some (max_session_lifetime_ms (e_opts e))))"

definition drop_tickets :: "string \<Rightarrow> auth \<Rightarrow> auth" where
  "drop_tickets session_id s =
     s\<lparr>a_tickets := filter (\<lambda>p. tk_session_id (snd p) \<noteq> Some session_id) (a_tickets s)\<rparr>"

definition drop_expired_tickets :: "env \<Rightarrow> auth \<Rightarrow> auth" where
  "drop_expired_tickets e s =
     s\<lparr>a_tickets := filter (\<lambda>p. \<not> tk_expires_at (snd p) \<le> e_now e) (a_tickets s)\<rparr>"

definition revoke_session ::
  "env \<Rightarrow> session \<Rightarrow> string \<Rightarrow> string option \<Rightarrow> string option \<Rightarrow> string option \<Rightarrow> auth \<Rightarrow> auth" where
  "revoke_session e se reason actor actor_id username s =
     (let s = s\<lparr>a_sessions := ss_delete_session_by_id (se_id se) (a_sessions s)\<rparr>;
          s = drop_tickets (se_id se) s;
          s = publish_session_closed e se actor s;
          s = notify_user e (se_user_id se) ''session-kicked''
                [(''sessionId'', se_id se), (''userId'', se_user_id se), (''reason'', reason)] s
      in audit e ''session_revoked''
           (case username of None \<Rightarrow> se_user_name se | Some n \<Rightarrow> if n = [] then se_user_name se else n)
           \<lparr>aa_details = Some reason, aa_actor = actor, aa_metadata = Some [(''sessionId'', JStr (se_id se))],
            aa_user_id = Some (se_user_id se), aa_actor_id = actor_id, aa_target = None\<rparr> s)"

fun revoke_loop ::
  "env \<Rightarrow> string \<Rightarrow> string \<Rightarrow> string option \<Rightarrow> string option \<Rightarrow> string option \<Rightarrow> session list \<Rightarrow> nat \<times> auth \<Rightarrow> nat \<times> auth" where
  "revoke_loop e user_id reason actor actor_id except_id [] acc = acc"
| "revoke_loop e user_id reason actor actor_id except_id (se # rest) (count, s) =
     (if se_user_id se = user_id \<and> Some (se_id se) \<noteq> except_id
      then revoke_loop e user_id reason actor actor_id except_id rest
             (Suc count, revoke_session e se reason actor actor_id None s)
      else revoke_loop e user_id reason actor actor_id except_id rest (count, s))"

definition revoke_user_sessions ::
  "env \<Rightarrow> string \<Rightarrow> string \<Rightarrow> string option \<Rightarrow> string option \<Rightarrow> string option \<Rightarrow> auth \<Rightarrow> nat \<times> auth" where
  "revoke_user_sessions e user_id reason actor actor_id except_id s =
     revoke_loop e user_id reason actor actor_id except_id (ss_get_active_sessions (a_sessions s)) (0, s)"

definition cleanup_sessions :: "env \<Rightarrow> auth \<Rightarrow> auth" where
  "cleanup_sessions e s =
     (let before = ss_get_active_sessions (a_sessions s);
          s = s\<lparr>a_sessions := ss_cleanup (e_now e) (session_timeout_ms (e_opts e)) (a_sessions s)\<rparr>;
          s = s\<lparr>a_sessions := fold ss_delete_session_by_id
                 (map se_id (filter (is_expired e) (ss_get_active_sessions (a_sessions s)))) (a_sessions s)\<rparr>;
          remaining = set (map se_id (ss_get_active_sessions (a_sessions s)));
          s = fold (\<lambda>se. publish_session_closed e se None) (filter (\<lambda>se. se_id se \<notin> remaining) before) s;
          s = notify_change s
      in drop_expired_tickets e s)"

section \<open>Request authentication\<close>

definition invalid_token :: api_error where
  "invalid_token = unauthorized ''invalid or expired token''"

definition live_user :: "string \<Rightarrow> auth \<Rightarrow> user option" where
  "live_user user_id s =
     (case us_get_user user_id (a_users s) of
        None \<Rightarrow> None
      | Some u \<Rightarrow> if u_id u \<noteq> user_id \<or> u_disabled u then None else Some u)"

definition context_for_session :: "env \<Rightarrow> session \<Rightarrow> (api_error, auth_context, auth) act" where
  "context_for_session e se s =
     (if is_expired e se
      then (Inl (unauthorized ''session expired''),
            publish_session_closed e se None
              (s\<lparr>a_sessions := ss_delete_session_by_id (se_id se) (a_sessions s)\<rparr>))
      else (case live_user (se_user_id se) s of
              None \<Rightarrow> (Inl invalid_token, s)
            | Some u \<Rightarrow>
                (Inr \<lparr>cx_user = u, cx_groups = u_groups u,
                      cx_permissions = effective_permissions (u_groups u) s,
                      cx_session = Some se, cx_token = None, cx_external = False,
                      cx_api_token = None\<rparr>, s)))"

definition context_for_api_token :: "env \<Rightarrow> api_token \<Rightarrow> auth \<Rightarrow> api_error + auth_context" where
  "context_for_api_token e t s =
     (if token_is_expired t (e_now e) then Inl invalid_token
      else (case live_user (at_user_id t) s of
              None \<Rightarrow> Inl invalid_token
            | Some u \<Rightarrow>
                let permissions = effective_permissions (u_groups u) s;
                    permissions = (case at_permissions t of
                        None \<Rightarrow> permissions
                      | Some scope \<Rightarrow> filter (has_permission permissions) scope)
                in Inr \<lparr>cx_user = u, cx_groups = u_groups u, cx_permissions = permissions,
                        cx_session = None, cx_token = None, cx_external = False,
                        cx_api_token = Some t\<rparr>))"

definition authenticate_api_token :: "env \<Rightarrow> string \<Rightarrow> (api_error, auth_context, auth) act" where
  "authenticate_api_token e token s =
     (case ts_get_token_by_hash (hash_token e token) (a_tokens s) of
        None \<Rightarrow> (Inl invalid_token, s)
      | Some t \<Rightarrow>
          (case context_for_api_token e t s of
             Inl err \<Rightarrow> (Inl err, s)
           | Inr ctx \<Rightarrow>
               if (case at_last_used_at t of None \<Rightarrow> True
                   | Some l \<Rightarrow> e_now e - l \<ge> API_TOKEN_LAST_USED_INTERVAL_MS)
               then (Inr (ctx\<lparr>cx_api_token := Some (t\<lparr>at_last_used_at := Some (e_now e)\<rparr>)\<rparr>),
                     s\<lparr>a_tokens := ts_update_last_used (at_id t) (e_now e) (a_tokens s)\<rparr>)
               else (Inr ctx, s)))"

definition authenticate_token :: "env \<Rightarrow> string \<Rightarrow> (api_error, auth_context, auth) act" where
  "authenticate_token e token s =
     (if py_startswith token API_TOKEN_PREFIX then authenticate_api_token e token s
      else (case ss_get_session (hash_token e token) (a_sessions s) of
              None \<Rightarrow> (Inl invalid_token, s)
            | Some se \<Rightarrow>
                (case context_for_session e se s of
                   (Inl err, s) \<Rightarrow> (Inl err, s)
                 | (Inr ctx, s) \<Rightarrow>
                     (Inr (ctx\<lparr>cx_session := Some (se\<lparr>se_last_activity := e_now e\<rparr>), cx_token := Some token\<rparr>),
                      s\<lparr>a_sessions := ss_update_last_activity (e_now e) (hash_token e token) (a_sessions s)\<rparr>))))"

definition is_api_token_active :: "env \<Rightarrow> string \<Rightarrow> string \<Rightarrow> auth \<Rightarrow> bool" where
  "is_api_token_active e token_id user_id s =
     (case ts_get_token token_id (a_tokens s) of
        None \<Rightarrow> False
      | Some t \<Rightarrow> if at_user_id t \<noteq> user_id then False
                  else (case context_for_api_token e t s of Inl _ \<Rightarrow> False | Inr _ \<Rightarrow> True))"

definition is_context_active :: "env \<Rightarrow> auth_context \<Rightarrow> auth \<Rightarrow> bool" where
  "is_context_active e ctx s =
     (if cx_external ctx then True
      else case cx_api_token ctx of
        Some t \<Rightarrow> is_api_token_active e (at_id t) (u_id (cx_user ctx)) s
      | None \<Rightarrow>
          (case cx_session ctx of
             None \<Rightarrow> False
           | Some cse \<Rightarrow>
               (case ss_get_session_by_id (se_id cse) (a_sessions s) of
                  None \<Rightarrow> False
                | Some se \<Rightarrow>
                    if se_user_id se \<noteq> u_id (cx_user ctx) \<or> is_expired e se then False
                    else live_user (u_id (cx_user ctx)) s \<noteq> None)))"

section \<open>WebSocket tickets\<close>

definition issue_ticket :: "env \<Rightarrow> auth_context \<Rightarrow> auth \<Rightarrow> (string \<times> int) \<times> auth" where
  "issue_ticket e ctx s =
     (let s = drop_expired_tickets e s;
          (ticket, s) = fresh e s;
          entry = \<lparr>tk_session_id = (if cx_external ctx then None else map_option se_id (cx_session ctx)),
                   tk_user_id = u_id (cx_user ctx),
                   tk_expires_at = e_now e + ticket_ttl_ms (e_opts e),
                   tk_external_ctx = (if cx_external ctx then Some ctx else None),
                   tk_api_token_id = ctx_api_token_id ctx\<rparr>
      in ((ticket, ticket_ttl_ms (e_opts e) div 1000),
          s\<lparr>a_tickets := dset (hash_token e ticket) entry (a_tickets s)\<rparr>))"

definition consume_ticket :: "env \<Rightarrow> string option \<Rightarrow> auth \<Rightarrow> auth_context option \<times> auth" where
  "consume_ticket e ticket s =
     (case ticket of
        None \<Rightarrow> (None, s)
      | Some tk \<Rightarrow>
          if tk = [] then (None, s)
          else let entry = dget (a_tickets s) (hash_token e tk);
                   s = s\<lparr>a_tickets := dpop (hash_token e tk) (a_tickets s)\<rparr>
               in case entry of
                 None \<Rightarrow> (None, s)
               | Some t \<Rightarrow>
                   if tk_expires_at t \<le> e_now e then (None, s)
                   else case tk_external_ctx t of
                     Some ctx \<Rightarrow> (Some ctx, s)
                   | None \<Rightarrow>
                       (case tk_api_token_id t of
                          Some i \<Rightarrow>
                            (case ts_get_token i (a_tokens s) of
                               None \<Rightarrow> (None, s)
                             | Some rec \<Rightarrow>
                                 if at_user_id rec \<noteq> tk_user_id t then (None, s)
                                 else (case context_for_api_token e rec s of
                                         Inl _ \<Rightarrow> (None, s) | Inr ctx \<Rightarrow> (Some ctx, s)))
                        | None \<Rightarrow>
                            (case tk_session_id t of
                               None \<Rightarrow> (None, s)
                             | Some i \<Rightarrow>
                                 (case ss_get_session_by_id i (a_sessions s) of
                                    None \<Rightarrow> (None, s)
                                  | Some se \<Rightarrow>
                                      if se_user_id se \<noteq> tk_user_id t then (None, s)
                                      else (case context_for_session e se s of
                                              (Inl _, s) \<Rightarrow> (None, s) | (Inr ctx, s) \<Rightarrow> (Some ctx, s))))))"

section \<open>Sign-in and sign-out\<close>

definition remote_meta :: "session_metadata \<Rightarrow> (string, json) dict" where
  "remote_meta m = [(''remoteAddress'', case sm_remote_address m of None \<Rightarrow> JNull | Some a \<Rightarrow> JStr a)]"

definition login_failed_audit ::
  "env \<Rightarrow> string \<Rightarrow> string \<Rightarrow> session_metadata \<Rightarrow> string option \<Rightarrow> auth \<Rightarrow> auth" where
  "login_failed_audit e shown details metadata user_id s =
     audit e ''login_failed'' shown
       (no_args\<lparr>aa_details := Some details, aa_metadata := Some (remote_meta metadata), aa_user_id := user_id\<rparr>) s"

text \<open>
  Up to the password check: the user is resolved and the attempt is counted before anything is
  verified, without a suspension in between.
\<close>

definition login_start ::
  "env \<Rightarrow> string \<Rightarrow> session_metadata \<Rightarrow> (api_error, user option \<times> string \<times> string, auth) act" where
  "login_start e username metadata s =
     (let user = find_user username s;
          key = lockout_key user username;
          shown = (case user of Some u \<Rightarrow> u_name u | None \<Rightarrow> the (sanitize (Some username) (Some 64)));
          (ok, s) = reserve_attempt e key s
      in if ok then (Inr (user, key, shown), s)
         else (Inl (ApiError 429 ''account locked, try again later''),
               login_failed_audit e shown ''account locked'' metadata (map_option u_id user) s))"

record login_result =
  lr_token :: string
  lr_session :: session
  lr_user :: user
  lr_permissions :: "string list"

definition open_session ::
  "env \<Rightarrow> user \<Rightarrow> session_metadata \<Rightarrow> auth \<Rightarrow> (string \<times> session) \<times> auth" where
  "open_session e u metadata s =
     (let (token, s) = fresh e s;
          (i, s) = fresh e s;
          (se, d) = ss_create_session (e_now e) i (u_id u) (hash_token e token) metadata (u_name u) (a_sessions s);
          s = s\<lparr>a_sessions := d\<rparr>;
          s = audit e ''login'' (u_name u)
                (no_args\<lparr>aa_user_id := Some (u_id u), aa_actor := Some (u_name u), aa_actor_id := Some (u_id u),
                   aa_metadata := Some (dset ''sessionId'' (JStr (se_id se)) (remote_meta metadata))\<rparr>) s;
          s = publish e ''session:opened''
                [(''userId'', Some (u_id u)), (''username'', Some (u_name u)),
                 (''sessionId'', Some (se_id se)), (''actor'', Some (u_name u))]
                (Some ''sessions:read'') None s
      in ((token, se), s))"

text \<open>After the password check, with its result.\<close>

definition login_finish ::
  "env \<Rightarrow> user \<Rightarrow> string \<Rightarrow> string \<Rightarrow> session_metadata \<Rightarrow> bool \<Rightarrow> (api_error, login_result, auth) act" where
  "login_finish e u key shown metadata valid s =
     (if \<not> valid
      then (Inl (unauthorized ''invalid credentials''),
            login_failed_audit e shown ''wrong password'' metadata (Some (u_id u)) s)
      else let s = reset_failures key s
           in if u_disabled u
              then (Inl (forbidden ''account disabled''),
                    login_failed_audit e shown ''account disabled'' metadata (Some (u_id u)) s)
              else (case us_update_user (e_now e) (u_id u) (no_changes\<lparr>uc_last_login_at := Some (e_now e)\<rparr>) (a_users s) of
                      (Inl _, d) \<Rightarrow> (Inl (Uncaught ''KeyError''), s\<lparr>a_users := d\<rparr>)
                    | (Inr u', d) \<Rightarrow>
                        let ((token, se), s) = open_session e u' metadata (s\<lparr>a_users := d\<rparr>)
                        in (Inr \<lparr>lr_token = token, lr_session = se, lr_user = u',
                                 lr_permissions = user_permissions u' s\<rparr>, s)))"

definition login ::
  "env \<Rightarrow> string \<Rightarrow> string \<Rightarrow> session_metadata \<Rightarrow> (api_error, login_result, auth) act" where
  "login e username password metadata =
     andThen (login_start e username metadata) (\<lambda>(user, key, shown).
       case user of
         None \<Rightarrow> (\<lambda>s. (Inl (unauthorized ''invalid credentials''),
                        login_failed_audit e shown ''unknown user'' metadata None s))
       | Some u \<Rightarrow> andThen (update_with (auth_verify_password e (u_id u) password))
                     (\<lambda>valid. login_finish e u key shown metadata valid))"

definition check_password_attempt ::
  "env \<Rightarrow> auth_context \<Rightarrow> user \<Rightarrow> string \<Rightarrow> (api_error, bool, auth) act" where
  "check_password_attempt e ctx target password s =
     (let key = u_id target; (ok, s) = reserve_attempt e key s
      in if \<not> ok then (Inl (ApiError 429 ''account locked, try again later''), s)
         else let (valid, s) = auth_verify_password e (u_id target) password s
              in if valid then (Inr valid, reset_failures key s)
                 else (Inr valid, audit e ''login_failed'' (u_name target)
                   (no_args\<lparr>aa_details := Some ''password verification failed'',
                     aa_actor := Some (u_name (cx_user ctx)), aa_actor_id := Some (u_id (cx_user ctx)),
                     aa_user_id := Some (u_id target)\<rparr>) s))"

definition logout :: "env \<Rightarrow> string \<Rightarrow> auth \<Rightarrow> auth" where
  "logout e token s =
     (let session = ss_get_session (hash_token e token) (a_sessions s);
          s = s\<lparr>a_sessions := ss_delete_session (hash_token e token) (a_sessions s)\<rparr>
      in case session of
           None \<Rightarrow> s
         | Some se \<Rightarrow>
             let s = drop_tickets (se_id se) s;
                 name = (case us_get_user (se_user_id se) (a_users s) of Some u \<Rightarrow> u_name u | None \<Rightarrow> se_user_name se);
                 s = audit e ''logout'' name
                       (no_args\<lparr>aa_user_id := Some (se_user_id se), aa_actor := Some name,
                         aa_actor_id := Some (se_user_id se), aa_metadata := Some [(''sessionId'', JStr (se_id se))]\<rparr>) s
             in publish_session_closed e se (Some name) s)"

section \<open>Seeding\<close>

definition seed_group :: "env \<Rightarrow> string \<Rightarrow> string \<Rightarrow> string list \<Rightarrow> auth \<Rightarrow> auth" where
  "seed_group e name description permissions s =
     (if gs_get_group name (a_groups s) \<noteq> None then s
      else let (i, s) = fresh e s
           in s\<lparr>a_groups := snd (gs_create_group (e_now e) i name (Some description) permissions True (a_groups s))\<rparr>)"

text \<open>\<open>seed\<close>; a generated root password is a random value of the environment.\<close>

definition seed :: "env \<Rightarrow> string option \<Rightarrow> (api_error, unit, auth) act" where
  "seed e default_admin_password s =
     (let s = (if read_only_groups (e_opts e) then s
               else seed_group e USERS_GROUP ''Default group for new accounts'' [''commands:execute'']
                      (seed_group e ADMIN_GROUP ''Administrators'' [''*''] s))
      in if e_external_auth e \<or> read_only_users (e_opts e) then (Inr (), s)
         else if us_get_users (a_users s) \<noteq> [] then (Inr (), s)
         else let generated = (default_admin_password = None);
                  (password, s) = (case default_admin_password of Some p \<Rightarrow> (p, s) | None \<Rightarrow> fresh e s);
                  (i, s) = fresh e s
              in (case us_create_user (e_now e) i ''root'' ''root@localhost'' [ADMIN_GROUP] None False None generated (a_users s) of
                    (Inl _, d) \<Rightarrow> (Inl (Uncaught ''ValueError''), s\<lparr>a_users := d\<rparr>)
                  | (Inr root, d) \<Rightarrow> (Inr (), set_password e (u_id root) password (s\<lparr>a_users := d\<rparr>))))"

end
