(* ===== verification/UsersService.thy ===== *)
theory UsersService
  imports AuthService
begin

text \<open>
  User and group management (\<open>services/users_service.py\<close>): validation, privilege checks, the
  protection of the last administrator, cascades and audit, on the state of the authentication
  service.  A missing caller (\<open>ctx = None\<close>) is host code, which skips the privilege checks.
\<close>

section \<open>Helpers\<close>

definition HOME_DIR_MAX :: nat where "HOME_DIR_MAX = 1024"
definition DESCRIPTION_MAX :: nat where "DESCRIPTION_MAX = 256"
definition LAST_ADMIN :: string where "LAST_ADMIN = ''cannot remove the last admin''"

definition clean :: "string option \<Rightarrow> string" where
  "clean value = (case value of None \<Rightarrow> [] | Some v \<Rightarrow> py_strip v)"

definition actor_args :: "auth_context option \<Rightarrow> audit_args \<Rightarrow> audit_args" where
  "actor_args ctx args =
     (case ctx of None \<Rightarrow> args
      | Some c \<Rightarrow> args\<lparr>aa_actor := Some (u_name (cx_user c)), aa_actor_id := Some (u_id (cx_user c))\<rparr>)"

definition actor_name :: "auth_context option \<Rightarrow> string option" where
  "actor_name ctx = map_option (\<lambda>c. u_name (cx_user c)) ctx"

definition actor_id :: "auth_context option \<Rightarrow> string option" where
  "actor_id ctx = map_option (\<lambda>c. u_id (cx_user c)) ctx"

fun resolve_groups_loop :: "auth \<Rightarrow> string list \<Rightarrow> string list \<Rightarrow> api_error + string list" where
  "resolve_groups_loop s out [] = Inr out"
| "resolve_groups_loop s out (raw # rest) =
     (let name = py_strip raw
      in if name = [] then resolve_groups_loop s out rest
         else (case (if length name \<le> NAME_MAX then gs_get_group name (a_groups s) else None) of
                 None \<Rightarrow> Inl (bad_request (''unknown group: '' @ take NAME_MAX name))
               | Some g \<Rightarrow>
                   if \<exists>x \<in> set out. py_lower x = py_lower (g_name g) then resolve_groups_loop s out rest
                   else resolve_groups_loop s (out @ [g_name g]) rest))"

definition resolve_groups :: "string list \<Rightarrow> auth \<Rightarrow> api_error + string list" where
  "resolve_groups names s = resolve_groups_loop s [] names"

fun ensure_unique_loop :: "string option \<Rightarrow> string option \<Rightarrow> string option \<Rightarrow> user list \<Rightarrow> api_error + unit" where
  "ensure_unique_loop name email exclude_id [] = Inr ()"
| "ensure_unique_loop name email exclude_id (u # us) =
     (if Some (u_id u) = exclude_id then ensure_unique_loop name email exclude_id us
      else let taken = {py_lower (u_name u), py_lower (u_email u)}
           in if name \<noteq> None \<and> py_lower (the name) \<in> taken
              then Inl (conflict (''user already exists: '' @ the name))
              else if email \<noteq> None \<and> py_lower (the email) \<in> taken
              then Inl (conflict (''email already in use: '' @ the email))
              else ensure_unique_loop name email exclude_id us)"

definition ensure_unique :: "string option \<Rightarrow> string option \<Rightarrow> string option \<Rightarrow> auth \<Rightarrow> api_error + unit" where
  "ensure_unique name email exclude_id s = ensure_unique_loop name email exclude_id (us_get_users (a_users s))"

definition user_event :: "env \<Rightarrow> string \<Rightarrow> user \<Rightarrow> auth_context option \<Rightarrow> auth \<Rightarrow> auth" where
  "user_event e event_type u ctx s =
     publish e event_type
       [(''userId'', Some (u_id u)), (''username'', Some (u_name u)), (''actor'', actor_name ctx)]
       (Some ''users:read'') None s"

definition group_event :: "env \<Rightarrow> string \<Rightarrow> string \<Rightarrow> auth_context option \<Rightarrow> auth \<Rightarrow> auth" where
  "group_event e event_type gname ctx s =
     publish e event_type [(''group'', Some gname), (''actor'', actor_name ctx)] (Some ''groups:read'') None s"

definition is_built_in :: "group \<Rightarrow> bool" where
  "is_built_in g = (g_built_in g \<or> py_lower (g_name g) \<in> {ADMIN_GROUP, USERS_GROUP})"

text \<open>Store calls: \<open>ValueError\<close> is turned into a conflict where the source does so; anything else escapes.\<close>

definition create_user_in_store ::
  "env \<Rightarrow> string \<Rightarrow> string \<Rightarrow> string list \<Rightarrow> (string, json) dict option \<Rightarrow> bool \<Rightarrow> string option
     \<Rightarrow> (api_error, user, auth) act" where
  "create_user_in_store e name email groups data disabled home_dir s =
     (let (i, s) = fresh e s
      in case us_create_user (e_now e) i name email groups data disabled home_dir False (a_users s) of
           (Inl (ValueError m), d) \<Rightarrow> (Inl (conflict m), s\<lparr>a_users := d\<rparr>)
         | (Inl (KeyError m), d) \<Rightarrow> (Inl (Uncaught m), s\<lparr>a_users := d\<rparr>)
         | (Inr u, d) \<Rightarrow> (Inr u, s\<lparr>a_users := d\<rparr>))"

definition update_user_in_store ::
  "env \<Rightarrow> api_error \<Rightarrow> string \<Rightarrow> user_changes \<Rightarrow> (api_error, user, auth) act" where
  "update_user_in_store e on_key_error user_id c s =
     (case us_update_user (e_now e) user_id c (a_users s) of
        (Inl _, d) \<Rightarrow> (Inl on_key_error, s\<lparr>a_users := d\<rparr>)
      | (Inr u, d) \<Rightarrow> (Inr u, s\<lparr>a_users := d\<rparr>))"

section \<open>Users\<close>

definition list_users :: "string option \<Rightarrow> nat \<Rightarrow> nat option \<Rightarrow> auth \<Rightarrow> user list" where
  "list_users query skip tk s =
     (let users = us_get_users (a_users s);
          q = py_lower (clean query);
          users = (if q = [] then users
                   else filter (\<lambda>u. py_contains q (py_lower (u_name u)) \<or> py_contains q (py_lower (u_email u))) users);
          users = drop skip users
      in case tk of None \<Rightarrow> users | Some n \<Rightarrow> take n users)"

definition check_password_policy :: "env \<Rightarrow> string option \<Rightarrow> api_error + unit" where
  "check_password_policy e password =
     (case validate_password_policy e password of None \<Rightarrow> Inr () | Some m \<Rightarrow> Inl (bad_request m))"

definition create_user ::
  "env \<Rightarrow> auth_context option \<Rightarrow> string \<Rightarrow> string \<Rightarrow> string list option \<Rightarrow> string option \<Rightarrow> bool option
     \<Rightarrow> string option \<Rightarrow> (string, json) dict option \<Rightarrow> (api_error, user, auth) act" where
  "create_user e ctx name email groups password disabled home_dir data =
     andThen (lift (validate_name (clean (Some name)) ''name'')) (\<lambda>name.
     andThen (lift (validate_email (clean (Some email)))) (\<lambda>email.
     andThen (lift (validate_text home_dir ''homeDir'' HOME_DIR_MAX)) (\<lambda>_.
     andThen (lift (validate_data data)) (\<lambda>_.
     andThen (if password \<noteq> None then lift (check_password_policy e password) else ret ()) (\<lambda>_.
     andThen (reads_err (resolve_groups (case groups of None \<Rightarrow> [] | Some g \<Rightarrow> g))) (\<lambda>resolved.
     andThen (if resolved \<noteq> [] \<and> ctx \<noteq> None then reads_err (ensure_can_grant_groups (the ctx) resolved)
              else ret ()) (\<lambda>_.
     andThen (if resolved = [] then reads_err (resolve_groups [USERS_GROUP]) else ret resolved) (\<lambda>resolved.
     andThen (reads_err (ensure_unique (Some name) (Some email) None)) (\<lambda>_.
     andThen (create_user_in_store e name email resolved data (disabled = Some True) home_dir) (\<lambda>user.
     andThen (modify (\<lambda>s. case password of None \<Rightarrow> s | Some p \<Rightarrow> set_password e (u_id user) p s)) (\<lambda>_.
     andThen (modify (audit e ''user_created'' (u_name user)
                (actor_args ctx (no_args\<lparr>aa_user_id := Some (u_id user)\<rparr>)))) (\<lambda>_.
     andThen (modify (user_event e ''user:created'' user ctx)) (\<lambda>_.
     ret user)))))))))))))"

definition update_user ::
  "env \<Rightarrow> auth_context option \<Rightarrow> user \<Rightarrow> string option \<Rightarrow> string option \<Rightarrow> string list option \<Rightarrow> bool option
     \<Rightarrow> string option \<Rightarrow> (string, json) dict option \<Rightarrow> (api_error, user, auth) act" where
  "update_user e ctx target name email groups disabled home_dir data =
     andThen (case name of None \<Rightarrow> ret None
              | Some n \<Rightarrow> andThen (lift (validate_name (clean (Some n)) ''name''))
                  (\<lambda>n. ret (if n = u_name target then None else Some n))) (\<lambda>name.
     andThen (case email of None \<Rightarrow> ret None
              | Some m \<Rightarrow> andThen (lift (validate_email (clean (Some m))))
                  (\<lambda>m. ret (if m = u_email target then None else Some m))) (\<lambda>email.
     andThen (lift (validate_text home_dir ''homeDir'' HOME_DIR_MAX)) (\<lambda>_.
     andThen (lift (validate_data data)) (\<lambda>_.
     andThen (case groups of None \<Rightarrow> ret None
              | Some g \<Rightarrow> andThen (reads_err (resolve_groups g)) (\<lambda>r. ret (Some r))) (\<lambda>resolved.
     andThen (case ctx of None \<Rightarrow> ret ()
              | Some c \<Rightarrow> andThen (reads_err (ensure_covers_user c target)) (\<lambda>_.
                  case resolved of None \<Rightarrow> ret ()
                  | Some r \<Rightarrow> let added = filter (\<lambda>g. \<not> in_group target g) r
                              in if added \<noteq> [] then reads_err (ensure_can_grant_groups c added) else ret ())) (\<lambda>_.
     andThen (reads_err (ensure_unique name email (Some (u_id target)))) (\<lambda>_.
     andThen (reads_err (\<lambda>s.
                let removes_admin = (resolved \<noteq> None \<and> \<not> (\<exists>g \<in> set (the resolved). py_lower g = ADMIN_GROUP))
                in if (removes_admin \<or> disabled = Some True) \<and> is_last_enabled_admin target s
                   then Inl (conflict LAST_ADMIN) else Inr ())) (\<lambda>_.
     andThen (update_user_in_store e (not_found (''user not found: '' @ u_name target)) (u_id target)
                (no_changes\<lparr>uc_name := name, uc_email := email, uc_groups := resolved,
                  uc_disabled := disabled, uc_home_dir := home_dir, uc_data := data\<rparr>)) (\<lambda>user.
     andThen (modify (audit e ''user_updated'' (u_name user)
                (actor_args ctx (no_args\<lparr>aa_user_id := Some (u_id user)\<rparr>)))) (\<lambda>_.
     andThen (modify (\<lambda>s.
                if disabled \<noteq> None \<and> the disabled \<noteq> u_disabled target then
                  if the disabled then
                    snd (revoke_user_sessions e (u_id user) ''user_disabled'' (actor_name ctx) (actor_id ctx) None
                      (audit e ''user_disabled'' (u_name user)
                        (actor_args ctx (no_args\<lparr>aa_user_id := Some (u_id user)\<rparr>)) s))
                  else audit e ''user_enabled'' (u_name user)
                         (actor_args ctx (no_args\<lparr>aa_user_id := Some (u_id user)\<rparr>)) s
                else s)) (\<lambda>_.
     andThen (modify (user_event e ''user:updated'' user ctx)) (\<lambda>_.
     ret user))))))))))))"

definition delete_user :: "env \<Rightarrow> auth_context option \<Rightarrow> user \<Rightarrow> (api_error, unit, auth) act" where
  "delete_user e ctx target =
     andThen (guard (\<not> (ctx \<noteq> None \<and> ctx_is_self (the ctx) target)) (conflict ''cannot delete yourself'')) (\<lambda>_.
     andThen (case ctx of None \<Rightarrow> ret () | Some c \<Rightarrow> reads_err (ensure_covers_user c target)) (\<lambda>_.
     andThen (reads_err (\<lambda>s. if is_last_enabled_admin target s then Inl (conflict LAST_ADMIN) else Inr ())) (\<lambda>_.
     andThen (modify (\<lambda>s. s\<lparr>a_users := us_delete_user (u_id target) (a_users s)\<rparr>)) (\<lambda>_.
     andThen (modify (\<lambda>s. s\<lparr>a_credentials := cs_delete_credentials (u_id target) (a_credentials s)\<rparr>)) (\<lambda>_.
     andThen (modify (reset_failures (u_id target))) (\<lambda>_.
     andThen (modify (\<lambda>s. snd (revoke_user_sessions e (u_id target) ''user_deleted'' (actor_name ctx) (actor_id ctx) None s))) (\<lambda>_.
     andThen (modify (\<lambda>s. s\<lparr>a_tokens := ts_delete_user_tokens (u_id target) (a_tokens s)\<rparr>)) (\<lambda>_.
     andThen (modify notify_change) (\<lambda>_.
     andThen (modify (audit e ''user_deleted'' (u_name target)
                (actor_args ctx (no_args\<lparr>aa_user_id := Some (u_id target)\<rparr>)))) (\<lambda>_.
     modify (user_event e ''user:deleted'' target ctx)))))))))))"

text \<open>The caller's context is returned with its own \<open>must_change_password\<close> as the source leaves it.\<close>

definition change_password ::
  "env \<Rightarrow> auth_context \<Rightarrow> user \<Rightarrow> string \<Rightarrow> bool option \<Rightarrow> (api_error, auth_context, auth) act" where
  "change_password e ctx target password temporary =
     andThen (lift (check_password_policy e (Some password))) (\<lambda>_.
     andThen (if ctx_is_self ctx target then ret () else reads_err (ensure_covers_user ctx target)) (\<lambda>_.
     andThen (modify (set_password e (u_id target) password)) (\<lambda>_.
     andThen (if ctx_is_self ctx target then
                andThen (if u_must_change_password target
                         then andThen (update_user_in_store e (Uncaught ''KeyError'') (u_id target)
                                (no_changes\<lparr>uc_must_change_password := Some False\<rparr>))
                              (\<lambda>_. ret (ctx\<lparr>cx_user := (cx_user ctx)\<lparr>u_must_change_password := False\<rparr>\<rparr>))
                         else ret ctx) (\<lambda>ctx.
                andThen (modify (audit e ''password_changed'' (u_name target)
                  (actor_args (Some ctx) (no_args\<lparr>aa_user_id := Some (u_id target)\<rparr>)))) (\<lambda>_.
                andThen (modify (\<lambda>s. snd (revoke_user_sessions e (u_id target) ''password_changed''
                  (actor_name (Some ctx)) (actor_id (Some ctx)) (map_option se_id (cx_session ctx)) s))) (\<lambda>_.
                ret ctx)))
              else
                andThen (modify (reset_failures (u_id target))) (\<lambda>_.
                andThen (update_user_in_store e (Uncaught ''KeyError'') (u_id target)
                  (no_changes\<lparr>uc_must_change_password := Some (temporary \<noteq> Some False)\<rparr>)) (\<lambda>_.
                andThen (modify (audit e ''password_changed'' (u_name target)
                  (actor_args (Some ctx) (no_args\<lparr>aa_user_id := Some (u_id target)\<rparr>)))) (\<lambda>_.
                andThen (modify (\<lambda>s. snd (revoke_user_sessions e (u_id target) ''password_changed''
                  (actor_name (Some ctx)) (actor_id (Some ctx)) None s))) (\<lambda>_.
                ret ctx))))) (\<lambda>ctx.
     andThen (modify (user_event e ''user:updated'' target (Some ctx))) (\<lambda>_.
     ret ctx)))))"

section \<open>Groups\<close>

definition group_members :: "group \<Rightarrow> auth \<Rightarrow> user list" where
  "group_members g s = filter (\<lambda>u. in_group u (g_name g)) (us_get_users (a_users s))"

definition group_audit_args :: "auth_context option \<Rightarrow> string \<Rightarrow> audit_args" where
  "group_audit_args ctx gname =
     actor_args ctx (no_args\<lparr>aa_details := Some gname, aa_target := Some (''group:'' @ gname)\<rparr>)"

definition ctx_name :: "auth_context option \<Rightarrow> string" where
  "ctx_name ctx = (case ctx of None \<Rightarrow> [] | Some c \<Rightarrow> u_name (cx_user c))"

definition create_group ::
  "env \<Rightarrow> auth_context option \<Rightarrow> string \<Rightarrow> string option \<Rightarrow> string list option \<Rightarrow> (api_error, group, auth) act" where
  "create_group e ctx name description permissions =
     andThen (lift (validate_name (clean (Some name)) ''name'')) (\<lambda>name.
     andThen (lift (validate_text description ''description'' DESCRIPTION_MAX)) (\<lambda>_.
     andThen (lift (validate_permissions permissions)) (\<lambda>perms.
     andThen (ret (case perms of None \<Rightarrow> [] | Some p \<Rightarrow> p)) (\<lambda>perms.
     andThen (case ctx of None \<Rightarrow> ret () | Some c \<Rightarrow> lift (ensure_can_grant_permissions c perms)) (\<lambda>_.
     andThen (reads_err (\<lambda>s. if gs_get_group name (a_groups s) \<noteq> None
                then Inl (conflict (''group already exists: '' @ name)) else Inr ())) (\<lambda>_.
     andThen (\<lambda>s. let (i, s) = fresh e s
                in case gs_create_group (e_now e) i name description perms False (a_groups s) of
                     (Inl _, d) \<Rightarrow> (Inl (conflict (''group already exists: '' @ name)), s\<lparr>a_groups := d\<rparr>)
                   | (Inr g, d) \<Rightarrow> (Inr g, s\<lparr>a_groups := d\<rparr>)) (\<lambda>g.
     andThen (modify (audit e ''group_created'' (ctx_name ctx) (group_audit_args ctx (g_name g)))) (\<lambda>_.
     andThen (modify (group_event e ''group:created'' (g_name g) ctx)) (\<lambda>_.
     ret g)))))))))"

definition update_group ::
  "env \<Rightarrow> auth_context option \<Rightarrow> group \<Rightarrow> string option \<Rightarrow> string list option \<Rightarrow> (api_error, group, auth) act" where
  "update_group e ctx g description permissions =
     andThen (lift (validate_text description ''description'' DESCRIPTION_MAX)) (\<lambda>_.
     andThen (lift (validate_permissions permissions)) (\<lambda>perms.
     andThen (guard (\<not> (perms \<noteq> None \<and> py_lower (g_name g) = ADMIN_GROUP))
                (conflict ''cannot change the permissions of the admin group'')) (\<lambda>_.
     andThen (if perms \<noteq> None \<and> ctx \<noteq> None
              then lift (ensure_can_grant_permissions (the ctx) (the perms)) else ret ()) (\<lambda>_.
     andThen (\<lambda>s. case gs_update_group (e_now e) (g_name g) description perms (a_groups s) of
                (Inl _, d) \<Rightarrow> (Inl (not_found (''group not found: '' @ g_name g)), s\<lparr>a_groups := d\<rparr>)
              | (Inr g', d) \<Rightarrow> (Inr g', s\<lparr>a_groups := d\<rparr>)) (\<lambda>updated.
     andThen (modify (audit e ''group_updated'' (ctx_name ctx) (group_audit_args ctx (g_name updated)))) (\<lambda>_.
     andThen (modify (group_event e ''group:updated'' (g_name updated) ctx)) (\<lambda>_.
     ret updated)))))))"

definition without_group :: "string \<Rightarrow> user \<Rightarrow> string list" where
  "without_group gname u = filter (\<lambda>g. py_lower g \<noteq> py_lower gname) (u_groups u)"

fun drop_membership :: "env \<Rightarrow> string \<Rightarrow> user list \<Rightarrow> (api_error, unit, auth) act" where
  "drop_membership e gname [] = ret ()"
| "drop_membership e gname (u # us) =
     andThen (update_user_in_store e (Uncaught ''KeyError'') (u_id u)
                (no_changes\<lparr>uc_groups := Some (without_group gname u)\<rparr>)) (\<lambda>_. drop_membership e gname us)"

definition delete_group :: "env \<Rightarrow> auth_context option \<Rightarrow> group \<Rightarrow> (api_error, unit, auth) act" where
  "delete_group e ctx g =
     andThen (guard (\<not> is_built_in g) (conflict (''cannot delete built-in group: '' @ g_name g))) (\<lambda>_.
     andThen (reads (\<lambda>s. if read_only_users (e_opts e) then [] else group_members g s)) (\<lambda>members.
     andThen (drop_membership e (g_name g) members) (\<lambda>_.
     andThen (modify (\<lambda>s. s\<lparr>a_groups := gs_delete_group (g_name g) (a_groups s)\<rparr>)) (\<lambda>_.
     andThen (modify (audit e ''group_deleted'' (ctx_name ctx) (group_audit_args ctx (g_name g)))) (\<lambda>_.
     andThen (modify (group_event e ''group:deleted'' (g_name g) ctx)) (\<lambda>_.
     modify (fold (\<lambda>u. user_event e ''user:updated'' u ctx) members)))))))"

definition add_member :: "env \<Rightarrow> auth_context option \<Rightarrow> group \<Rightarrow> user \<Rightarrow> (api_error, unit, auth) act" where
  "add_member e ctx g u =
     andThen (case ctx of None \<Rightarrow> ret ()
              | Some c \<Rightarrow> andThen (reads_err (ensure_covers_user c u))
                            (\<lambda>_. reads_err (ensure_can_grant_groups c [g_name g]))) (\<lambda>_.
     if in_group u (g_name g) then ret ()
     else
       andThen (update_user_in_store e (Uncaught ''KeyError'') (u_id u)
                  (no_changes\<lparr>uc_groups := Some (u_groups u @ [g_name g])\<rparr>)) (\<lambda>_.
       andThen (modify (audit e ''group_member_added'' (u_name u)
                  ((group_audit_args ctx (g_name g))\<lparr>aa_user_id := Some (u_id u)\<rparr>))) (\<lambda>_.
       modify (user_event e ''user:updated'' u ctx))))"

definition remove_member :: "env \<Rightarrow> auth_context option \<Rightarrow> group \<Rightarrow> user \<Rightarrow> (api_error, unit, auth) act" where
  "remove_member e ctx g u =
     andThen (case ctx of None \<Rightarrow> ret () | Some c \<Rightarrow> reads_err (ensure_covers_user c u)) (\<lambda>_.
     if \<not> in_group u (g_name g) then ret ()
     else
       andThen (reads_err (\<lambda>s. if py_lower (g_name g) = ADMIN_GROUP \<and> is_last_enabled_admin u s
                  then Inl (conflict LAST_ADMIN) else Inr ())) (\<lambda>_.
       andThen (update_user_in_store e (Uncaught ''KeyError'') (u_id u)
                  (no_changes\<lparr>uc_groups := Some (without_group (g_name g) u)\<rparr>)) (\<lambda>_.
       andThen (modify (audit e ''group_member_removed'' (u_name u)
                  ((group_audit_args ctx (g_name g))\<lparr>aa_user_id := Some (u_id u)\<rparr>))) (\<lambda>_.
       modify (user_event e ''user:updated'' u ctx)))))"

end
