(* ===== verification/Throttling.thy ===== *)
theory Throttling
  imports AuthService
begin

text \<open>
  The two throttles of the authentication service, account lockout (\<open>reserve_attempt\<close>) and the rate
  limit per address (\<open>check_rate_limit\<close>), over sequences of attempts.  Both keep one cell per key in a
  table of bounded size; the locale says that an attempt on a key works on that key's cell alone as
  long as nothing is evicted, and reduces a run over many keys to the run of one cell.
\<close>

section \<open>Runs of a table and of a cell\<close>

fun admitted ::
  "(int \<Rightarrow> string \<Rightarrow> (string, 'v) dict \<Rightarrow> bool \<times> (string, 'v) dict) \<Rightarrow> string \<Rightarrow> (int \<times> string) list
     \<Rightarrow> (string, 'v) dict \<Rightarrow> int list" where
  "admitted op k [] d = []"
| "admitted op k ((t, k') # rs) d =
     (let (ok, d') = op t k' d in (if ok \<and> k' = k then [t] else []) @ admitted op k rs d')"

fun cell_run :: "(int \<Rightarrow> 'v option \<Rightarrow> bool \<times> 'v option) \<Rightarrow> int list \<Rightarrow> 'v option \<Rightarrow> int list" where
  "cell_run cell [] v = []"
| "cell_run cell (t # ts) v =
     (let (ok, v') = cell t v in (if ok then [t] else []) @ cell_run cell ts v')"

definition times_of :: "string \<Rightarrow> (int \<times> string) list \<Rightarrow> int list" where
  "times_of k rs = map fst (filter (\<lambda>r. snd r = k) rs)"

definition dkeyset :: "('k, 'v) dict \<Rightarrow> 'k set" where
  "dkeyset d = fst ` set d"

lemma finite_dkeyset [simp]: "finite (dkeyset d)"
  by (simp add: dkeyset_def)

definition keys_of :: "(string, 'v) dict \<Rightarrow> (int \<times> string) list \<Rightarrow> string set" where
  "keys_of d rs = dkeyset d \<union> snd ` set rs"

lemma times_of_simps [simp]:
  "times_of k [] = []"
  "times_of k ((t, k') # rs) = (if k' = k then [t] else []) @ times_of k rs"
  by (simp_all add: times_of_def)

lemma set_times_of: "t \<in> set (times_of k rs) \<Longrightarrow> \<exists>r \<in> set rs. fst r = t"
  by (auto simp: times_of_def)

locale throttle_table =
  fixes op :: "int \<Rightarrow> string \<Rightarrow> (string, 'v) dict \<Rightarrow> bool \<times> (string, 'v) dict"
    and cell :: "int \<Rightarrow> 'v option \<Rightarrow> bool \<times> 'v option"
  assumes op_ok: "dict_ok d \<Longrightarrow> op t k d = (ok, d') \<Longrightarrow> dict_ok d'"
    and op_keys: "op t k d = (ok, d') \<Longrightarrow> dkeyset d' \<subseteq> insert k (dkeyset d)"
    and op_cell:
      "dict_ok d \<Longrightarrow> card (insert k (dkeyset d)) \<le> MAX_TRACKED_KEYS \<Longrightarrow> op t k d = (ok, d')
       \<Longrightarrow> cell t (dget d k) = (ok, dget d' k)"
    and op_other:
      "dict_ok d \<Longrightarrow> card (insert k (dkeyset d)) \<le> MAX_TRACKED_KEYS \<Longrightarrow> op t k d = (ok, d')
       \<Longrightarrow> k' \<noteq> k \<Longrightarrow> dget d' k' = dget d k'"
begin

lemma keys_step:
  assumes "op t k' d = (ok, d')"
  shows "keys_of d' rs \<subseteq> keys_of d ((t, k') # rs)" "insert k' (dkeyset d) \<subseteq> keys_of d ((t, k') # rs)"
  using op_keys [OF assms] by (auto simp: keys_of_def)

lemma run_project:
  "dict_ok d \<Longrightarrow> card (keys_of d rs) \<le> MAX_TRACKED_KEYS
   \<Longrightarrow> admitted op k rs d = cell_run cell (times_of k rs) (dget d k)"
proof (induction rs arbitrary: d)
  case (Cons r rs)
  obtain t k' where r: "r = (t, k')" by (cases r)
  obtain ok d' where o: "op t k' d = (ok, d')" by (cases "op t k' d")
  have fin: "finite (keys_of d (r # rs))" by (simp add: keys_of_def)
  have few: "card (insert k' (dkeyset d)) \<le> MAX_TRACKED_KEYS" "card (keys_of d' rs) \<le> MAX_TRACKED_KEYS"
    using card_mono [OF fin, of "insert k' (dkeyset d)"] card_mono [OF fin, of "keys_of d' rs"]
      keys_step [OF o, of rs] Cons.prems(2) unfolding r by linarith+
  have IH: "admitted op k rs d' = cell_run cell (times_of k rs) (dget d' k)"
    by (rule Cons.IH [OF op_ok [OF Cons.prems(1) o] few(2)])
  show ?case
    using op_cell [OF Cons.prems(1) few(1) o] op_other [OF Cons.prems(1) few(1) o, of k] IH
    using o by (cases "k' = k") (simp_all add: r)
qed simp

end

section \<open>Lockout\<close>

definition lockout_cell :: "auth_options \<Rightarrow> int \<Rightarrow> lockout_state option \<Rightarrow> bool \<times> lockout_state option" where
  "lockout_cell opts now v =
     (let v = (case v of None \<Rightarrow> None
               | Some st \<Rightarrow> if lo_locked_until st \<noteq> 0 \<and> lo_locked_until st \<le> now then None else Some st);
          failures = (case v of None \<Rightarrow> 0 | Some st \<Rightarrow> lo_failures st)
      in if (case v of None \<Rightarrow> False | Some st \<Rightarrow> lo_locked_until st \<noteq> 0) then (False, v)
         else if failures + 1 \<ge> max_login_attempts opts
         then (True, Some \<lparr>lo_failures = 0, lo_locked_until = now + lockout_ms opts\<rparr>)
         else (True, Some \<lparr>lo_failures = failures + 1, lo_locked_until = 0\<rparr>))"

lemma evict_oldest_id: "length d \<le> MAX_TRACKED_KEYS \<Longrightarrow> evict_oldest d = d"
  by (simp add: evict_oldest_def)

lemma evict_oldest_subset: "set (evict_oldest d) \<subseteq> set d"
  by (simp add: evict_oldest_def set_drop_subset)

lemma dict_ok_evict [simp]: "dict_ok d \<Longrightarrow> dict_ok (evict_oldest d)"
  by (simp add: dict_ok_def evict_oldest_def drop_map [symmetric])

lemma dict_length: "dict_ok d \<Longrightarrow> length d = card (dkeyset d)"
  by (metis dict_ok_def dkeyset_def distinct_card length_map set_map)

lemma dom_dset: "dkeyset (dset k v d) = insert k (dkeyset d)"
  by (simp add: dom_update dkeyset_def)

lemma evict_dset_id:
  assumes "dict_ok d" and "card (insert k (dkeyset d)) \<le> MAX_TRACKED_KEYS"
  shows "evict_oldest (dset k v d) = dset k v d"
  by (rule evict_oldest_id) (use assms in \<open>simp add: dict_length dom_dset\<close>)

lemma dom_evict: "dkeyset (evict_oldest d) \<subseteq> dkeyset d"
  unfolding dkeyset_def by (intro image_mono evict_oldest_subset)

lemma dom_dpop: "dkeyset (dpop k d) = dkeyset d - {k}"
  by (force simp: set_dpop dkeyset_def)

lemmas lockout_ops = reserve_def is_locked_def lockout_get_or_create_def Let_def

lemma reserve_dict_ok: "dict_ok d \<Longrightarrow> reserve opts now k d = (ok, d') \<Longrightarrow> dict_ok d'"
  by (auto simp: lockout_ops split: option.splits if_splits)

lemma reserve_keys:
  assumes "reserve opts now k d = (ok, d')"
  shows "dkeyset d' \<subseteq> insert k (dkeyset d)"
proof -
  have ev: "dkeyset (evict_oldest (dset k st d0)) \<subseteq> insert k (dkeyset d0)" for st d0
    using dom_evict [of "dset k st d0"] by (simp add: dom_dset)
  show ?thesis
    using assms ev [of "\<lparr>lo_failures = 0, lo_locked_until = 0\<rparr>" d]
      ev [of "\<lparr>lo_failures = 0, lo_locked_until = 0\<rparr>" "dpop k d"]
    by (auto simp: lockout_ops dom_dset dom_dpop dget_dpop split: option.splits if_splits)
qed

lemma reserve_cell:
  assumes ok: "dict_ok d" and few: "card (insert k (dkeyset d)) \<le> MAX_TRACKED_KEYS"
    and r: "reserve opts now k d = (ok', d')"
  shows "lockout_cell opts now (dget d k) = (ok', dget d' k)" "k' \<noteq> k \<Longrightarrow> dget d' k' = dget d k'"
proof -
  have few': "card (insert k (dkeyset (dpop k d))) \<le> MAX_TRACKED_KEYS"
    using few by (simp add: dom_dpop)
  note ev = evict_dset_id [OF ok few] evict_dset_id [OF dict_ok_dpop [OF ok] few']
  show "lockout_cell opts now (dget d k) = (ok', dget d' k)"
    using r by (auto simp: lockout_cell_def lockout_ops ev dget_dset dget_dpop split: option.splits if_splits)
  show "k' \<noteq> k \<Longrightarrow> dget d' k' = dget d k'"
    using r by (auto simp: lockout_ops ev dget_dset dget_dpop split: option.splits if_splits)
qed

interpretation lockout: throttle_table "reserve opts" "lockout_cell opts" for opts
  by unfold_locales (fact reserve_dict_ok reserve_keys reserve_cell)+

text \<open>How many attempts a cell can still admit before time \<open>T\<close>.\<close>

definition max_attempts :: "auth_options \<Rightarrow> nat" where
  "max_attempts opts = nat (max 1 (max_login_attempts opts))"

definition lockout_budget :: "auth_options \<Rightarrow> int \<Rightarrow> lockout_state option \<Rightarrow> nat" where
  "lockout_budget opts T v =
     (case v of None \<Rightarrow> max_attempts opts
      | Some st \<Rightarrow> if lo_locked_until st = 0 then max_attempts opts - nat (lo_failures st)
                   else if lo_locked_until st < T then max_attempts opts else 0)"

definition cell_ok :: "auth_options \<Rightarrow> lockout_state option \<Rightarrow> bool" where
  "cell_ok opts v =
     (case v of None \<Rightarrow> True
      | Some st \<Rightarrow> 0 \<le> lo_failures st \<and> lo_failures st < max 1 (max_login_attempts opts)
                   \<and> (lo_locked_until st \<noteq> 0 \<longrightarrow> lo_failures st = 0))"

lemma lockout_cell_ok: "cell_ok opts v \<Longrightarrow> lockout_cell opts t v = (ok, v') \<Longrightarrow> cell_ok opts v'"
  by (auto simp: lockout_cell_def cell_ok_def Let_def split: option.splits if_splits)

lemma lockout_cell_budget:
  assumes "cell_ok opts v" and "lockout_cell opts t v = (ok, v')"
    and "T \<le> t + lockout_ms opts" "t < T" "0 < t + lockout_ms opts"
  shows "(if ok then 1 else 0) + lockout_budget opts T v' \<le> lockout_budget opts T v"
  using assms
  by (auto simp: lockout_cell_def cell_ok_def lockout_budget_def max_attempts_def Let_def
      split: option.splits if_splits)

lemma lockout_run_budget:
  "cell_ok opts v \<Longrightarrow> \<forall>t \<in> set ts. T \<le> t + lockout_ms opts \<and> t < T \<and> 0 < t + lockout_ms opts
   \<Longrightarrow> length (cell_run (lockout_cell opts) ts v) \<le> lockout_budget opts T v"
proof (induction ts arbitrary: v)
  case (Cons t ts)
  obtain ok v' where c: "lockout_cell opts t v = (ok, v')" by (cases "lockout_cell opts t v")
  have "length (cell_run (lockout_cell opts) ts v') \<le> lockout_budget opts T v'"
    using Cons.IH [OF lockout_cell_ok [OF Cons.prems(1) c]] Cons.prems(2) by simp
  moreover have "(if ok then 1 else 0) + lockout_budget opts T v' \<le> lockout_budget opts T v"
    using lockout_cell_budget [OF Cons.prems(1) c] Cons.prems(2) by simp
  ultimately show ?case by (cases ok) (simp_all add: c)
qed simp

lemma lockout_budget_max: "lockout_budget opts T v \<le> max_attempts opts"
  by (simp add: lockout_budget_def split: option.splits)

text \<open>The table changes by attempts and by resets after a correct password.\<close>

inductive lockout_step ::
  "auth_options \<Rightarrow> (string, lockout_state) dict \<Rightarrow> (string, lockout_state) dict \<Rightarrow> bool" for opts where
  step_reserve: "reserve opts now k d = (ok, d') \<Longrightarrow> lockout_step opts d d'"
| step_reset: "lockout_step opts d (dpop k d)"

definition lockouts_ok :: "auth_options \<Rightarrow> (string, lockout_state) dict \<Rightarrow> bool" where
  "lockouts_ok opts d \<longleftrightarrow> dict_ok d \<and> (\<forall>p \<in> set d. cell_ok opts (Some (snd p)))"

lemma lockouts_ok_dset:
  "lockouts_ok opts d \<Longrightarrow> cell_ok opts (Some st) \<Longrightarrow> lockouts_ok opts (dset k st d)"
  by (simp add: lockouts_ok_def set_dset)

lemma lockouts_ok_dpop: "lockouts_ok opts d \<Longrightarrow> lockouts_ok opts (dpop k d)"
  by (simp add: lockouts_ok_def set_dpop)

lemma lockouts_ok_evict: "lockouts_ok opts d \<Longrightarrow> lockouts_ok opts (evict_oldest d)"
  using evict_oldest_subset [of d] by (auto simp: lockouts_ok_def)

lemma lockouts_ok_get: "lockouts_ok opts d \<Longrightarrow> cell_ok opts (dget d k)"
  by (cases "dget d k") (auto simp: lockouts_ok_def cell_ok_def dest!: dget_mem)

lemma cell_ok_fresh: "cell_ok opts (Some \<lparr>lo_failures = 0, lo_locked_until = t\<rparr>)"
  by (simp add: cell_ok_def)

lemma lockouts_ok_reserve:
  assumes "lockouts_ok opts d" and "reserve opts now k d = (ok, d')"
  shows "lockouts_ok opts d'"
  using assms lockouts_ok_get [OF assms(1), of k]
  by (auto simp: lockout_ops dget_dpop cell_ok_fresh cell_ok_def
      intro!: lockouts_ok_dset lockouts_ok_evict lockouts_ok_dpop split: option.splits if_splits)

interpretation lockouts: invariant_system "\<lambda>d. d = []" "lockout_step opts" "lockouts_ok opts" for opts
proof
  show "lockouts_ok opts s" if "s = []" for s using that by (simp add: lockouts_ok_def)
  show "lockouts_ok opts t" if "lockouts_ok opts s" "lockout_step opts s t" for s t
    using that(2,1) by cases (auto intro: lockouts_ok_reserve lockouts_ok_dpop)
qed

text \<open>A cell that is free, or locked until \<open>T\<close> at least, admits exactly its budget.\<close>

definition settled :: "int \<Rightarrow> lockout_state option \<Rightarrow> bool" where
  "settled T v = (case v of None \<Rightarrow> True | Some st \<Rightarrow> lo_locked_until st = 0 \<or> T \<le> lo_locked_until st)"

lemma lockout_cell_exact:
  assumes "cell_ok opts v" "settled T v" and "lockout_cell opts t v = (ok, v')"
    and "T \<le> t + lockout_ms opts" "t < T" "0 < t + lockout_ms opts"
  shows "ok = (0 < lockout_budget opts T v) \<and> lockout_budget opts T v' = lockout_budget opts T v - 1
    \<and> settled T v'"
  using assms
  by (auto simp: lockout_cell_def cell_ok_def lockout_budget_def max_attempts_def settled_def Let_def
      split: option.splits if_splits)

lemma lockout_run_exact:
  "cell_ok opts v \<Longrightarrow> settled T v
   \<Longrightarrow> \<forall>t \<in> set ts. T \<le> t + lockout_ms opts \<and> t < T \<and> 0 < t + lockout_ms opts
   \<Longrightarrow> length (cell_run (lockout_cell opts) ts v) = min (lockout_budget opts T v) (length ts)"
proof (induction ts arbitrary: v)
  case (Cons t ts)
  obtain ok v' where c: "lockout_cell opts t v = (ok, v')" by (cases "lockout_cell opts t v")
  have e: "ok = (0 < lockout_budget opts T v)" "lockout_budget opts T v' = lockout_budget opts T v - 1"
    "settled T v'"
    using lockout_cell_exact [OF Cons.prems(1,2) c] Cons.prems(3) by auto
  have "length (cell_run (lockout_cell opts) ts v') = min (lockout_budget opts T v') (length ts)"
    using Cons.IH [OF lockout_cell_ok [OF Cons.prems(1) c] e(3)] Cons.prems(3) by simp
  with e(1,2) show ?case by (cases "lockout_budget opts T v") (simp_all add: c)
qed simp

section \<open>Rate limit\<close>

definition rate_cell :: "auth_options \<Rightarrow> int \<Rightarrow> int list option \<Rightarrow> bool \<times> int list option" where
  "rate_cell opts now v =
     (let window = dropWhile (\<lambda>t. t \<le> now - rate_limit_window_ms opts) (case v of None \<Rightarrow> [] | Some w \<Rightarrow> w)
      in if length window \<ge> rate_limit_attempts opts then (False, Some window)
         else (True, Some (window @ [now])))"

lemma rate_limit_dict_ok: "dict_ok d \<Longrightarrow> rate_limit opts now k d = (ok, d') \<Longrightarrow> dict_ok d'"
  by (auto simp: rate_limit_def Let_def split: option.splits if_splits)

lemma rate_limit_keys:
  assumes "rate_limit opts now k d = (ok, d')"
  shows "dkeyset d' \<subseteq> insert k (dkeyset d)"
proof -
  have "dkeyset (evict_oldest (dset k [] d)) \<subseteq> insert k (dkeyset d)"
    using dom_evict [of "dset k [] d"] by (simp add: dom_dset)
  with assms show ?thesis
    by (auto simp: rate_limit_def Let_def dom_dset split: option.splits if_splits)
qed

lemma rate_limit_cell:
  assumes ok: "dict_ok d" and few: "card (insert k (dkeyset d)) \<le> MAX_TRACKED_KEYS"
    and r: "rate_limit opts now k d = (ok', d')"
  shows "rate_cell opts now (dget d k) = (ok', dget d' k)" "k' \<noteq> k \<Longrightarrow> dget d' k' = dget d k'"
  using r
  by (auto simp: rate_cell_def rate_limit_def Let_def evict_dset_id [OF ok few] dget_dset
      split: option.splits if_splits)

interpretation rate: throttle_table "rate_limit opts" "rate_cell opts" for opts
  by unfold_locales (fact rate_limit_dict_ok rate_limit_keys rate_limit_cell)+

text \<open>
  The cell holds the latest admitted times; every earlier one was already outside the window when the
  last attempt was made.
\<close>

definition in_window :: "auth_options \<Rightarrow> int \<Rightarrow> int list \<Rightarrow> int list" where
  "in_window opts t ts = filter (\<lambda>x. t - rate_limit_window_ms opts < x \<and> x \<le> t) ts"

definition rate_ok :: "auth_options \<Rightarrow> int list \<Rightarrow> int list option \<Rightarrow> int \<Rightarrow> bool" where
  "rate_ok opts acc v now \<longleftrightarrow>
     sorted acc \<and> (\<forall>x \<in> set acc. x \<le> now) \<and> (\<forall>t. length (in_window opts t acc) \<le> rate_limit_attempts opts)
     \<and> (\<exists>old w. acc = old @ w \<and> (case v of None \<Rightarrow> [] | Some u \<Rightarrow> u) = w
              \<and> (\<forall>x \<in> set old. x \<le> now - rate_limit_window_ms opts))"

lemma length_filter_imp: "(\<And>x. p x \<Longrightarrow> q x) \<Longrightarrow> length (filter p xs) \<le> length (filter q xs)"
  by (induction xs) auto

lemma dropWhile_filter_sorted:
  "sorted (xs :: int list) \<Longrightarrow> dropWhile (\<lambda>x. x \<le> c) xs = filter (\<lambda>x. c < x) xs"
proof (induction xs)
  case (Cons a xs)
  have "filter (\<lambda>x. c < x) xs = xs" if "c < a"
    using Cons.prems that by (intro filter_True) auto
  with Cons show ?case by auto
qed simp

lemma in_window_snoc:
  assumes all: "\<forall>t. length (in_window opts t acc) \<le> n"
    and few: "length (filter (\<lambda>x. now - rate_limit_window_ms opts < x) acc) < n"
  shows "length (in_window opts t (acc @ [now])) \<le> n"
proof (cases "now \<le> t")
  case True
  then have "length (filter (\<lambda>x. t - rate_limit_window_ms opts < x \<and> x \<le> t) acc)
      \<le> length (filter (\<lambda>x. now - rate_limit_window_ms opts < x) acc)"
    by (intro length_filter_imp) simp
  with few show ?thesis by (simp add: in_window_def)
next
  case False
  then show ?thesis using all by (simp add: in_window_def)
qed

lemma rate_okI:
  assumes "acc = old @ w" "sorted acc" "\<forall>x \<in> set acc. x \<le> now"
    "\<forall>t. length (in_window opts t acc) \<le> rate_limit_attempts opts"
    "\<forall>x \<in> set old. x \<le> now - rate_limit_window_ms opts"
  shows "rate_ok opts acc (Some w) now"
  using assms unfolding rate_ok_def option.case by blast

lemma rate_cell_ok:
  assumes ok: "rate_ok opts acc v prev" and le: "prev \<le> now"
    and c: "rate_cell opts now v = (b, v')"
  shows "rate_ok opts (acc @ (if b then [now] else [])) v' now"
proof -
  let ?c = "now - rate_limit_window_ms opts"
  obtain old w where w: "acc = old @ w" "(case v of None \<Rightarrow> [] | Some u \<Rightarrow> u) = w"
      and old: "\<forall>x \<in> set old. x \<le> prev - rate_limit_window_ms opts"
    using ok by (auto simp: rate_ok_def)
  have sorted: "sorted acc" and bound: "\<forall>x \<in> set acc. x \<le> prev"
    and all: "\<forall>t. length (in_window opts t acc) \<le> rate_limit_attempts opts"
    using ok by (auto simp: rate_ok_def)
  have keep: "filter (\<lambda>x. ?c < x) acc = dropWhile (\<lambda>x. x \<le> ?c) w"
    using sorted old le by (force simp: w dropWhile_filter_sorted sorted_append filter_empty_conv)
  have split: "acc = (old @ takeWhile (\<lambda>x. x \<le> ?c) w) @ dropWhile (\<lambda>x. x \<le> ?c) w"
    by (simp add: w)
  have gone: "\<forall>x \<in> set (old @ takeWhile (\<lambda>x. x \<le> ?c) w). x \<le> ?c"
    using old le by (force dest: set_takeWhileD)
  show ?thesis
  proof (cases b)
    case True
    then have v': "v' = Some (dropWhile (\<lambda>x. x \<le> ?c) w @ [now])"
      and few: "length (filter (\<lambda>x. ?c < x) acc) < rate_limit_attempts opts"
      using c by (auto simp: rate_cell_def Let_def w(2) keep split: if_splits)
    have "rate_ok opts (acc @ [now]) (Some (dropWhile (\<lambda>x. x \<le> ?c) w @ [now])) now"
    proof (rule rate_okI [OF _ _ _ _ gone])
      show "acc @ [now] = (old @ takeWhile (\<lambda>x. x \<le> ?c) w) @ (dropWhile (\<lambda>x. x \<le> ?c) w @ [now])"
        using split by simp
      show "sorted (acc @ [now])" "\<forall>x \<in> set (acc @ [now]). x \<le> now"
        using sorted bound le by (auto simp: sorted_append)
      show "\<forall>t. length (in_window opts t (acc @ [now])) \<le> rate_limit_attempts opts"
        using in_window_snoc [OF all few] by blast
    qed
    with True v' show ?thesis by simp
  next
    case False
    then have v': "v' = Some (dropWhile (\<lambda>x. x \<le> ?c) w)"
      using c by (auto simp: rate_cell_def Let_def w(2) split: if_splits)
    have "\<forall>x \<in> set acc. x \<le> now" using bound le by auto
    from rate_okI [OF split sorted this all gone] False v' show ?thesis by simp
  qed
qed

lemma rate_run_ok:
  "rate_ok opts acc v prev \<Longrightarrow> sorted (prev # ts)
   \<Longrightarrow> length (in_window opts t (acc @ cell_run (rate_cell opts) ts v)) \<le> rate_limit_attempts opts"
proof (induction ts arbitrary: acc v prev)
  case Nil
  then show ?case by (simp add: rate_ok_def)
next
  case (Cons now ts)
  obtain b v' where c: "rate_cell opts now v = (b, v')" by (cases "rate_cell opts now v")
  have "rate_ok opts (acc @ (if b then [now] else [])) v' now"
    by (rule rate_cell_ok [OF Cons.prems(1) _ c]) (use Cons.prems(2) in simp)
  from Cons.IH [OF this] Cons.prems(2) show ?case by (simp add: c)
qed

lemma sorted_times_of: "sorted (map fst rs) \<Longrightarrow> sorted (times_of k rs)"
  by (simp add: times_of_def sorted_filter)

section \<open>Properties\<close>


definition brief_options :: auth_options where
  "brief_options = default_options\<lparr>max_login_attempts := 2, rate_limit_attempts := 2\<rparr>"


text \<open>
  The rate limit is a true sliding window: starting from an empty table, for any sequence of
  requests in the order of the clock and any address, no interval of the window's length contains more
  than \<open>rate_limit_attempts\<close> admitted requests of that address (with at most \<open>MAX_TRACKED_KEYS\<close>
  addresses).
\<close>

theorem rate_limit_sliding_window:
  assumes "sorted (map fst rs)" and "card (snd ` set rs) \<le> MAX_TRACKED_KEYS"
  shows "length (filter (\<lambda>x. t - rate_limit_window_ms opts < x \<and> x \<le> t) (admitted (rate_limit opts) ip rs []))
    \<le> rate_limit_attempts opts"
proof -
  let ?ts = "times_of ip rs"
  have run: "admitted (rate_limit opts) ip rs [] = cell_run (rate_cell opts) ?ts None"
    using rate.run_project [of "[]" rs opts ip] assms(2) by (simp add: keys_of_def dkeyset_def)
  obtain prev where prev: "sorted (prev # ?ts)"
    using sorted_times_of [OF assms(1), of ip] by (cases ?ts) (auto intro: that [of "hd ?ts"])
  have "rate_ok opts [] None prev" by (simp add: rate_ok_def in_window_def)
  from rate_run_ok [OF this prev, of t] show ?thesis by (simp add: run in_window_def)
qed

theorem rate_limit_sliding_window_witness:
  "admitted (rate_limit brief_options) ''10.0.0.1''
     [(10, ''10.0.0.1''), (20, ''10.0.0.1''), (30, ''10.0.0.1''), (60015, ''10.0.0.1'')] [] = [10, 20, 60015]
   \<and> length (filter (\<lambda>x. 60019 - 60000 < x \<and> x \<le> 60019)
       (admitted (rate_limit brief_options) ''10.0.0.1''
         [(10, ''10.0.0.1''), (20, ''10.0.0.1''), (30, ''10.0.0.1''), (60015, ''10.0.0.1'')] [])) \<le> 2"
proof -
  let ?rs = "[(10 :: int, ''10.0.0.1''), (20, ''10.0.0.1''), (30, ''10.0.0.1''), (60015, ''10.0.0.1'')]"
  have o: "rate_limit_window_ms brief_options = 60000" "rate_limit_attempts brief_options = 2"
    by code_simp+
  have "sorted (map fst ?rs)" "card (snd ` set ?rs) \<le> MAX_TRACKED_KEYS"
    by (simp_all add: MAX_TRACKED_KEYS_def)
  from rate_limit_sliding_window [OF this, of 60019 brief_options "''10.0.0.1''"]
  have "length (filter (\<lambda>x. 60019 - 60000 < x \<and> x \<le> 60019)
      (admitted (rate_limit brief_options) ''10.0.0.1'' ?rs [])) \<le> 2"
    unfolding o .
  moreover have "admitted (rate_limit brief_options) ''10.0.0.1'' ?rs [] = [10, 20, 60015]" by code_simp
  ultimately show ?thesis by simp
qed

end
