(* ===== verification/SignIn.thy ===== *)
theory SignIn
  imports AuthFacts
begin

text \<open>
  Tickets, sign-in, sign-out, session clean-up and seeding of the authentication service: round trips
  and what each operation leaves behind.
\<close>

section \<open>Tickets\<close>

definition ticket_for :: "env \<Rightarrow> auth_context \<Rightarrow> ticket" where
  "ticket_for e ctx =
     \<lparr>tk_session_id = (if cx_external ctx then None else map_option se_id (cx_session ctx)),
      tk_user_id = u_id (cx_user ctx), tk_expires_at = e_now e + ticket_ttl_ms (e_opts e),
      tk_external_ctx = (if cx_external ctx then Some ctx else None), tk_api_token_id = ctx_api_token_id ctx\<rparr>"

lemma issue_ticket_stores:
  "issue_ticket e ctx s = ((tk, ttl), s1) \<Longrightarrow> dget (a_tickets s1) (hash_token e tk) = Some (ticket_for e ctx)"
  by (auto simp: issue_ticket_def ticket_for_def Let_def fresh_def dget_dset)

text \<open>The entry of a ticket is resolved against the stores as they are when it is consumed.\<close>

definition resolve_ticket :: "env \<Rightarrow> ticket \<Rightarrow> auth \<Rightarrow> auth_context option \<times> auth" where
  "resolve_ticket e t s =
     (case tk_external_ctx t of
        Some ctx \<Rightarrow> (Some ctx, s)
      | None \<Rightarrow>
          (case tk_api_token_id t of
             Some i \<Rightarrow>
               (case ts_get_token i (a_tokens s) of
                  None \<Rightarrow> (None, s)
                | Some rec \<Rightarrow>
                    if at_user_id rec \<noteq> tk_user_id t then (None, s)
                    else (case context_for_api_token e rec s of Inl _ \<Rightarrow> (None, s) | Inr ctx \<Rightarrow> (Some ctx, s)))
           | None \<Rightarrow>
               (case tk_session_id t of
                  None \<Rightarrow> (None, s)
                | Some i \<Rightarrow>
                    (case ss_get_session_by_id i (a_sessions s) of
                       None \<Rightarrow> (None, s)
                     | Some se \<Rightarrow>
                         if se_user_id se \<noteq> tk_user_id t then (None, s)
                         else (case context_for_session e se s of (Inl _, s) \<Rightarrow> (None, s) | (Inr ctx, s) \<Rightarrow> (Some ctx, s))))))"

lemma consume_ticket_stored:
  "tk \<noteq> [] \<Longrightarrow> dget (a_tickets s) (hash_token e tk) = Some t \<Longrightarrow>
   consume_ticket e (Some tk) s =
     (let s = s\<lparr>a_tickets := dpop (hash_token e tk) (a_tickets s)\<rparr>
      in if tk_expires_at t \<le> e_now e then (None, s) else resolve_ticket e t s)"
  by (simp add: consume_ticket_def resolve_ticket_def Let_def)

lemma consume_ticket_unknown:
  "dget (a_tickets s) (hash_token e tk) = None \<Longrightarrow> consume_ticket e (Some tk) s = (None, s)"
  by (simp add: consume_ticket_def Let_def dpop_absent)

lemma context_for_session_tickets:
  "context_for_session e se s = (r, s') \<Longrightarrow> a_tickets s' = a_tickets s"
  by (metis context_for_session_frame(5) snd_conv)

lemma resolve_ticket_tickets: "resolve_ticket e t s = (r, s') \<Longrightarrow> a_tickets s' = a_tickets s"
  by (auto simp: resolve_ticket_def dest: context_for_session_tickets
      split: option.splits if_splits sum.splits prod.splits)

lemma live_user_id: "live_user i s = Some u \<Longrightarrow> u_id u = i"
  by (simp add: live_user_def split: option.splits if_splits)

lemma resolve_ticket_user:
  "resolve_ticket e (ticket_for e' ctx) s = (Some c, s') \<Longrightarrow> u_id (cx_user c) = u_id (cx_user ctx)"
  by (auto simp: resolve_ticket_def ticket_for_def context_for_session_Inr
      dest!: context_for_api_token_Inr live_user_id
      split: option.splits if_splits sum.splits prod.splits)

lemma context_for_session_active:
  "(\<exists>ctx s'. context_for_session e se s = (Inr ctx, s')) \<longleftrightarrow> \<not> is_expired e se \<and> live_user (se_user_id se) s \<noteq> None"
  by (simp add: context_for_session_Inr)

lemma tickets_irrelevant_perms [simp]:
  "effective_permissions gs (s\<lparr>a_tickets := x\<rparr>) = effective_permissions gs s"
  "live_user i (s\<lparr>a_tickets := x\<rparr>) = live_user i s"
  by (simp_all add: live_user_def effective_permissions_def)

lemma tickets_irrelevant [simp]:
  "context_for_api_token e t (s\<lparr>a_tickets := x\<rparr>) = context_for_api_token e t s"
  by (simp add: context_for_api_token_def split: option.split)

lemma resolve_ticket_active:
  "fst (resolve_ticket e (ticket_for e' ctx) (s\<lparr>a_tickets := x\<rparr>)) \<noteq> None \<longleftrightarrow> is_context_active e ctx s"
  by (simp add: resolve_ticket_def ticket_for_def is_context_active_def is_api_token_active_def
      ctx_api_token_id_def context_for_session_def split: option.splits sum.splits prod.splits)

section \<open>Properties of tickets\<close>

text \<open>
  A WebSocket ticket is good for one connection.  Consumed before it expires it yields a context of
  the same user exactly when the caller it was issued to is still active at that moment (its session or
  API token stored and unexpired, its user enabled); consumed later it yields nothing; and after it was
  consumed, whatever the outcome, it never yields anything again.
\<close>

theorem ticket_single_use:
  assumes issue: "issue_ticket e ctx s = ((tk, ttl), s1)" and tk: "tk \<noteq> []"
    and same: "e_crypto e' = e_crypto e" "e_crypto e'' = e_crypto e"
    and consume: "consume_ticket e' (Some tk) s1 = (r, s2)"
  shows "(r \<noteq> None \<longleftrightarrow> e_now e' < e_now e + ticket_ttl_ms (e_opts e) \<and> is_context_active e' ctx s1)
    \<and> (\<forall>c. r = Some c \<longrightarrow> u_id (cx_user c) = u_id (cx_user ctx))
    \<and> consume_ticket e'' (Some tk) s2 = (None, s2)"
proof -
  have h: "hash_token e' tk = hash_token e tk" "hash_token e'' tk = hash_token e tk"
    using same by (simp_all add: hash_token_def)
  let ?s = "s1\<lparr>a_tickets := dpop (hash_token e tk) (a_tickets s1)\<rparr>" and ?t = "ticket_for e ctx"
  have stored: "dget (a_tickets s1) (hash_token e' tk) = Some ?t"
    using issue_ticket_stores [OF issue] by (simp add: h)
  have exp: "tk_expires_at ?t = e_now e + ticket_ttl_ms (e_opts e)" by (simp add: ticket_for_def)
  have run: "(r, s2) = (if e_now e' < tk_expires_at ?t then resolve_ticket e' ?t ?s else (None, ?s))"
    using consume consume_ticket_stored [OF tk stored] by (auto simp: h Let_def)
  have "a_tickets s2 = a_tickets ?s"
    using run resolve_ticket_tickets [of e' ?t ?s r s2] by (auto split: if_splits)
  then have "consume_ticket e'' (Some tk) s2 = (None, s2)"
    by (intro consume_ticket_unknown) (simp add: h dget_dpop)
  moreover have "r \<noteq> None \<longleftrightarrow> e_now e' < tk_expires_at ?t \<and> is_context_active e' ctx s1"
    using run resolve_ticket_active [where e = e' and e' = e and ctx = ctx and s = s1 and x = "dpop (hash_token e tk) (a_tickets s1)"]
    by (metis fst_conv)
  moreover have "u_id (cx_user c) = u_id (cx_user ctx)" if "r = Some c" for c
    using run that resolve_ticket_user [of e' e ctx ?s c s2] by (auto split: if_splits)
  ultimately show ?thesis unfolding exp by blast
qed

definition root_context :: auth_context where
  "root_context = (case authenticate_token (sample_env 2500) root_token (snd signed_in) of (Inr c, _) \<Rightarrow> c)"

definition root_state :: auth where
  "root_state = snd (authenticate_token (sample_env 2500) root_token (snd signed_in))"

theorem ticket_single_use_witness:
  "fst (consume_ticket (sample_env 4000) (Some ''rrrrrrrr'') (snd (issue_ticket (sample_env 3000) root_context root_state))) \<noteq> None
   \<and> fst (consume_ticket (sample_env 5000) (Some ''rrrrrrrr'')
       (snd (consume_ticket (sample_env 4000) (Some ''rrrrrrrr'')
         (snd (issue_ticket (sample_env 3000) root_context root_state))))) = None"
proof -
  let ?i = "issue_ticket (sample_env 3000) root_context root_state"
  have tk: "fst (fst ?i) = ''rrrrrrrr''" by code_simp
  have eq: "?i = ((''rrrrrrrr'', snd (fst ?i)), snd ?i)"
    by (metis tk prod.collapse)
  have ne: "''rrrrrrrr'' \<noteq> []" by simp
  have same: "e_crypto (sample_env 4000) = e_crypto (sample_env 3000)" "e_crypto (sample_env 5000) = e_crypto (sample_env 3000)"
    by (simp_all add: sample_env_def)
  have act: "is_context_active (sample_env 4000) root_context (snd ?i)" by code_simp
  have ttl: "e_now (sample_env 4000) < e_now (sample_env 3000) + ticket_ttl_ms (e_opts (sample_env 3000))" by code_simp
  from ticket_single_use [OF eq ne same prod.collapse [symmetric]] act ttl
  show ?thesis by (metis fst_conv)
qed

section \<open>Sign-in\<close>

lemma login_failed_audit_frame [simp]:
  "a_users (login_failed_audit e n d m i s) = a_users s"
  "a_groups (login_failed_audit e n d m i s) = a_groups s"
  "a_sessions (login_failed_audit e n d m i s) = a_sessions s"
  "a_tokens (login_failed_audit e n d m i s) = a_tokens s"
  "a_credentials (login_failed_audit e n d m i s) = a_credentials s"
  "a_lockouts (login_failed_audit e n d m i s) = a_lockouts s"
  by (simp_all add: login_failed_audit_def)

lemma set_password_frame [simp]:
  "a_users (set_password e i p s) = a_users s"
  "a_groups (set_password e i p s) = a_groups s"
  "a_sessions (set_password e i p s) = a_sessions s"
  "a_tokens (set_password e i p s) = a_tokens s"
  "a_lockouts (set_password e i p s) = a_lockouts s"
  "a_tickets (set_password e i p s) = a_tickets s"
  by (simp_all add: set_password_def Let_def fresh_def case_prod_beta)

lemma auth_verify_password_frame [simp]:
  "a_users (snd (auth_verify_password e i p s)) = a_users s"
  "a_groups (snd (auth_verify_password e i p s)) = a_groups s"
  "a_sessions (snd (auth_verify_password e i p s)) = a_sessions s"
  "a_tokens (snd (auth_verify_password e i p s)) = a_tokens s"
  "a_lockouts (snd (auth_verify_password e i p s)) = a_lockouts s"
  "a_tickets (snd (auth_verify_password e i p s)) = a_tickets s"
  by (simp_all add: auth_verify_password_def Let_def split: option.split)

lemma reserve_attempt_frame [simp]:
  "a_users (snd (reserve_attempt e k s)) = a_users s"
  "a_groups (snd (reserve_attempt e k s)) = a_groups s"
  "a_sessions (snd (reserve_attempt e k s)) = a_sessions s"
  "a_tokens (snd (reserve_attempt e k s)) = a_tokens s"
  "a_credentials (snd (reserve_attempt e k s)) = a_credentials s"
  "a_tickets (snd (reserve_attempt e k s)) = a_tickets s"
  by (simp_all add: reserve_attempt_def Let_def case_prod_beta)

lemma reset_failures_frame [simp]:
  "a_users (reset_failures k s) = a_users s"
  "a_groups (reset_failures k s) = a_groups s"
  "a_sessions (reset_failures k s) = a_sessions s"
  "a_tokens (reset_failures k s) = a_tokens s"
  "a_credentials (reset_failures k s) = a_credentials s"
  "a_tickets (reset_failures k s) = a_tickets s"
  by (simp_all add: reset_failures_def)

lemma auth_verify_password_valid:
  "fst (auth_verify_password e i p s) \<longleftrightarrow>
     (\<exists>c. dget (a_credentials s) i = Some c \<and> length p \<le> PASSWORD_MAX
        \<and> verify_password (e_crypto e) p (cr_password_hash c) (cr_salt c))"
  by (auto simp: auth_verify_password_def cs_get_credentials_def Let_def split: option.split)

lemma find_user_in: "find_user n s = Some u \<Longrightarrow> u \<in> set (us_get_users (a_users s))"
  by (auto simp: find_user_def us_get_user_by_email_def find_Some_iff dest: us_get_user_in
      split: option.splits if_splits)

lemma user_stored: "user_store_ok d \<Longrightarrow> u \<in> set (us_get_users d) \<Longrightarrow> dget d (u_id u) = Some u"
  by (auto simp: us_get_users_def dvalues_def user_store_ok_def dict_ok_def)

lemma open_session_effect:
  assumes "open_session e u m s = ((token, se), s')"
  shows "a_users s' = a_users s" "a_groups s' = a_groups s" "a_credentials s' = a_credentials s"
    "a_lockouts s' = a_lockouts s" "a_tokens s' = a_tokens s" "a_tickets s' = a_tickets s"
    "a_sessions s' = dset (hash_token e token) se (a_sessions s)"
    "se_user_id se = u_id u \<and> se_created_at se = e_now e \<and> se_last_activity se = e_now e
     \<and> se_token_hash se = hash_token e token"
  using assms by (auto simp: open_session_def Let_def ss_create_session_def fresh_def)

lemma login_finish_Inr:
  assumes "login_finish e u k n m valid s = (Inr r, s')"
  shows "valid \<and> \<not> u_disabled u
    \<and> (\<exists>se. us_update_user (e_now e) (u_id u) (no_changes\<lparr>uc_last_login_at := Some (e_now e)\<rparr>) (a_users s) = (Inr (lr_user r), a_users s')
        \<and> a_groups s' = a_groups s \<and> a_sessions s' = dset (hash_token e (lr_token r)) se (a_sessions s)
        \<and> lr_session r = se \<and> se_user_id se = u_id (lr_user r) \<and> se_created_at se = e_now e \<and> se_last_activity se = e_now e
        \<and> lr_permissions r = user_permissions (lr_user r) s')"
  using assms
  by (auto simp: login_finish_def Let_def open_session_effect split: if_splits prod.splits sum.splits
      dest: open_session_effect)

lemma login_finish_Inl: "login_finish e u k n m valid s = (Inl err, s') \<Longrightarrow> a_sessions s' = a_sessions s"
  by (auto simp: login_finish_def Let_def split: if_splits prod.splits sum.splits)

lemma login_finish_ok:
  assumes "user_store_ok (a_users s)" "u \<in> set (us_get_users (a_users s))"
  shows "is_Inr (fst (login_finish e u k n m valid s)) \<longleftrightarrow> valid \<and> \<not> u_disabled u"
  using user_stored [OF assms]
  by (auto simp: login_finish_def Let_def is_Inr_def us_update_user_def split: prod.splits)

lemma login_eq:
  "login e username password metadata s =
     (let user = find_user username s;
          key = lockout_key user username;
          shown = (case user of Some u \<Rightarrow> u_name u | None \<Rightarrow> the (sanitize (Some username) (Some 64)));
          (ok, s) = reserve_attempt e key s
      in if \<not> ok then (Inl (ApiError 429 ''account locked, try again later''),
               login_failed_audit e shown ''account locked'' metadata (map_option u_id user) s)
         else case user of
           None \<Rightarrow> (Inl (unauthorized ''invalid credentials''),
                      login_failed_audit e shown ''unknown user'' metadata None s)
         | Some u \<Rightarrow> let (valid, s) = auth_verify_password e (u_id u) password s
                     in login_finish e u key shown metadata valid s)"
  by (auto simp: login_def andThen_def login_start_def update_with_def Let_def split: prod.splits option.splits)

lemma login_found:
  assumes u: "find_user username s = Some u" and r: "fst (reserve_attempt e (u_id u) s)"
  shows "login e username password metadata s =
    (let s = snd (reserve_attempt e (u_id u) s); v = auth_verify_password e (u_id u) password s
     in login_finish e u (u_id u) (u_name u) metadata (fst v) (snd v))"
  using r by (simp add: login_eq u lockout_key_def Let_def case_prod_beta)

lemma login_refused:
  assumes "\<nexists>u. find_user username s = Some u \<and> fst (reserve_attempt e (u_id u) s)"
  shows "\<exists>err s'. login e username password metadata s = (Inl err, s') \<and> a_sessions s' = a_sessions s"
  using assms by (auto simp: login_eq lockout_key_def Let_def case_prod_beta split: option.split)

text \<open>
  C4. Sign-in succeeds exactly when the name, id or e-mail names a user, the attempt is admitted by
  the lockout, the password is the one stored for that user, and the account is enabled.  An error
  leaves the sessions as they were.
\<close>

theorem login_iff:
  assumes ok: "user_store_ok (a_users s)"
  shows "(is_Inr (fst (login e username password metadata s)) \<longleftrightarrow>
      (\<exists>u c. find_user username s = Some u
         \<and> fst (reserve (e_opts e) (e_now e) (u_id u) (a_lockouts s))
         \<and> dget (a_credentials s) (u_id u) = Some c \<and> length password \<le> PASSWORD_MAX
         \<and> verify_password (e_crypto e) password (cr_password_hash c) (cr_salt c) \<and> \<not> u_disabled u))
    \<and> (\<not> is_Inr (fst (login e username password metadata s)) \<longrightarrow>
         a_sessions (snd (login e username password metadata s)) = a_sessions s)"
proof (cases "\<exists>u. find_user username s = Some u \<and> fst (reserve_attempt e (u_id u) s)")
  case True
  then obtain u where u: "find_user username s = Some u" "fst (reserve_attempt e (u_id u) s)" by blast
  have res: "fst (reserve (e_opts e) (e_now e) (u_id u) (a_lockouts s))"
    using u(2) by (simp add: reserve_attempt_def Let_def case_prod_beta)
  let ?s = "snd (reserve_attempt e (u_id u) s)"
  let ?v = "auth_verify_password e (u_id u) password ?s"
  have l: "login e username password metadata s = login_finish e u (u_id u) (u_name u) metadata (fst ?v) (snd ?v)"
    using login_found [OF u] by (simp add: Let_def)
  have "is_Inr (fst (login e username password metadata s)) \<longleftrightarrow> fst ?v \<and> \<not> u_disabled u"
    unfolding l by (rule login_finish_ok) (use ok find_user_in [OF u(1)] in simp_all)
  moreover have "a_sessions (snd (login e username password metadata s)) = a_sessions s"
    if "\<not> is_Inr (fst (login e username password metadata s))"
    using that login_finish_Inl unfolding l
    by (cases "login_finish e u (u_id u) (u_name u) metadata (fst ?v) (snd ?v)")
      (auto simp: is_Inr_def split: sum.splits dest!: login_finish_Inl)
  ultimately show ?thesis
    using res u(1) by (auto simp: auth_verify_password_valid)
next
  case False
  then obtain err s' where "login e username password metadata s = (Inl err, s')" "a_sessions s' = a_sessions s"
    using login_refused by blast
  with False show ?thesis
    by (auto simp: is_Inr_def reserve_attempt_def Let_def case_prod_beta)
qed

theorem login_iff_witness:
  "is_Inr (fst (login (sample_env 2000) ''root'' ''correct horse'' sample_meta seeded))
   \<and> (\<exists>u. find_user ''root'' seeded = Some u \<and> \<not> u_disabled u)
   \<and> a_sessions (snd (login (sample_env 2000) ''root'' ''wrong'' sample_meta seeded)) = a_sessions seeded"
proof -
  have ok: "user_store_ok (a_users seeded)" by code_simp
  have a: "is_Inr (fst (login (sample_env 2000) ''root'' ''correct horse'' sample_meta seeded))" by code_simp
  have b: "\<not> is_Inr (fst (login (sample_env 2000) ''root'' ''wrong'' sample_meta seeded))" by code_simp
  from login_iff [OF ok, of "sample_env 2000" "''root''" "''correct horse''" sample_meta]
    login_iff [OF ok, of "sample_env 2000" "''root''" "''wrong''" sample_meta] a b
  show ?thesis by blast
qed

lemma login_Inr:
  assumes "login e username password metadata s = (Inr r, s')"
  obtains u where "find_user username s = Some u" "\<not> u_disabled u"
    "us_update_user (e_now e) (u_id u) (no_changes\<lparr>uc_last_login_at := Some (e_now e)\<rparr>) (a_users s) = (Inr (lr_user r), a_users s')"
    "a_groups s' = a_groups s" "a_sessions s' = dset (hash_token e (lr_token r)) (lr_session r) (a_sessions s)"
    "se_user_id (lr_session r) = u_id (lr_user r)" "se_created_at (lr_session r) = e_now e"
    "se_last_activity (lr_session r) = e_now e" "lr_permissions r = user_permissions (lr_user r) s'"
proof -
  have "\<exists>u. find_user username s = Some u \<and> fst (reserve_attempt e (u_id u) s)"
    using login_refused [of username s e password metadata] assms by fastforce
  then obtain u where u: "find_user username s = Some u" "fst (reserve_attempt e (u_id u) s)" by blast
  let ?s = "snd (reserve_attempt e (u_id u) s)"
  let ?v = "auth_verify_password e (u_id u) password ?s"
  have "login_finish e u (u_id u) (u_name u) metadata (fst ?v) (snd ?v) = (Inr r, s')"
    using assms login_found [OF u] by (simp add: Let_def)
  from login_finish_Inr [OF this] u(1) show ?thesis by (auto intro: that)
qed

text \<open>
  The token a sign-in returns authenticates at once as the user that signed in, with the
  permissions the sign-in reported, and the session it opened is the one found.
\<close>

theorem login_token_authenticates:
  assumes ok: "user_store_ok (a_users s)" and run: "login e username password metadata s = (Inr r, s')"
    and np: "\<not> py_startswith (lr_token r) API_TOKEN_PREFIX"
    and opts: "0 \<le> session_timeout_ms (e_opts e)" "0 \<le> max_session_lifetime_ms (e_opts e)"
  shows "\<exists>ctx s''. authenticate_token e (lr_token r) s' = (Inr ctx, s'')
     \<and> cx_user ctx = lr_user r \<and> cx_permissions ctx = lr_permissions r
     \<and> cx_session ctx = Some (lr_session r)"
proof -
  obtain u where u: "find_user username s = Some u" "\<not> u_disabled u"
    "us_update_user (e_now e) (u_id u) (no_changes\<lparr>uc_last_login_at := Some (e_now e)\<rparr>) (a_users s) = (Inr (lr_user r), a_users s')"
    and se: "a_sessions s' = dset (hash_token e (lr_token r)) (lr_session r) (a_sessions s)"
    "se_user_id (lr_session r) = u_id (lr_user r)" "se_created_at (lr_session r) = e_now e"
    "se_last_activity (lr_session r) = e_now e" "lr_permissions r = user_permissions (lr_user r) s'"
    using login_Inr [OF run] by metis
  obtain v where v: "dget (a_users s) (u_id u) = Some v" "lr_user r = change_user (e_now e) (no_changes\<lparr>uc_last_login_at := Some (e_now e)\<rparr>) v"
      "a_users s' = dset (u_id u) (lr_user r) (a_users s)"
    using us_update_get [OF u(3)] by blast
  have "v = u" using user_stored [OF ok find_user_in [OF u(1)]] v(1) by simp
  then have "u_id (lr_user r) = u_id u" "\<not> u_disabled (lr_user r)"
    using u(2) by (simp_all add: v(2) change_user_def or_else_def no_changes_def)
  then have live: "live_user (se_user_id (lr_session r)) s' = Some (lr_user r)"
    by (simp add: live_user_def us_get_user_def v(3) se(2) dget_dset)
  have "\<not> is_expired e (lr_session r)"
    using opts se(3,4) by (simp add: is_expired_iff)
  moreover have "(lr_session r)\<lparr>se_last_activity := e_now e\<rparr> = lr_session r"
    using se(4) by (cases "lr_session r") simp
  ultimately show ?thesis
    unfolding authenticate_session_Inr [OF np] using live se(1,5) by (simp add: dget_dset)
qed

theorem login_token_authenticates_witness:
  "\<exists>r ctx s''. signed_in = (Inr r, snd signed_in) \<and> lr_token r = root_token
     \<and> authenticate_token (sample_env 2000) root_token (snd signed_in) = (Inr ctx, s'') \<and> cx_user ctx = lr_user r"
proof -
  have ok: "user_store_ok (a_users seeded)" by code_simp
  have "is_Inr (fst signed_in)" by code_simp
  then obtain r where r: "signed_in = (Inr r, snd signed_in)" by (metis is_InrE prod.collapse)
  have "case fst signed_in of Inl _ \<Rightarrow> False | Inr r \<Rightarrow> lr_token r = root_token" by code_simp
  then have tok: "lr_token r = root_token" by (subst (asm) r) simp
  have np: "\<not> py_startswith (lr_token r) API_TOKEN_PREFIX" unfolding tok by code_simp
  have opts: "0 \<le> session_timeout_ms (e_opts (sample_env 2000))" "0 \<le> max_session_lifetime_ms (e_opts (sample_env 2000))"
    by code_simp+
  from login_token_authenticates [OF ok r [unfolded signed_in_def] np opts] r tok
  show ?thesis unfolding signed_in_def by metis
qed

section \<open>Sign-out, clean-up and seeding\<close>

text \<open>
  After signing out, the token does not authenticate any more; every other session stays as it
  was, and no ticket of the closed session is left.
\<close>

theorem logout_ends_session:
  assumes np: "\<not> py_startswith token API_TOKEN_PREFIX"
  shows "fst (authenticate_token e token (logout e token s)) = Inl invalid_token
    \<and> (h \<noteq> hash_token e token \<longrightarrow> dget (a_sessions (logout e token s)) h = dget (a_sessions s) h)
    \<and> (\<forall>se. dget (a_sessions s) (hash_token e token) = Some se \<longrightarrow>
         (\<forall>p \<in> set (a_tickets (logout e token s)). tk_session_id (snd p) \<noteq> Some (se_id se)))"
proof -
  have ses: "a_sessions (logout e token s) = dpop (hash_token e token) (a_sessions s)"
    by (simp add: logout_def Let_def ss_delete_session_def split: option.split)
  show ?thesis
    using np by (auto simp: authenticate_token_def ses ss_get_session_def dget_dpop)
      (simp add: logout_def Let_def ss_get_session_def)
qed

theorem logout_ends_session_witness:
  "fst (authenticate_token (sample_env 4000) root_token (logout (sample_env 4000) root_token (snd signed_in))) = Inl invalid_token"
proof -
  have np: "\<not> py_startswith root_token API_TOKEN_PREFIX" by code_simp
  show ?thesis using logout_ends_session [OF np] by blast
qed

lemma fold_publish_closed_frame:
  "a_sessions (fold (\<lambda>se. publish_session_closed e se a) ses s) = a_sessions s"
  "a_tickets (fold (\<lambda>se. publish_session_closed e se a) ses s) = a_tickets s"
  "a_users (fold (\<lambda>se. publish_session_closed e se a) ses s) = a_users s"
  "a_groups (fold (\<lambda>se. publish_session_closed e se a) ses s) = a_groups s"
  by (induction ses arbitrary: s) simp_all

lemma cleanup_sessions_frame:
  "a_users (cleanup_sessions e s) = a_users s"
  "a_groups (cleanup_sessions e s) = a_groups s"
  "a_tickets (cleanup_sessions e s) = filter (\<lambda>p. e_now e < tk_expires_at (snd p)) (a_tickets s)"
  by (simp_all add: cleanup_sessions_def Let_def drop_expired_tickets_def fold_publish_closed_frame not_le)

text \<open>
  The periodic clean-up removes exactly the expired sessions, those idle for longer than the timeout
  and those past the maximal lifetime, and the expired tickets.
\<close>

theorem cleanup_sessions_exact:
  assumes ok: "session_store_ok (a_sessions s)"
  shows "set (ss_get_active_sessions (a_sessions (cleanup_sessions e s)))
      = {se \<in> set (ss_get_active_sessions (a_sessions s)). \<not> is_expired e se}
    \<and> set (a_tickets (cleanup_sessions e s)) = {p \<in> set (a_tickets s). e_now e < tk_expires_at (snd p)}"
proof -
  let ?d = "ss_cleanup (e_now e) (session_timeout_ms (e_opts e)) (a_sessions s)"
  let ?ids = "map se_id (filter (is_expired e) (ss_get_active_sessions ?d))"
  have ok': "session_store_ok ?d" by (rule session_store_ok_cleanup [OF ok])
  have ses: "a_sessions (cleanup_sessions e s) = fold ss_delete_session_by_id ?ids ?d"
    by (simp add: cleanup_sessions_def Let_def drop_expired_tickets_def fold_publish_closed_frame)
  have idle: "set (ss_get_active_sessions ?d)
      = {se \<in> set (ss_get_active_sessions (a_sessions s)). \<not> se_last_activity se < e_now e - session_timeout_ms (e_opts e)}"
    by (auto simp: ss_get_active_sessions_def ss_cleanup_def dvalues_def)
  have uniq: "is_expired e se" if "se \<in> set (ss_get_active_sessions ?d)" "se_id se \<in> set ?ids" for se
  proof -
    from that(2) obtain x where x: "x \<in> set (ss_get_active_sessions ?d)" "is_expired e x" "se_id x = se_id se" by auto
    then have "x = se"
      using mem_sessions.get_by_id_active [OF ok', of "se_id se"] that(1) by (metis option.inject)
    with x show ?thesis by simp
  qed
  have del: "set (ss_get_active_sessions (fold ss_delete_session_by_id ?ids ?d))
      = {se \<in> set (ss_get_active_sessions ?d). se_id se \<notin> set ?ids}"
    using mem_sessions.fold_delete [OF ok', of ?ids] by blast
  have "se_id se \<in> set ?ids" if "se \<in> set (ss_get_active_sessions ?d)" "is_expired e se" for se
    using that by simp
  with uniq have "set (ss_get_active_sessions (a_sessions (cleanup_sessions e s)))
      = {se \<in> set (ss_get_active_sessions ?d). \<not> is_expired e se}"
    unfolding ses del by blast
  moreover have "\<not> is_expired e se \<Longrightarrow> \<not> se_last_activity se < e_now e - session_timeout_ms (e_opts e)" for se
    by (auto simp: is_expired_iff)
  ultimately show ?thesis
    unfolding idle by (auto simp: cleanup_sessions_frame)
qed

theorem cleanup_sessions_exact_witness:
  "ss_get_active_sessions (a_sessions (cleanup_sessions (sample_env 1900000) (snd signed_in))) = []"
proof -
  have ok: "session_store_ok (a_sessions (snd signed_in))" by code_simp
  have exp: "\<forall>se \<in> set (ss_get_active_sessions (a_sessions (snd signed_in))). is_expired (sample_env 1900000) se"
    by code_simp
  have "set (ss_get_active_sessions (a_sessions (cleanup_sessions (sample_env 1900000) (snd signed_in)))) = {}"
    using cleanup_sessions_exact [OF ok, of "sample_env 1900000"] exp by auto
  then show ?thesis by simp
qed

lemma seed_group_id: "gs_get_group n (a_groups s) \<noteq> None \<Longrightarrow> seed_group e n d p s = s"
  by (simp add: seed_group_def)

lemma seed_effect:
  assumes empty: "a_users s = []" "a_groups s = []"
    and opts: "\<not> read_only_users (e_opts e)" "\<not> read_only_groups (e_opts e)" "\<not> e_external_auth e"
    and run: "seed e pw s = (r, s')"
  shows "r = Inr ()
    \<and> (\<exists>root. a_users s' = [(u_id root, root)] \<and> us_get_users (a_users s') = [root] \<and> u_name root = ''root'' \<and> enabled_admin root
         \<and> u_must_change_password root = (pw = None) \<and> (\<forall>p. has_permission (user_permissions root s') p)
         \<and> dget (a_credentials s') (u_id root) \<noteq> None)
    \<and> group_store_ok (a_groups s')
    \<and> (\<exists>g. dget (a_groups s') ADMIN_GROUP = Some g \<and> ''*'' \<in> set (g_permissions g))
    \<and> seed e' pw' s' = (Inr (), s')"
proof -
  let ?s1 = "seed_group e ADMIN_GROUP ''Administrators'' [''*''] s"
  let ?s2 = "seed_group e USERS_GROUP ''Default group for new accounts'' [''commands:execute''] ?s1"
  have admin: "\<exists>g. dget (a_groups ?s2) ''admin'' = Some g \<and> g_permissions g = [''*'']"
    and users: "dget (a_groups ?s2) ''users'' \<noteq> None" and u2: "a_users ?s2 = []"
    using empty by (auto simp: seed_group_def gs_get_group_def gs_create_group_def fresh_def Let_def dget_dset
        ADMIN_GROUP_def USERS_GROUP_def py_lower_def py_lower_char_def)
  from admin obtain g where g: "dget (a_groups ?s2) ''admin'' = Some g" "g_permissions g = [''*'']" by blast
  have lower: "py_lower ''admin'' = ''admin''" "py_lower ''users'' = ''users''" by code_simp+
  define root where "root = hd (us_get_users (a_users s'))"
  have gok: "group_store_ok (a_groups ?s2)"
    using empty by (auto simp: seed_group_def gs_get_group_def gs_create_group_def fresh_def Let_def group_store_ok_def dict_ok_def
        ADMIN_GROUP_def USERS_GROUP_def py_lower_def py_lower_char_def)
  have eff: "r = Inr ()" "a_users s' = [(u_id root, root)]" "us_get_users (a_users s') = [root]" "u_name root = ''root''" "u_groups root = [ADMIN_GROUP]"
      "\<not> u_disabled root" "u_must_change_password root = (pw = None)" "a_groups s' = a_groups ?s2"
      "dget (a_credentials s') (u_id root) \<noteq> None"
    using run opts u2
    by (auto simp: root_def seed_def Let_def us_get_users_def dvalues_def us_create_user_def fresh_def set_password_def
        cs_set_password_def hash_password_def dget_dset split: option.splits)
  have adm: "enabled_admin root"
    using eff(5,6) by (simp add: enabled_admin_def in_group_def)
  have "user_permissions root s' = merge_permissions [[''*'']]"
    using g by (simp add: user_permissions_def effective_permissions_def eff(5,8) gs_get_group_def ADMIN_GROUP_def lower
        List.map_filter_def)
  moreover have "''*'' \<in> set (merge_permissions [[''*'']])" by code_simp
  ultimately have all: "has_permission (user_permissions root s') p" for p
    by (simp add: has_permission_star)
  have "gs_get_group ADMIN_GROUP (a_groups s') \<noteq> None" "gs_get_group USERS_GROUP (a_groups s') \<noteq> None"
    using g users by (simp_all add: gs_get_group_def eff(8) ADMIN_GROUP_def USERS_GROUP_def lower)
  then have "seed e' pw' s' = (Inr (), s')"
    using eff(3) by (simp add: seed_def seed_group_id)
  moreover have "\<exists>g. dget (a_groups s') ADMIN_GROUP = Some g \<and> ''*'' \<in> set (g_permissions g)"
    using g by (simp add: eff(8) ADMIN_GROUP_def)
  moreover have "group_store_ok (a_groups s')" using gok by (simp add: eff(8))
  ultimately show ?thesis using eff adm all by blast
qed

text \<open>
  Seeding an empty server creates one user, the enabled administrator \<open>root\<close> with every
  permission, who must change the password at the first sign-in exactly when it was generated.  Seeding
  again, at any later start, changes nothing.
\<close>

theorem seed_establishes_admin:
  assumes empty: "a_users s = []" "a_groups s = []"
    and opts: "\<not> read_only_users (e_opts e)" "\<not> read_only_groups (e_opts e)" "\<not> e_external_auth e"
    and run: "seed e pw s = (r, s')"
  shows "r = Inr ()
    \<and> (\<exists>root. us_get_users (a_users s') = [root] \<and> u_name root = ''root'' \<and> enabled_admin root
         \<and> u_must_change_password root = (pw = None) \<and> (\<forall>p. has_permission (user_permissions root s') p)
         \<and> dget (a_credentials s') (u_id root) \<noteq> None)
    \<and> seed e' pw' s' = (Inr (), s')"
  using seed_effect [OF assms] by blast

theorem seed_establishes_admin_witness:
  "us_get_users (a_users seeded) \<noteq> [] \<and> seed (sample_env 9000) None seeded = (Inr (), seeded)"
proof -
  let ?s0 = "new_auth (new_audit_store 100 100)"
  have "a_users ?s0 = []" "a_groups ?s0 = []" by (simp_all add: new_auth_def)
  moreover have "\<not> read_only_users (e_opts (sample_env 1000))" "\<not> read_only_groups (e_opts (sample_env 1000))"
    "\<not> e_external_auth (sample_env 1000)" by (simp_all add: sample_env_def default_options_def)
  ultimately show ?thesis
    using seed_establishes_admin [OF _ _ _ _ _ prod.collapse [symmetric], of ?s0 "sample_env 1000" "Some ''correct horse''" "sample_env 9000" None]
    unfolding seeded_def by auto
qed

end
