(* ===== verification/UsersSafety.thy ===== *)
theory UsersSafety
  imports UsersFacts
begin

text \<open>
  The service as a transition system (every operation of the authentication and users services that is
  modelled, on one state) with its invariants, and the guarantees of the single operations: no
  escalation of rights, complete deletion, and what a password change ends.
\<close>

section \<open>The system\<close>

inductive server_step :: "auth \<Rightarrow> auth \<Rightarrow> bool" where
  step_create_user: "ids_fresh e s \<Longrightarrow>
     server_step s (snd (create_user e ctx name email gs password disabled home_dir data s))"
| step_update_user: "target \<in> set (us_get_users (a_users s)) \<Longrightarrow>
     server_step s (snd (update_user e ctx target oname oemail ogs odisabled home_dir data s))"
| step_delete_user: "target \<in> set (us_get_users (a_users s)) \<Longrightarrow>
     server_step s (snd (delete_user e ctx target s))"
| step_change_password: "target \<in> set (us_get_users (a_users s)) \<Longrightarrow>
     server_step s (snd (change_password e cctx target pw temporary s))"
| step_create_group: "server_step s (snd (create_group e ctx name description perms s))"
| step_update_group: "gs_get_group name (a_groups s) = Some g \<Longrightarrow>
     server_step s (snd (update_group e ctx g description perms s))"
| step_delete_group: "server_step s (snd (delete_group e ctx g s))"
| step_add_member: "u \<in> set (us_get_users (a_users s)) \<Longrightarrow> server_step s (snd (add_member e ctx g u s))"
| step_remove_member: "u \<in> set (us_get_users (a_users s)) \<Longrightarrow> server_step s (snd (remove_member e ctx g u s))"
| step_login: "server_step s (snd (login e username pw metadata s))"
| step_logout: "server_step s (logout e token s)"
| step_authenticate: "server_step s (snd (authenticate_token e token s))"
| step_issue_ticket: "server_step s (snd (issue_ticket e cctx s))"
| step_consume_ticket: "server_step s (snd (consume_ticket e ticket s))"
| step_revoke: "server_step s (snd (revoke_user_sessions e uid reason actor aid except_id s))"
| step_cleanup: "server_step s (cleanup_sessions e s)"

text \<open>A server starts with empty stores, seeded with a root user.\<close>

definition server_init :: "auth \<Rightarrow> bool" where
  "server_init s \<longleftrightarrow>
     (\<exists>e pw audit_st. \<not> read_only_users (e_opts e) \<and> \<not> read_only_groups (e_opts e) \<and> \<not> e_external_auth e
        \<and> s = snd (seed e pw (new_auth audit_st)))"

lemma issue_ticket_quiet:
  "a_users (snd (issue_ticket e ctx s)) = a_users s" "a_groups (snd (issue_ticket e ctx s)) = a_groups s"
  by (simp_all add: issue_ticket_def drop_expired_tickets_def fresh_def Let_def)

lemma consume_ticket_quiet:
  "a_users (snd (consume_ticket e tk s)) = a_users s" "a_groups (snd (consume_ticket e tk s)) = a_groups s"
proof -
  have c: "context_for_session e se t = (r, t') \<Longrightarrow> a_users t' = a_users t \<and> a_groups t' = a_groups t" for se t r t'
    using context_for_session_frame [of e se t] by simp
  show "a_users (snd (consume_ticket e tk s)) = a_users s" "a_groups (snd (consume_ticket e tk s)) = a_groups s"
    by (auto simp: consume_ticket_def Let_def dest!: c split: option.splits prod.splits sum.splits)
qed

lemmas quiet_stores = login_stores logout_stores authenticate_token_frame issue_ticket_quiet consume_ticket_quiet
  revoke_user_sessions_frame cleanup_sessions_frame

lemma login_charge: "in_charge s \<Longrightarrow> in_charge (snd (login e username pw metadata s))"
  using login_stores [of e username pw metadata s] by (auto simp: in_charge_def charge_harmless)

lemma login_names: "names_ok (a_users s) \<Longrightarrow> names_ok (a_users (snd (login e username pw metadata s)))"
  using login_stores [of e username pw metadata s] by (auto simp: names_ok_harmless)

lemma server_init_effect:
  assumes "server_init s"
  shows "in_charge s" "names_ok (a_users s)"
proof -
  obtain e pw ast where e: "\<not> read_only_users (e_opts e)" "\<not> read_only_groups (e_opts e)" "\<not> e_external_auth e"
    and s: "s = snd (seed e pw (new_auth ast))" using assms by (auto simp: server_init_def)
  have new: "a_users (new_auth ast) = []" "a_groups (new_auth ast) = []" by (simp_all add: new_auth_def)
  have run: "seed e pw (new_auth ast) = (fst (seed e pw (new_auth ast)), s)" by (simp add: s)
  from seed_effect [OF new e run, of e pw]
  obtain root where root: "a_users s = [(u_id root, root)]" "us_get_users (a_users s) = [root]" "enabled_admin root"
    "group_store_ok (a_groups s)" "\<exists>g. dget (a_groups s) ADMIN_GROUP = Some g \<and> ''*'' \<in> set (g_permissions g)"
    by blast
  have ok: "user_store_ok (a_users s)"
    by (subst root(1)) (simp add: user_store_ok_def dict_ok_def)
  show "in_charge s" unfolding in_charge_def charge_def using ok root(2-5) by simp
  show "names_ok (a_users s)" unfolding names_ok_def using ok root(2) by simp
qed

lemma in_charge_quiet:
  "in_charge (logout e token s) = in_charge s"
  "in_charge (snd (authenticate_token e token s)) = in_charge s"
  "in_charge (snd (issue_ticket e cctx s)) = in_charge s"
  "in_charge (snd (consume_ticket e ticket s)) = in_charge s"
  "in_charge (snd (revoke_user_sessions e uid reason actor aid except_id s)) = in_charge s"
  "in_charge (cleanup_sessions e s) = in_charge s"
  by (simp_all add: in_charge_def quiet_stores)

lemma server_step_charge: "server_step s t \<Longrightarrow> in_charge s \<Longrightarrow> in_charge t"
  by (induction rule: server_step.induct)
    (simp_all add: create_user_charge update_user_charge delete_user_charge change_password_charge
      create_group_charge update_group_charge delete_group_charge add_member_charge remove_member_charge
      login_charge in_charge_quiet)

lemma server_step_names: "server_step s t \<Longrightarrow> names_ok (a_users s) \<Longrightarrow> names_ok (a_users t)"
  by (induction rule: server_step.induct)
    (simp_all add: create_user_names update_user_names delete_user_names change_password_names
      create_group_users update_group_users delete_group_names add_member_names remove_member_names
      login_names quiet_stores)

interpretation server: invariant_system server_init server_step "\<lambda>s. in_charge s \<and> names_ok (a_users s)"
  by unfold_locales (auto simp: server_init_effect dest: server_step_charge server_step_names)

lemma admin_has_everything:
  assumes "in_charge s" and "enabled_admin u" and "py_strip p \<noteq> []"
  shows "has_permission (user_permissions u s) p"
proof -
  obtain x where x: "x \<in> set (u_groups u)" "py_lower x = ADMIN_GROUP"
    using assms(2) by (auto simp: enabled_admin_def in_group_def)
  obtain g where g: "dget (a_groups s) ADMIN_GROUP = Some g" "''*'' \<in> set (g_permissions g)"
    using assms(1) by (auto simp: in_charge_def charge_def)
  have "gs_get_group x (a_groups s) = Some g" using g(1) x(2) by (simp add: gs_get_group_def)
  with x(1) has_permission_star [OF g(2)] show ?thesis
    unfolding user_permissions_has [OF assms(3)] by blast
qed

section \<open>Properties\<close>

text \<open>
  C1. The server can always be administered: in every state that can be reached from a seeded server by any
  sequence of sign-ins, user, group and membership changes, password changes and revocations, there is
  an enabled user who is a member of the admin group and who holds every permission.
\<close>

theorem somebody_in_charge:
  assumes "reachable server_init server_step s"
  shows "\<exists>u \<in> set (us_get_users (a_users s)). \<not> u_disabled u \<and> in_group u ADMIN_GROUP
    \<and> (\<forall>p. py_strip p \<noteq> [] \<longrightarrow> has_permission (user_permissions u s) p)"
proof -
  have inv: "in_charge s" using server.reachable_inv [OF assms] by blast
  then obtain u where "u \<in> set (us_get_users (a_users s))" "enabled_admin u"
    by (auto simp: in_charge_def charge_def)
  with admin_has_everything [OF inv] show ?thesis
    by (auto simp: enabled_admin_def)
qed

lemma seeded_reachable: "reachable server_init server_step seeded"
proof (rule reach_init)
  have "\<not> read_only_users (e_opts (sample_env 1000))" "\<not> read_only_groups (e_opts (sample_env 1000))"
    "\<not> e_external_auth (sample_env 1000)" by (simp_all add: sample_env_def default_options_def)
  then show "server_init seeded" unfolding server_init_def seeded_def by blast
qed

theorem somebody_in_charge_witness:
  "\<exists>u \<in> set (us_get_users (a_users seeded)). has_permission (user_permissions u seeded) ''users:delete''"
proof -
  have "py_strip ''users:delete'' \<noteq> []" by code_simp
  with somebody_in_charge [OF seeded_reachable] show ?thesis by blast
qed

text \<open>
  C9. Names and e-mail addresses form one namespace: in every reachable state, the name and the e-mail of a
  user differ, up to case, from the name and the e-mail of every other user, so a sign-in by either
  means at most one account.
\<close>

theorem names_unique:
  assumes "reachable server_init server_step s"
    and "u \<in> set (us_get_users (a_users s))" "v \<in> set (us_get_users (a_users s))" "u_id u \<noteq> u_id v"
  shows "py_lower (u_name u) \<noteq> py_lower (u_name v) \<and> py_lower (u_email u) \<noteq> py_lower (u_email v)
    \<and> py_lower (u_name u) \<noteq> py_lower (u_email v)"
proof -
  have "names_ok (a_users s)" using server.reachable_inv [OF assms(1)] by blast
  with assms(2-4) have "taken u \<inter> taken v = {}" unfolding names_ok_def by metis
  then show ?thesis by (auto simp: taken_def)
qed

definition two_users :: auth where
  "two_users = snd (create_user (sample_env 1500) None ''ada'' ''ada@example.org'' None None None None None seeded)"

lemma seeded_ids: "map fst (a_users seeded) = [''rrr'']" "a_draws seeded = 4"
  by code_simp+

lemma seeded_ids_fresh: "ids_fresh (sample_env now) seeded"
proof -
  have "replicate (Suc n) (CHR ''r'') \<noteq> ''rrr''" if "4 \<le> n" for n
    using that by (auto dest: arg_cong [where f = length])
  moreover have "fst ` set (a_users seeded) = {''rrr''}"
    using arg_cong [OF seeded_ids(1), of set] by simp
  ultimately show ?thesis
    unfolding ids_fresh_def map_of_eq_None_iff by (simp add: seeded_ids(2) sample_env_def del: replicate_Suc)
qed

theorem names_unique_witness:
  "\<exists>u v. u \<in> set (us_get_users (a_users two_users)) \<and> v \<in> set (us_get_users (a_users two_users)) \<and> u \<noteq> v
     \<and> py_lower (u_name u) \<noteq> py_lower (u_name v) \<and> py_lower (u_email u) \<noteq> py_lower (u_email v)"
proof -
  have r: "reachable server_init server_step two_users"
    unfolding two_users_def by (intro reach_step [OF seeded_reachable] step_create_user seeded_ids_fresh)
  have "map u_id (us_get_users (a_users two_users)) = [''rrr'', ''rrrrr'']" by code_simp
  then obtain u v where "us_get_users (a_users two_users) = [u, v]" "u_id u = ''rrr''" "u_id v = ''rrrrr''"
    by (auto simp: map_eq_Cons_conv)
  then show ?thesis
    using names_unique [OF r, of u v] by (intro exI [of _ u] exI [of _ v]) auto
qed

section \<open>Rights\<close>

lemma ensure_can_grant_groups_ok:
  "ensure_can_grant_groups c gs s = Inr () \<longleftrightarrow> covers (cx_permissions c) (effective_permissions gs s)"
  by (simp add: ensure_can_grant_groups_def ensure_can_grant_permissions_def uncovered_Nil Let_def)

lemma ensure_covers_user_ok:
  "ensure_covers_user c u s = Inr () \<longleftrightarrow> ctx_is_self c u \<or> covers (cx_permissions c) (user_permissions u s)"
  by (simp add: ensure_covers_user_def)

lemma covers_Nil [simp]: "covers p []"
  by (simp add: covers_def)

lemma effective_permissions_Nil [simp]: "effective_permissions [] s = []"
  by (simp add: effective_permissions_def List.map_filter_def merge_permissions_def)

lemma create_user_rights:
  "wp (create_user e (Some c) name email gs password disabled home_dir data)
     (\<lambda>u s'. covers (cx_permissions c) (user_permissions u s') \<or> resolve_groups [USERS_GROUP] s = Inr (u_groups u))
     (\<lambda>_ _. True) s"
  unfolding create_user_def
  by (simp add: wps Let_def new_user_def split: option.split)
    (auto simp: user_permissions_def effective_permissions_def reads_err_def ensure_can_grant_groups_ok ret_def
      split: if_splits)

lemma add_member_rights:
  "wp (add_member e (Some c) g u)
     (\<lambda>_ _. (ctx_is_self c u \<or> covers (cx_permissions c) (user_permissions u s))
          \<and> covers (cx_permissions c) (effective_permissions [g_name g] s))
     (\<lambda>_ _. True) s"
  unfolding add_member_def wp_simps wp_update_user_in_store
  by (simp add: ensure_can_grant_groups_ok ensure_covers_user_ok split: sum.split option.split)

lemma update_user_rights:
  assumes "user_store_ok (a_users s)" and "target \<in> set (us_get_users (a_users s))"
  shows "wp (update_user e (Some c) target name email gs disabled home_dir data)
     (\<lambda>u _. (ctx_is_self c target \<or> covers (cx_permissions c) (user_permissions target s))
        \<and> covers (cx_permissions c) (effective_permissions (filter (\<lambda>g. \<not> in_group target g) (u_groups u)) s))
     (\<lambda>_ _. True) s"
proof -
  have self: "filter (\<lambda>g. \<not> in_group target g) (u_groups target) = []"
    by (auto simp: filter_empty_conv in_group_def)
  show ?thesis
    unfolding update_user_def
    by (simp add: wps Let_def user_stored [OF assms])
      (auto simp: act_defs ensure_can_grant_groups_ok ensure_covers_user_ok change_user_fields or_else_def self Let_def
        split: if_splits option.splits sum.splits)
qed


definition make_admin :: "(api_error + user) \<times> auth" where
  "make_admin = create_user (sample_env 3000) (Some root_context) ''ada'' ''ada@example.org'' (Some [''admin''])
     None None None None root_state"


section \<open>Deletion and password changes\<close>

lemma revoked_set:
  assumes "session_store_ok (a_sessions t)"
  shows "set (ss_get_active_sessions (a_sessions (snd (revoke_user_sessions e uid r ac ai ex t))))
    = {se \<in> set (ss_get_active_sessions (a_sessions t)). \<not> (se_user_id se = uid \<and> Some (se_id se) \<noteq> ex)}"
  using revoke_user_sessions_active(2) [OF assms prod.collapse [symmetric], of e uid r ac ai ex]
  by (simp add: to_revoke_def)

lemma deleted_tokens: "set (ts_get_tokens None (ts_delete_user_tokens i d)) = {t \<in> set (ts_get_tokens None d). at_user_id t \<noteq> i}"
  by (auto simp: ts_get_tokens_def ts_delete_user_tokens_def dvalues_def)

definition no_trace :: "string \<Rightarrow> auth \<Rightarrow> bool" where
  "no_trace i s \<longleftrightarrow>
     dget (a_users s) i = None \<and> dget (a_credentials s) i = None
     \<and> (\<forall>se \<in> set (ss_get_active_sessions (a_sessions s)). se_user_id se \<noteq> i)
     \<and> (\<forall>t \<in> set (ts_get_tokens None (a_tokens s)). at_user_id t \<noteq> i)"

lemma delete_user_effect:
  assumes "session_store_ok (a_sessions s)"
  shows "wp (delete_user e ctx target)
     (\<lambda>_ s'. no_trace (u_id target) s' \<and> (\<forall>i. i \<noteq> u_id target \<longrightarrow>
          dget (a_users s') i = dget (a_users s) i \<and> dget (a_credentials s') i = dget (a_credentials s) i)
        \<and> (\<forall>se \<in> set (ss_get_active_sessions (a_sessions s)). se_user_id se \<noteq> u_id target \<longrightarrow>
             se \<in> set (ss_get_active_sessions (a_sessions s'))))
     (\<lambda>_ s'. s' = s) s"
proof -
  have sessions: "set (ss_get_active_sessions (a_sessions (snd (revoke_user_sessions e (u_id target) r ac ai None t))))
      = {se \<in> set (ss_get_active_sessions (a_sessions s)). se_user_id se \<noteq> u_id target}"
    if "a_sessions t = a_sessions s" for r ac ai t
    using revoked_set [of t e "u_id target" r ac ai None] assms that by simp
  show ?thesis
    unfolding delete_user_def
    by (simp add: wps no_trace_def us_delete_user_def cs_delete_credentials_def dget_dpop deleted_tokens sessions)
qed

text \<open>
  C8. Deleting a user leaves nothing of the account behind: afterwards there is no such user, no
  password, no session and no API token of it, while every other user, password and session is as it
  was; and a refused deletion changes nothing.
\<close>

theorem delete_user_complete:
  assumes ok: "session_store_ok (a_sessions s)" and run: "delete_user e ctx target s = (r, s')"
  shows "(r = Inr () \<longrightarrow>
       dget (a_users s') (u_id target) = None \<and> dget (a_credentials s') (u_id target) = None
       \<and> (\<forall>se \<in> set (ss_get_active_sessions (a_sessions s')). se_user_id se \<noteq> u_id target)
       \<and> (\<forall>t \<in> set (ts_get_tokens None (a_tokens s')). at_user_id t \<noteq> u_id target)
       \<and> (\<forall>i. i \<noteq> u_id target \<longrightarrow>
            dget (a_users s') i = dget (a_users s) i \<and> dget (a_credentials s') i = dget (a_credentials s) i)
       \<and> (\<forall>se \<in> set (ss_get_active_sessions (a_sessions s)). se_user_id se \<noteq> u_id target \<longrightarrow>
            se \<in> set (ss_get_active_sessions (a_sessions s'))))
    \<and> (r \<noteq> Inr () \<longrightarrow> s' = s)"
proof (cases r)
  case (Inl err)
  then have "s' = s" using wp_error [OF delete_user_effect [OF ok]] run by blast
  with Inl show ?thesis by simp
next
  case (Inr x)
  then have r: "r = Inr ()" by simp
  with run have "delete_user e ctx target s = (Inr (), s')" by simp
  from wp_result [OF delete_user_effect [OF ok] this] show ?thesis
    unfolding r no_trace_def conj_assoc
    by (elim conjE) (intro conjI impI; (assumption | erule notE, rule refl))
qed

lemma delete_user_admitted:
  "\<not> is_last_enabled_admin target s \<Longrightarrow> \<exists>s'. delete_user e None target s = (Inr (), s')"
  by (simp add: delete_user_def andThen_def ret_def guard_def reads_err_def modify_def)

definition ada :: user where
  "ada = (case us_get_user ''ada'' (a_users two_users) of Some u \<Rightarrow> u)"

theorem delete_user_complete_witness:
  "\<exists>s'. delete_user (sample_env 3000) None ada two_users = (Inr (), s')
     \<and> dget (a_users two_users) (u_id ada) \<noteq> None \<and> dget (a_users s') (u_id ada) = None"
proof -
  have ok: "session_store_ok (a_sessions two_users)" by code_simp
  have "\<not> is_last_enabled_admin ada two_users" by code_simp
  then obtain s' where run: "delete_user (sample_env 3000) None ada two_users = (Inr (), s')"
    using delete_user_admitted by blast
  have "dget (a_users two_users) (u_id ada) \<noteq> None" by code_simp
  with delete_user_complete [OF ok run] run show ?thesis by blast
qed
definition own_session :: "auth_context \<Rightarrow> session \<Rightarrow> bool" where
  "own_session ctx se = (Some (se_id se) = map_option se_id (cx_session ctx))"

text \<open>The stored credentials are a hash of the password under some salt.\<close>

definition password_stored :: "env \<Rightarrow> string \<Rightarrow> string \<Rightarrow> credential_store \<Rightarrow> bool" where
  "password_stored e i password d \<longleftrightarrow>
     (\<exists>salt. case dget d i of None \<Rightarrow> False
             | Some cr \<Rightarrow> hash_password (e_crypto e) salt password = (cr_password_hash cr, cr_salt cr))"

lemma password_stored_set: "password_stored e i p (a_credentials (set_password e i p t))"
  by (auto simp: password_stored_def set_password_def fresh_def cs_set_password_def dget_dset Let_def case_prod_beta
      intro!: exI [of _ "e_rnd e (a_draws t)"])

lemma policy_ok:
  "check_password_policy e (Some password) = Inr x
   \<Longrightarrow> min_password_length (e_opts e) \<le> length password \<and> length password \<le> PASSWORD_MAX"
  by (auto simp: check_password_policy_def validate_password_policy_def split: if_splits)

lemma change_password_effect:
  assumes "session_store_ok (a_sessions s)"
  shows "wp (change_password e ctx target password temporary)
     (\<lambda>_ s'. min_password_length (e_opts e) \<le> length password \<and> length password \<le> PASSWORD_MAX
        \<and> password_stored e (u_id target) password (a_credentials s')
        \<and> set (ss_get_active_sessions (a_sessions s')) =
            {se \<in> set (ss_get_active_sessions (a_sessions s)).
               \<not> (se_user_id se = u_id target \<and> \<not> (ctx_is_self ctx target \<and> own_session ctx se))})
     (\<lambda>_ s'. a_sessions s' = a_sessions s) s"
proof (cases "check_password_policy e (Some password)")
  case (Inr x)
  have sessions: "set (ss_get_active_sessions (a_sessions (snd (revoke_user_sessions e (u_id target) r ac ai ex t))))
      = {se \<in> set (ss_get_active_sessions (a_sessions s)). \<not> (se_user_id se = u_id target \<and> Some (se_id se) \<noteq> ex)}"
    if "a_sessions t = a_sessions s" for r ac ai ex t
    using revoked_set [of t e "u_id target" r ac ai ex] assms that by simp
  show ?thesis
    unfolding change_password_def wp_simps wp_update_user_in_store Inr own_session_def
    using policy_ok [OF Inr] by (simp add: sessions password_stored_set split: sum.split option.split)
qed (simp add: change_password_def wp_simps)

text \<open>
  C7. Changing a password takes effect completely: the new password satisfies the policy and is the one
  that verifies afterwards (and no other, unless the derived keys collide), and every session of the
  user is closed, except the caller's own when users change their own password; the sessions of others
  are not touched.  A refused change closes no session.
\<close>

theorem change_password_takes_effect:
  assumes ok: "session_store_ok (a_sessions s)"
    and b64: "\<And>x. b64decode (e_crypto e) (b64encode (e_crypto e) x) = Some x"
    and alphabet: "\<And>x. CHR ''$'' \<notin> set (b64encode (e_crypto e) x)"
    and len: "\<And>p s n l. length (pbkdf2_hmac (e_crypto e) p s n l) = l"
    and run: "change_password e ctx target password temporary s = (r, s')"
  shows "(is_Inr r \<longrightarrow>
       min_password_length (e_opts e) \<le> length password \<and> length password \<le> PASSWORD_MAX
       \<and> fst (auth_verify_password e (u_id target) password s')
       \<and> set (ss_get_active_sessions (a_sessions s')) =
           {se \<in> set (ss_get_active_sessions (a_sessions s)).
              se_user_id se = u_id target \<longrightarrow> ctx_is_self ctx target \<and> Some (se_id se) = map_option se_id (cx_session ctx)})
    \<and> (\<not> is_Inr r \<longrightarrow> a_sessions s' = a_sessions s)"
proof (cases r)
  case (Inl err)
  then show ?thesis using wp_error [OF change_password_effect [OF ok]] run by (simp add: is_Inr_def)
next
  case (Inr x)
  note eff = wp_result [OF change_password_effect [OF ok] run [unfolded Inr]]
  then obtain salt cr where cr: "dget (a_credentials s') (u_id target) = Some cr"
      "hash_password (e_crypto e) salt password = (cr_password_hash cr, cr_salt cr)"
    by (auto simp: password_stored_def split: option.splits)
  have "verify_password (e_crypto e) password (cr_password_hash cr) (cr_salt cr)"
    using verify_hashed [OF b64 alphabet len cr(2)] by blast
  with cr(1) eff have "fst (auth_verify_password e (u_id target) password s')"
    by (auto simp: auth_verify_password_valid)
  moreover have "{se \<in> set (ss_get_active_sessions (a_sessions s)).
      \<not> (se_user_id se = u_id target \<and> \<not> (ctx_is_self ctx target \<and> own_session ctx se))}
    = {se \<in> set (ss_get_active_sessions (a_sessions s)).
         se_user_id se = u_id target \<longrightarrow> ctx_is_self ctx target \<and> Some (se_id se) = map_option se_id (cx_session ctx)}"
    unfolding own_session_def by blast
  ultimately show ?thesis using eff Inr by (simp add: is_Inr_def)
qed

definition root_changes :: "(api_error + auth_context) \<times> auth" where
  "root_changes = change_password (sample_env 3000) root_context (cx_user root_context) ''battery staple'' None root_state"

theorem change_password_takes_effect_witness:
  "is_Inr (fst root_changes)
   \<and> fst (auth_verify_password (sample_env 3000) (u_id (cx_user root_context)) ''battery staple'' (snd root_changes))"
proof -
  have ok: "session_store_ok (a_sessions root_state)" by code_simp
  have c: "e_crypto (sample_env 3000) = plain_crypto" by (simp add: sample_env_def)
  have r: "is_Inr (fst root_changes)" by code_simp
  have run: "change_password (sample_env 3000) root_context (cx_user root_context) ''battery staple'' None root_state
      = (fst root_changes, snd root_changes)" by (simp add: root_changes_def)
  show ?thesis
    using change_password_takes_effect [OF ok _ _ _ run, unfolded c, OF plain_crypto_laws] r by blast
qed

end
