(* ===== verification/JobStorage.thy ===== *)
theory JobStorage
  imports Prelude
begin

text \<open>
  Job executions, their queries and the in-memory job store of the jobs plugin
  (\<open>qodalis_cli_jobs/in_memory_job_storage_provider.py\<close>, \<open>interval_parser.py\<close> and the records of
  \<open>qodalis_cli_server_abstractions/jobs\<close>).  A time is the UTC instant that \<open>as_utc\<close> gives, in
  microseconds; intervals are whole seconds (the code's floats hold them exactly up to \<open>2^53\<close>).
  The store keeps every execution twice, per job and by id; the invariant \<open>storage_ok\<close> says that
  the two agree, and \<open>job_store\<close> is the contract the scheduler relies on.
\<close>

section \<open>Intervals\<close>

definition unit_seconds :: "char \<Rightarrow> int option" where
  "unit_seconds c =
     (if c = CHR ''s'' then Some 1
      else if c = CHR ''m'' then Some 60
      else if c = CHR ''h'' then Some 3600
      else if c = CHR ''d'' then Some 86400
      else None)"

definition parse_interval :: "string \<Rightarrow> int option" where
  "parse_interval v =
     (let s = py_strip v
      in if s = [] \<or> butlast s = [] \<or> \<not> list_all py_is_digit (butlast s) then None
         else (case (py_digits 0 (butlast s), unit_seconds (last s)) of
                 (Some n, Some k) \<Rightarrow> Some (n * k)
               | _ \<Rightarrow> None))"

text \<open>\<open>parse_interval\<close> reads back what a number and a unit spell.\<close>

definition show_interval :: "nat \<Rightarrow> char \<Rightarrow> string" where
  "show_interval n c = show_nat n @ [c]"

lemma int_of_char: "(of_char c :: int) = int (of_char c)"
  by (simp add: of_nat_of_char)

lemma digit_char: "n < 10 \<Longrightarrow> py_is_digit (char_of (48 + n)) \<and> digit_val (char_of (48 + n)) = int n"
  for n :: nat
proof -
  assume n: "n < 10"
  have e: "(of_char (char_of (48 + n) :: char) :: nat) = 48 + n"
    using n by (simp add: of_char_of)
  with n show ?thesis
    by (simp add: py_is_digit_def digit_val_def Let_def int_of_char)
qed

lemma py_digits_append:
  "list_all py_is_digit xs \<Longrightarrow>
     py_digits acc (xs @ ys) = py_digits (the (py_digits acc xs)) ys \<and> py_digits acc xs \<noteq> None"
  by (induction xs arbitrary: acc) auto

lemma show_nat_digits:
  "list_all py_is_digit (show_nat n) \<and> py_digits 0 (show_nat n) = Some (int n)"
proof (induction n rule: show_nat.induct)
  case (1 n)
  show ?case
  proof (cases "n < 10")
    case True
    then have "show_nat n = [char_of (48 + n)]" by (subst show_nat.simps) simp
    with digit_char [OF True] show ?thesis by simp
  next
    case False
    then have e: "show_nat n = show_nat (n div 10) @ [char_of (48 + n mod 10)]"
      by (subst show_nat.simps) simp
    from 1 [OF False] have ih: "list_all py_is_digit (show_nat (n div 10))"
      "py_digits 0 (show_nat (n div 10)) = Some (int (n div 10))" by auto
    have d: "py_is_digit (char_of (48 + n mod 10))"
      "digit_val (char_of (48 + n mod 10)) = int (n mod 10)"
      using digit_char [of "n mod 10"] by simp_all
    have "int n = 10 * int (n div 10) + int (n mod 10)"
      by (metis mult_div_mod_eq of_nat_add of_nat_mult of_nat_numeral)
    with ih d e show ?thesis
      using py_digits_append [OF ih(1), of 0 "[char_of (48 + n mod 10)]"] by simp
  qed
qed

lemma show_nat_inject [simp]: "show_nat m = show_nat n \<longleftrightarrow> m = n"
  by (metis show_nat_digits option.inject of_nat_eq_iff)

lemma digit_not_space: "py_is_digit c \<Longrightarrow> \<not> py_isspace c"
  by (auto simp: py_is_digit_def py_isspace_def Let_def)

lemma unit_not_space: "unit_seconds c \<noteq> None \<Longrightarrow> \<not> py_isspace c"
  by (auto simp: unit_seconds_def py_isspace_def split: if_splits)

lemma py_strip_id:
  assumes "s \<noteq> []" "\<not> py_isspace (hd s)" "\<not> py_isspace (last s)"
  shows "py_strip s = s"
proof -
  have drop: "dropWhile py_isspace xs = xs" if "xs \<noteq> []" "\<not> py_isspace (hd xs)" for xs
    using that by (cases xs) auto
  with assms have "dropWhile py_isspace s = s" "dropWhile py_isspace (rev s) = rev s"
    by (auto simp: hd_rev)
  then show ?thesis by (simp add: py_strip_def py_strip_chars_def)
qed

text \<open>
  A number and a unit letter, printed one after the other, parse back to that many seconds.
\<close>

theorem parse_interval_roundtrip:
  assumes "unit_seconds c = Some k"
  shows "parse_interval (show_interval n c) = Some (int n * k)"
proof -
  have d: "list_all py_is_digit (show_nat n)" "py_digits 0 (show_nat n) = Some (int n)"
    using show_nat_digits by auto
  have "\<not> py_isspace (hd (show_nat n))"
    using d(1) by (cases "show_nat n") (auto dest: digit_not_space)
  then have "py_strip (show_interval n c) = show_interval n c"
    using assms unit_not_space [of c] by (intro py_strip_id) (auto simp: show_interval_def)
  with d assms show ?thesis
    by (simp add: parse_interval_def show_interval_def Let_def)
qed

theorem parse_interval_roundtrip_witness: "parse_interval (show_interval 90 CHR ''m'') = Some (90 * 60)"
  using parse_interval_roundtrip [of "CHR ''m''" 60 90] by (simp add: unit_seconds_def)

lemma parse_interval_nonneg: "parse_interval v = Some n \<Longrightarrow> 0 \<le> n"
proof -
  have digits: "list_all py_is_digit xs \<Longrightarrow> 0 \<le> acc \<Longrightarrow> py_digits acc xs = Some m \<Longrightarrow> 0 \<le> m"
    for xs :: string and acc m :: int
  proof (induction xs arbitrary: acc)
    case (Cons x xs)
    then have x: "py_is_digit x" by simp
    then have "0 \<le> digit_val x"
      by (simp add: py_is_digit_def digit_val_def Let_def int_of_char)
    with Cons show ?case by (auto intro!: Cons.IH [of "10 * acc + digit_val x"])
  qed auto
  assume "parse_interval v = Some n"
  then show ?thesis
    by (auto simp: parse_interval_def unit_seconds_def Let_def split: if_splits option.splits
        dest!: digits [OF _ order_refl])
qed

text \<open>\<open>repr\<close> of a string, as f-strings write it with \<open>!r\<close>.\<close>

definition hex_digit :: "nat \<Rightarrow> char" where
  "hex_digit n = ''0123456789abcdef'' ! n"

definition py_repr_char :: "char \<Rightarrow> char \<Rightarrow> string" where
  "py_repr_char q c =
     (let n = (of_char c :: nat)
      in if c = q \<or> n = 92 then [CHR 0x5C, c]
         else if n = 9 then [CHR 0x5C, CHR ''t'']
         else if n = 10 then [CHR 0x5C, CHR ''n'']
         else if n = 13 then [CHR 0x5C, CHR ''r'']
         else if n < 32 \<or> (127 \<le> n \<and> n \<le> 160) \<or> n = 173
         then [CHR 0x5C, CHR ''x'', hex_digit (n div 16), hex_digit (n mod 16)]
         else [c])"

definition py_repr :: "string \<Rightarrow> string" where
  "py_repr s =
     (let q = (if CHR 0x27 \<in> set s \<and> CHR 0x22 \<notin> set s then CHR 0x22 else CHR 0x27)
      in [q] @ concat (map (py_repr_char q) s) @ [q])"

definition invalid_interval_message :: "string \<Rightarrow> string" where
  "invalid_interval_message v =
     ''Invalid interval format: '' @ py_repr v
     @ ''. Expected a number followed by s, m, h, or d (e.g. '' @ py_repr ''30s'' @ '', '' @ py_repr ''5m'' @ '').''"

section \<open>Executions, states and queries\<close>

record job_log =
  jl_timestamp :: int
  jl_level :: string
  jl_message :: string

record job_execution =
  je_id :: string
  je_job_id :: string
  je_job_name :: string
  je_status :: string
  je_started_at :: int
  je_completed_at :: "int option"
  je_duration :: "int option"
  je_error :: "string option"
  je_logs :: "job_log list"
  je_retry_attempt :: nat
  je_properties :: "(string \<times> json) list"

record job_state =
  js_status :: string
  js_last_run_at :: "int option"
  js_updated_at :: int

record job_query =
  jq_job_ids :: "string list option"
  jq_status :: "string option"
  jq_since :: "int option"
  jq_limit :: nat
  jq_offset :: nat

text \<open>\<open>if value:\<close> for an optional string.\<close>

definition given :: "string option \<Rightarrow> bool" where
  "given v = (case v of None \<Rightarrow> False | Some s \<Rightarrow> s \<noteq> [])"

definition query_matches :: "job_query \<Rightarrow> job_execution \<Rightarrow> bool" where
  "query_matches q e =
     ((case jq_job_ids q of None \<Rightarrow> True | Some ids \<Rightarrow> je_job_id e \<in> set ids)
      \<and> (case jq_status q of None \<Rightarrow> True
         | Some st \<Rightarrow> st = [] \<or> py_lower (je_status e) = py_lower st)
      \<and> (case jq_since q of None \<Rightarrow> True | Some t \<Rightarrow> \<not> je_started_at e < t))"

text \<open>\<open>sort(key=started_at, reverse=True)\<close> is stable: equal start times keep their order.\<close>

definition newest_started :: "job_execution list \<Rightarrow> job_execution list" where
  "newest_started es = sort_key (\<lambda>e. - je_started_at e) es"

text \<open>\<open>dict.fromkeys(ids)\<close>: the first occurrence of each id.\<close>

definition from_keys :: "'a list \<Rightarrow> 'a list" where
  "from_keys xs = rev (remdups (rev xs))"

definition MAX_PAGE :: nat where
  "MAX_PAGE = 2147483647"

text \<open>
  \<open>JobExecutionQuery.merge\<close>: \<open>list_job job page status\<close> is the per-job listing of the store.
\<close>

definition merge_job ::
    "job_query \<Rightarrow> (string \<Rightarrow> nat \<Rightarrow> string option \<Rightarrow> job_execution list \<times> nat) \<Rightarrow> string
     \<Rightarrow> job_execution list \<times> nat" where
  "merge_job q list_job job_id =
     (let page = (case jq_since q of None \<Rightarrow> jq_offset q + jq_limit q | Some _ \<Rightarrow> MAX_PAGE);
          status = (if given (jq_status q) then map_option py_lower (jq_status q) else None);
          (items, count) = list_job job_id page status
      in case jq_since q of
           None \<Rightarrow> (items, count)
         | Some since \<Rightarrow>
             (let matching = filter (\<lambda>e. je_started_at e \<ge> since) items
              in (matching, length matching)))"

definition merge ::
    "job_query \<Rightarrow> string list \<Rightarrow> (string \<Rightarrow> nat \<Rightarrow> string option \<Rightarrow> job_execution list \<times> nat)
     \<Rightarrow> job_execution list \<times> nat" where
  "merge q job_ids list_job =
     (let parts = map (merge_job q list_job) (from_keys job_ids);
          merged = concat (map fst parts);
          total = sum_list (map snd parts)
      in (py_slice (jq_offset q) (jq_offset q + jq_limit q) (newest_started merged), total))"

section \<open>The in-memory store\<close>

record job_storage =
  st_executions :: "(string, job_execution list) dict"
  st_by_id :: "(string, job_execution) dict"
  st_states :: "(string, job_state) dict"

definition new_job_storage :: job_storage where
  "new_job_storage = \<lparr>st_executions = [], st_by_id = [], st_states = []\<rparr>"

definition job_list :: "string \<Rightarrow> job_storage \<Rightarrow> job_execution list" where
  "job_list job_id s = (case dget (st_executions s) job_id of None \<Rightarrow> [] | Some es \<Rightarrow> es)"

text \<open>The loop of \<open>save_execution\<close>: \<open>Some\<close> the list with the execution in its old place.\<close>

fun replace_execution :: "job_execution \<Rightarrow> job_execution list \<Rightarrow> job_execution list option" where
  "replace_execution e [] = None"
| "replace_execution e (x # xs) =
     (if je_id x = je_id e then Some (e # xs) else map_option ((#) x) (replace_execution e xs))"

definition put_execution :: "job_execution \<Rightarrow> job_execution list \<Rightarrow> job_execution list" where
  "put_execution e es = (case replace_execution e es of Some es' \<Rightarrow> es' | None \<Rightarrow> e # es)"

definition save_execution :: "job_execution \<Rightarrow> job_storage \<Rightarrow> job_storage" where
  "save_execution e s =
     s\<lparr>st_by_id := dset (je_id e) e (st_by_id s),
       st_executions := dset (je_job_id e) (put_execution e (job_list (je_job_id e) s)) (st_executions s)\<rparr>"

definition get_executions ::
    "string \<Rightarrow> nat \<Rightarrow> nat \<Rightarrow> string option \<Rightarrow> job_storage \<Rightarrow> job_execution list \<times> nat" where
  "get_executions job_id limit offset status s =
     (let all_items = job_list job_id s;
          items = (if given status then filter (\<lambda>e. Some (je_status e) = status) all_items else all_items)
      in (py_slice offset (offset + limit) items, length items))"

definition query_executions :: "job_query \<Rightarrow> job_storage \<Rightarrow> job_execution list \<times> nat" where
  "query_executions q s =
     (let matches = newest_started (filter (query_matches q) (dvalues (st_by_id s)))
      in (py_slice (jq_offset q) (jq_offset q + jq_limit q) matches, length matches))"

definition storage_delete :: "string \<Rightarrow> job_storage \<Rightarrow> bool \<times> job_storage" where
  "storage_delete execution_id s =
     (case dget (st_by_id s) execution_id of
        None \<Rightarrow> (False, s)
      | Some e \<Rightarrow>
          (True, s\<lparr>st_by_id := dpop execution_id (st_by_id s),
                   st_executions :=
                     map (\<lambda>(k, es). (k, if k = je_job_id e
                                        then filter (\<lambda>x. je_id x \<noteq> execution_id) es else es))
                       (st_executions s)\<rparr>))"

definition storage_prune :: "int \<Rightarrow> job_storage \<Rightarrow> nat \<times> job_storage" where
  "storage_prune before s =
     (let old = map je_id (filter (\<lambda>e. je_started_at e < before) (dvalues (st_by_id s)))
      in (length old, fold (\<lambda>i s. snd (storage_delete i s)) old s))"

definition get_execution :: "string \<Rightarrow> job_storage \<Rightarrow> job_execution option" where
  "get_execution execution_id s = dget (st_by_id s) execution_id"

definition save_job_state :: "string \<Rightarrow> job_state \<Rightarrow> job_storage \<Rightarrow> job_storage" where
  "save_job_state job_id st s = s\<lparr>st_states := dset job_id st (st_states s)\<rparr>"

definition get_job_state :: "string \<Rightarrow> job_storage \<Rightarrow> job_state option" where
  "get_job_state job_id s = dget (st_states s) job_id"

definition get_all_job_states :: "job_storage \<Rightarrow> (string, job_state) dict" where
  "get_all_job_states s = st_states s"

section \<open>The two indexes agree\<close>

definition storage_ok :: "job_storage \<Rightarrow> bool" where
  "storage_ok s \<longleftrightarrow>
     dict_ok (st_by_id s) \<and> dict_ok (st_executions s)
     \<and> (\<forall>i e. dget (st_by_id s) i = Some e \<longrightarrow> je_id e = i)
     \<and> (\<forall>j. distinct (map je_id (job_list j s)))
     \<and> (\<forall>j e. e \<in> set (job_list j s) \<longleftrightarrow> je_job_id e = j \<and> get_execution (je_id e) s = Some e)"

lemma storage_ok_new [simp]: "storage_ok new_job_storage"
  by (simp add: storage_ok_def new_job_storage_def job_list_def get_execution_def)

lemma storage_okD:
  assumes "storage_ok s"
  shows "e \<in> set (job_list j s) \<longleftrightarrow> je_job_id e = j \<and> get_execution (je_id e) s = Some e"
    and "get_execution i s = Some e \<Longrightarrow> je_id e = i"
    and "distinct (map je_id (job_list j s))"
  using assms unfolding storage_ok_def get_execution_def by blast+

lemma replace_execution_None: "replace_execution e es = None \<longleftrightarrow> je_id e \<notin> je_id ` set es"
  by (induction es) auto

lemma replace_execution_Some:
  "replace_execution e es = Some es' \<Longrightarrow>
     map je_id es' = map je_id es
     \<and> (distinct (map je_id es) \<longrightarrow> set es' = insert e {x \<in> set es. je_id x \<noteq> je_id e})"
proof (induction es arbitrary: es')
  case (Cons x es)
  show ?case
  proof (cases "je_id x = je_id e")
    case True
    with Cons.prems show ?thesis by (auto simp: rev_image_eqI)
  next
    case False
    with Cons.prems obtain ys where ys: "replace_execution e es = Some ys" "es' = x # ys"
      by auto
    with Cons.IH [OF ys(1)] False show ?thesis by auto
  qed
qed simp

lemma put_execution_set:
  "distinct (map je_id es) \<Longrightarrow> set (put_execution e es) = insert e {x \<in> set es. je_id x \<noteq> je_id e}"
  by (auto simp: put_execution_def replace_execution_None image_iff split: option.split
      dest!: replace_execution_Some)

lemma put_execution_distinct:
  "distinct (map je_id es) \<Longrightarrow> distinct (map je_id (put_execution e es))"
  by (auto simp: put_execution_def replace_execution_None split: option.split
      dest!: replace_execution_Some)

lemma job_list_save:
  "job_list j (save_execution e s) =
     (if j = je_job_id e then put_execution e (job_list j s) else job_list j s)"
  by (simp add: job_list_def save_execution_def dget_dset)

lemma get_execution_save:
  "get_execution i (save_execution e s) = (if i = je_id e then Some e else get_execution i s)"
  by (simp add: get_execution_def save_execution_def dget_dset)

text \<open>A run keeps its job: what \<open>save_execution\<close> may replace belongs to the same job.\<close>

definition same_job :: "job_execution \<Rightarrow> job_execution option \<Rightarrow> bool" where
  "same_job e old = (case old of None \<Rightarrow> True | Some x \<Rightarrow> je_job_id x = je_job_id e)"

lemma storage_ok_save:
  assumes ok: "storage_ok s" and same: "same_job e (get_execution (je_id e) s)"
  shows "storage_ok (save_execution e s)"
proof -
  have dicts: "dict_ok (st_by_id (save_execution e s))" "dict_ok (st_executions (save_execution e s))"
    using ok by (simp_all add: storage_ok_def save_execution_def)
  have ids: "get_execution i (save_execution e s) = Some x \<Longrightarrow> je_id x = i" for i x
    using storage_okD(2) [OF ok] by (auto simp: get_execution_save split: if_splits)
  have d: "distinct (map je_id (job_list j (save_execution e s)))" for j
    using storage_okD(3) [OF ok] by (simp add: job_list_save put_execution_distinct)
  have mem: "x \<in> set (job_list j (save_execution e s))
      \<longleftrightarrow> je_job_id x = j \<and> get_execution (je_id x) (save_execution e s) = Some x" for j x
    using same by (auto simp: job_list_save get_execution_save put_execution_set
        storage_okD(1) [OF ok] storage_okD(3) [OF ok] same_job_def split: option.splits if_splits)
  from dicts ids d mem show ?thesis
    unfolding storage_ok_def get_execution_def by blast
qed

lemma map_of_map_value: "map_of (map (\<lambda>(k, v). (k, f k v)) d) k = map_option (f k) (map_of d k)"
  by (induction d) auto

lemma get_execution_delete:
  "get_execution k (snd (storage_delete i s)) = (if k = i then None else get_execution k s)"
  by (auto simp: storage_delete_def get_execution_def dget_dpop split: option.split)

lemma storage_delete_found: "fst (storage_delete i s) \<longleftrightarrow> get_execution i s \<noteq> None"
  by (simp add: storage_delete_def get_execution_def split: option.split)

lemma job_list_delete:
  assumes "storage_ok s"
  shows "job_list j (snd (storage_delete i s)) = filter (\<lambda>x. je_id x \<noteq> i) (job_list j s)"
proof (cases "get_execution i s")
  case None
  then have "\<forall>x \<in> set (job_list j s). je_id x \<noteq> i"
    using storage_okD(1) [OF assms] by fastforce
  with None show ?thesis
    by (simp add: storage_delete_def get_execution_def filter_id_conv)
next
  case (Some e)
  have other: "j \<noteq> je_job_id e \<Longrightarrow> filter (\<lambda>x. je_id x \<noteq> i) (job_list j s) = job_list j s"
    using storage_okD(1) [OF assms] Some by (fastforce simp: filter_id_conv)
  have "job_list j (snd (storage_delete i s)) =
      (if j = je_job_id e then filter (\<lambda>x. je_id x \<noteq> i) (job_list j s) else job_list j s)"
    using Some by (cases "map_of (st_executions s) j")
      (auto simp: storage_delete_def get_execution_def job_list_def map_of_map_value)
  with other show ?thesis by simp
qed

lemma storage_ok_delete:
  assumes ok: "storage_ok s"
  shows "storage_ok (snd (storage_delete i s))"
proof -
  have dicts: "dict_ok (st_by_id (snd (storage_delete i s)))"
      "dict_ok (st_executions (snd (storage_delete i s)))"
    using ok by (auto simp: storage_ok_def storage_delete_def dict_ok_def case_prod_beta' comp_def
        distinct_delete split: option.split)
  have ids: "get_execution k (snd (storage_delete i s)) = Some x \<Longrightarrow> je_id x = k" for k x
    using storage_okD(2) [OF ok] by (auto simp: get_execution_delete split: if_splits)
  have d: "distinct (map je_id (job_list j (snd (storage_delete i s))))" for j
    using storage_okD(3) [OF ok, of j] by (simp add: job_list_delete [OF ok] distinct_map_filter)
  have mem: "x \<in> set (job_list j (snd (storage_delete i s)))
      \<longleftrightarrow> je_job_id x = j \<and> get_execution (je_id x) (snd (storage_delete i s)) = Some x" for j x
    by (auto simp: job_list_delete [OF ok] get_execution_delete storage_okD(1) [OF ok])
  from dicts ids d mem show ?thesis
    unfolding storage_ok_def get_execution_def by blast
qed

lemma storage_ok_state [simp]: "storage_ok (save_job_state j st s) = storage_ok s"
  by (simp add: storage_ok_def save_job_state_def job_list_def get_execution_def)

lemma storage_ok_prune_fold:
  "storage_ok s \<Longrightarrow> storage_ok (fold (\<lambda>i s. snd (storage_delete i s)) is s)
     \<and> get_execution k (fold (\<lambda>i s. snd (storage_delete i s)) is s)
       = (if k \<in> set is then None else get_execution k s)"
  by (induction "is" arbitrary: s) (auto simp: storage_ok_delete get_execution_delete)

lemma by_id_values:
  "storage_ok s \<Longrightarrow> e \<in> set (dvalues (st_by_id s)) \<longleftrightarrow> get_execution (je_id e) s = Some e"
  unfolding storage_ok_def get_execution_def by (metis set_dvalues)

text \<open>What is stored, as a map from ids to executions: the abstract job history.\<close>

definition history :: "job_storage \<Rightarrow> string \<Rightarrow> job_execution option" where
  "history s = (\<lambda>i. get_execution i s)"

lemma job_storage_refine_save:
  assumes "storage_ok s" "same_job e (history s (je_id e))"
  shows "storage_ok (save_execution e s) \<and> history (save_execution e s) = (history s)(je_id e \<mapsto> e)"
  using assms storage_ok_save by (auto simp: history_def get_execution_save)

text \<open>
  C20. The two-index store implements a plain map from ids to executions: saving updates it,
  deleting and pruning remove from it, and the indexes keep agreeing; the history of a job lists
  exactly the executions of that job, each once.
\<close>

theorem job_storage_refines_map:
  assumes ok: "storage_ok s"
  shows "(same_job e (history s (je_id e)) \<longrightarrow>
           storage_ok (save_execution e s) \<and> history (save_execution e s) = (history s)(je_id e \<mapsto> e))
    \<and> (storage_ok (snd (storage_delete i s))
         \<and> history (snd (storage_delete i s)) = (history s)(i := None)
         \<and> fst (storage_delete i s) = (history s i \<noteq> None))
    \<and> (storage_ok (snd (storage_prune t s))
         \<and> history (snd (storage_prune t s))
           = (\<lambda>k. case history s k of None \<Rightarrow> None
                | Some x \<Rightarrow> if je_started_at x < t then None else Some x))
    \<and> (distinct (map je_id (job_list j s))
         \<and> (\<forall>x. x \<in> set (job_list j s) \<longleftrightarrow> je_job_id x = j \<and> history s (je_id x) = Some x))"
proof (rule conjI [OF impI conjI [OF _ conjI]])
  show "same_job e (history s (je_id e)) \<Longrightarrow>
      storage_ok (save_execution e s) \<and> history (save_execution e s) = (history s)(je_id e \<mapsto> e)"
    by (rule job_storage_refine_save [OF ok])
  show "storage_ok (snd (storage_delete i s))
      \<and> history (snd (storage_delete i s)) = (history s)(i := None)
      \<and> fst (storage_delete i s) = (history s i \<noteq> None)"
    using storage_ok_delete [OF ok]
    by (auto simp: history_def get_execution_delete storage_delete_found)
  let ?old = "map je_id (filter (\<lambda>e. je_started_at e < t) (dvalues (st_by_id s)))"
  have old: "k \<in> set ?old \<longleftrightarrow> (\<exists>x. get_execution k s = Some x \<and> je_started_at x < t)" for k
    using by_id_values [OF ok] storage_okD(2) [OF ok] by (auto simp: image_iff)
  have "history (snd (storage_prune t s)) k
      = (case history s k of None \<Rightarrow> None | Some x \<Rightarrow> if je_started_at x < t then None else Some x)" for k
    using storage_ok_prune_fold [OF ok, of "?old" k] old [of k]
    by (auto simp: history_def storage_prune_def Let_def split: option.split)
  then show "storage_ok (snd (storage_prune t s))
      \<and> history (snd (storage_prune t s))
        = (\<lambda>k. case history s k of None \<Rightarrow> None
             | Some x \<Rightarrow> if je_started_at x < t then None else Some x)"
    using storage_ok_prune_fold [OF ok, of "?old"] by (auto simp: storage_prune_def Let_def)
  show "distinct (map je_id (job_list j s))
      \<and> (\<forall>x. x \<in> set (job_list j s) \<longleftrightarrow> je_job_id x = j \<and> history s (je_id x) = Some x)"
    using storage_okD [OF ok] by (simp add: history_def)
qed

definition sample_run :: "string \<Rightarrow> string \<Rightarrow> string \<Rightarrow> int \<Rightarrow> job_execution" where
  "sample_run i j st t =
     \<lparr>je_id = i, je_job_id = j, je_job_name = j, je_status = st, je_started_at = t,
      je_completed_at = None, je_duration = None, je_error = None, je_logs = [],
      je_retry_attempt = 0, je_properties = []\<rparr>"

definition sample_storage :: job_storage where
  "sample_storage =
     save_execution (sample_run ''e3'' ''mail'' ''running'' 30)
       (save_execution (sample_run ''e2'' ''mail'' ''failed'' 20)
         (save_execution (sample_run ''e1'' ''mail'' ''completed'' 10) new_job_storage))"

lemma sample_storage_ok: "storage_ok sample_storage"
  unfolding sample_storage_def
  by (intro storage_ok_save storage_ok_new)
    (simp_all add: same_job_def get_execution_def save_execution_def new_job_storage_def sample_run_def)

theorem job_storage_refines_map_witness:
  "history (save_execution (sample_run ''e2'' ''mail'' ''completed'' 20) sample_storage)
     = (history sample_storage)(''e2'' \<mapsto> sample_run ''e2'' ''mail'' ''completed'' 20)
   \<and> map je_id (job_list ''mail'' sample_storage) = [''e3'', ''e2'', ''e1'']"
proof -
  let ?e = "sample_run ''e2'' ''mail'' ''completed'' 20"
  have "same_job ?e (history sample_storage (je_id ?e))"
    by (simp add: same_job_def history_def get_execution_def sample_storage_def save_execution_def
        new_job_storage_def sample_run_def)
  from job_storage_refines_map [OF sample_storage_ok, THEN conjunct1, THEN mp, OF this]
  have "history (save_execution ?e sample_storage) = (history sample_storage)(''e2'' \<mapsto> ?e)"
    by (simp add: sample_run_def)
  moreover have "map je_id (job_list ''mail'' sample_storage) = [''e3'', ''e2'', ''e1'']"
    by (simp add: sample_storage_def job_list_def save_execution_def new_job_storage_def
        put_execution_def sample_run_def)
  ultimately show ?thesis by simp
qed

section \<open>Merging per-job listings\<close>

lemma from_keys_props: "set (from_keys xs) = set xs" "distinct (from_keys xs)"
  by (simp_all add: from_keys_def)

lemma newest_started_simps [simp]:
  "set (newest_started es) = set es"
  "length (newest_started es) = length es"
  by (simp_all add: newest_started_def)

text \<open>
  Lists of executions with pairwise different start times are sorted in one way only.
\<close>

lemma newest_started_unique:
  assumes "set xs = set ys" "distinct xs" "distinct ys" "inj_on je_started_at (set xs)"
  shows "newest_started xs = newest_started ys"
proof -
  have inj: "inj_on (\<lambda>e. - je_started_at e) (set xs)"
    using assms(4) by (auto simp: inj_on_def)
  have dist: "distinct (map (\<lambda>e. - je_started_at e) (newest_started zs))" if "set zs = set xs" "distinct zs" for zs
    using that inj by (simp add: distinct_map newest_started_def)
  show ?thesis
    using assms dist [of xs] dist [of ys] inj
    by (intro map_sorted_distinct_set_unique [where f = "\<lambda>e. - je_started_at e"])
      (simp_all add: newest_started_def)
qed

text \<open>The first \<open>k\<close> of a sorted merge need only the first \<open>k\<close> of a sorted part.\<close>

lemma sorted_take_filter:
  assumes "sorted (map f xs)" "x \<in> set (drop k xs)"
  shows "k \<le> length (filter (\<lambda>y. f y \<le> f x) (take k xs))"
proof -
  have "sorted (map f (take k xs @ drop k xs))" using assms(1) by simp
  then have "\<forall>y \<in> set (take k xs). f y \<le> f x"
    using assms(2) unfolding map_append sorted_append by auto
  moreover have "k < length xs" using assms(2) by (cases "k < length xs") auto
  ultimately show ?thesis by simp
qed

lemma sort_take_unique:
  fixes f :: "'a \<Rightarrow> int"
  assumes "distinct as" "inj_on f (set as)" "set bs \<subseteq> set as" "distinct bs"
    and missing: "\<And>x. x \<in> set as \<Longrightarrow> x \<notin> set bs \<Longrightarrow> k \<le> length (filter (\<lambda>y. f y < f x) bs)"
  shows "take k (sort_key f bs) = take k (sort_key f as)"
proof -
  let ?b = "sort_key f bs"
  let ?m = "filter (\<lambda>x. x \<notin> set bs) as"
  have len: "length ?b \<ge> k" if "?m \<noteq> []"
  proof -
    from that obtain x where "x \<in> set as" "x \<notin> set bs"
      by (metis filter_False)
    from missing [OF this] show ?thesis
      by (metis length_filter_le length_sort order_trans)
  qed
  have low: "f y < f x" if x: "x \<in> set ?m" and y: "y \<in> set (take k ?b)" for x y
  proof (rule ccontr)
    assume "\<not> f y < f x"
    then have ge: "f x \<le> f y" by simp
    obtain i where i: "i < k" "i < length ?b" "?b ! i = y"
      using y by (auto simp: in_set_conv_nth)
    have srt: "sorted (map f ?b)" by simp
    have "{z \<in> set ?b. f z < f x} \<subseteq> set (take i ?b)"
    proof
      fix z assume z: "z \<in> {z \<in> set ?b. f z < f x}"
      then obtain j where j: "j < length ?b" "?b ! j = z"
        unfolding mem_Collect_eq in_set_conv_nth by blast
      have "j < i"
      proof (rule ccontr)
        assume "\<not> j < i"
        then have "f (?b ! i) \<le> f (?b ! j)"
          using sorted_nth_mono [OF srt, of i j] j(1) by simp
        with z ge i j show False by simp
      qed
      with j show "z \<in> set (take i ?b)"
        by (auto simp: in_set_conv_nth intro!: exI [of _ j])
    qed
    then have "card {z \<in> set ?b. f z < f x} \<le> i"
      by (metis (lifting) List.finite_set card_length card_mono length_take min.bounded_iff order_trans)
    moreover have "length (filter (\<lambda>z. f z < f x) bs) = card {z \<in> set ?b. f z < f x}"
      using assms(4) by (metis (no_types, lifting) Collect_cong distinct_card distinct_filter set_filter set_sort)
    moreover have "k \<le> length (filter (\<lambda>z. f z < f x) bs)"
      using missing x by simp
    ultimately show False using i(1) by simp
  qed
  have split: "sort_key f as = sort_key f (bs @ ?m)"
  proof (rule map_sorted_distinct_set_unique [where f = f])
    show "inj_on f (set (sort_key f as) \<union> set (sort_key f (bs @ ?m)))"
      using assms(2,3) by (simp add: Un_absorb2 subset_iff inj_on_def)
    show "distinct (map f (sort_key f as))"
      using assms(1,2) by (simp add: distinct_map)
    show "distinct (map f (sort_key f (bs @ ?m)))"
      using assms by (auto simp: distinct_map inj_on_def subset_iff)
    show "set (sort_key f as) = set (sort_key f (bs @ ?m))"
      using assms(3) by auto
  qed simp_all
  have eq: "sort_key f (bs @ ?m) = take k ?b @ sort_key f (drop k ?b @ ?m)"
  proof (rule map_sorted_distinct_set_unique [where f = f])
    have sets: "set (take k ?b) \<union> set (drop k ?b) = set bs"
      by (metis append_take_drop_id set_append set_sort)
    show "inj_on f (set (sort_key f (bs @ ?m)) \<union> set (take k ?b @ sort_key f (drop k ?b @ ?m)))"
      using assms(2,3) sets by (auto simp: inj_on_def subset_iff)
    have "sorted (map f (take k ?b @ drop k ?b))" by simp
    then have "sorted (map f (take k ?b))" "\<forall>y \<in> set (take k ?b). \<forall>x \<in> set (drop k ?b). f y \<le> f x"
      unfolding map_append sorted_append by auto
    with low show "sorted (map f (take k ?b @ sort_key f (drop k ?b @ ?m)))"
      by (fastforce simp: sorted_append)
    have db: "distinct (take k ?b @ drop k ?b)" using assms(4) by simp
    show "distinct (map f (sort_key f (bs @ ?m)))"
      using assms by (auto simp: distinct_map inj_on_def subset_iff)
    have "distinct (take k ?b @ sort_key f (drop k ?b @ ?m))"
      using db sets assms(1) unfolding distinct_append by auto
    then show "distinct (map f (take k ?b @ sort_key f (drop k ?b @ ?m)))"
      using assms(2,3) sets unfolding distinct_map by (auto simp: inj_on_def subset_iff)
    show "set (sort_key f (bs @ ?m)) = set (take k ?b @ sort_key f (drop k ?b @ ?m))"
      using sets by auto
  qed simp
  show ?thesis
  proof (cases "?m = []")
    case True
    then show ?thesis using split by simp
  next
    case False
    then show ?thesis using split eq len by simp
  qed
qed

lemma distinct_values: "storage_ok s \<Longrightarrow> distinct (dvalues (st_by_id s))"
proof -
  assume ok: "storage_ok s"
  then have "\<forall>p \<in> set (st_by_id s). je_id (snd p) = fst p"
    by (auto simp: storage_ok_def dget_in)
  then have "map je_id (dvalues (st_by_id s)) = map fst (st_by_id s)"
    by (simp add: dvalues_def)
  with ok show ?thesis
    by (metis dict_ok_def distinct_map storage_ok_def)
qed

text \<open>What a job contributes to a query, and the hypotheses under which reading a page suffices.\<close>

definition job_matches :: "job_query \<Rightarrow> job_storage \<Rightarrow> string \<Rightarrow> job_execution list" where
  "job_matches q s j = filter (query_matches q) (job_list j s)"

definition history_sorted :: "job_storage \<Rightarrow> bool" where
  "history_sorted s \<longleftrightarrow>
     (\<forall>j. sorted (map (\<lambda>e. - je_started_at e) (job_list j s)) \<and> length (job_list j s) \<le> MAX_PAGE)
     \<and> inj_on je_started_at (set (dvalues (st_by_id s)))
     \<and> (\<forall>e \<in> set (dvalues (st_by_id s)). py_lower (je_status e) = je_status e)"

definition list_from :: "job_storage \<Rightarrow> string \<Rightarrow> nat \<Rightarrow> string option \<Rightarrow> job_execution list \<times> nat" where
  "list_from s j n st = get_executions j n 0 st s"

lemma status_filter:
  assumes ok: "storage_ok s" and srt: "history_sorted s" and e: "e \<in> set (job_list j s)"
  shows "(if given st then Some (je_status e) = map_option py_lower st else True)
    = (case st of None \<Rightarrow> True | Some t \<Rightarrow> t = [] \<or> py_lower (je_status e) = py_lower t)"
proof -
  have "e \<in> set (dvalues (st_by_id s))"
    using ok e by (simp add: by_id_values storage_okD(1))
  with srt have "py_lower (je_status e) = je_status e" by (simp add: history_sorted_def)
  then show ?thesis by (auto simp: given_def split: option.split)
qed

lemma merge_job_effect:
  assumes ok: "storage_ok s" and srt: "history_sorted s"
    and ids: "jq_job_ids q = Some is" "j \<in> set is"
  shows "merge_job q (list_from s) j =
    (case jq_since q of None \<Rightarrow> take (jq_offset q + jq_limit q) (job_matches q s j)
     | Some _ \<Rightarrow> job_matches q s j, length (job_matches q s j))"
proof -
  let ?st = "if given (jq_status q) then map_option py_lower (jq_status q) else None"
  let ?items = "filter (\<lambda>e. if given (jq_status q) then Some (je_status e) = map_option py_lower (jq_status q) else True) (job_list j s)"
  have given_st: "given ?st = given (jq_status q)"
    by (auto simp: given_def split: option.split)
  have page: "list_from s j n ?st = (take n ?items, length ?items)" for n
    unfolding list_from_def get_executions_def given_st by (simp add: py_slice_def Let_def)
  have mem: "je_job_id e \<in> set is" if "e \<in> set (job_list j s)" for e
    using that ids(2) by (simp add: storage_okD(1) [OF ok])
  have items: "?items = filter (\<lambda>e. case jq_status q of None \<Rightarrow> True
      | Some t \<Rightarrow> t = [] \<or> py_lower (je_status e) = py_lower t) (job_list j s)"
    by (rule filter_cong [OF refl]) (rule status_filter [OF ok srt])
  show ?thesis
  proof (cases "jq_since q")
    case None
    then have "?items = job_matches q s j"
      unfolding items job_matches_def using ids(1) mem
      by (intro filter_cong) (auto simp: query_matches_def)
    with None page show ?thesis by (simp add: merge_job_def Let_def)
  next
    case (Some t)
    have "length ?items \<le> MAX_PAGE"
      using srt length_filter_le [of _ "job_list j s"] unfolding history_sorted_def
      by (meson order_trans)
    then have all: "list_from s j MAX_PAGE ?st = (?items, length ?items)"
      using page by simp
    have "filter (\<lambda>e. je_started_at e \<ge> t) ?items = job_matches q s j"
      unfolding items job_matches_def filter_filter using ids(1) mem Some
      by (intro filter_cong) (auto simp: query_matches_def not_less)
    with Some all show ?thesis by (simp add: merge_job_def Let_def)
  qed
qed

lemma matches_of_jobs:
  assumes ok: "storage_ok s" and ids: "jq_job_ids q = Some is"
  shows "set (concat (map (job_matches q s) (from_keys is)))
      = set (filter (query_matches q) (dvalues (st_by_id s)))"
    and "distinct (concat (map (job_matches q s) (from_keys is)))"
proof -
  show "set (concat (map (job_matches q s) (from_keys is)))
      = set (filter (query_matches q) (dvalues (st_by_id s)))"
    using ids by (auto simp: job_matches_def by_id_values [OF ok] storage_okD(1) [OF ok]
        from_keys_props query_matches_def)
  have d: "distinct (job_list j s)" for j
    using storage_okD(3) [OF ok] by (metis distinct_map)
  have "distinct (concat (map (job_matches q s) js))" if "distinct js" for js
    using that by (induction js) (auto simp: job_matches_def d storage_okD(1) [OF ok])
  then show "distinct (concat (map (job_matches q s) (from_keys is)))"
    by (simp add: from_keys_props)
qed

lemma distinct_take_parts:
  "distinct (concat (map f js)) \<Longrightarrow> distinct (concat (map (\<lambda>j. take k (f j)) js))"
  by (induction js) (auto dest: in_set_takeD)

lemma drop_slice: "take k xs = take k ys \<Longrightarrow> py_slice a k xs = py_slice a k ys"
  by (metis drop_take py_slice_def)

lemma filter_part_length:
  "j \<in> set js \<Longrightarrow> length (filter p (g j)) \<le> length (filter p (concat (map g js)))"
  by (induction js) auto

text \<open>
  The generic query, which merges one page per job, answers what the store's own query
  answers, page and total, on a history whose jobs are listed newest first.
\<close>

theorem merge_equals_query:
  assumes ok: "storage_ok s" and srt: "history_sorted s" and ids: "jq_job_ids q = Some is"
  shows "merge q is (list_from s) = query_executions q s"
proof -
  let ?k = "jq_offset q + jq_limit q"
  let ?js = "from_keys is"
  let ?as = "filter (query_matches q) (dvalues (st_by_id s))"
  let ?all = "concat (map (job_matches q s) ?js)"
  let ?part = "\<lambda>j. case jq_since q of None \<Rightarrow> take ?k (job_matches q s j) | Some _ \<Rightarrow> job_matches q s j"
  let ?bs = "concat (map ?part ?js)"
  let ?f = "\<lambda>e. - je_started_at e"
  have parts: "map (merge_job q (list_from s)) ?js = map (\<lambda>j. (?part j, length (job_matches q s j))) ?js"
    using merge_job_effect [OF ok srt ids] by (simp add: from_keys_props)
  note all = matches_of_jobs [OF ok ids]
  have das: "distinct ?as" using distinct_values [OF ok] by simp
  have inj: "inj_on ?f (set ?as)"
    using srt by (auto simp: history_sorted_def inj_on_def)
  have lens: "sum_list (map (\<lambda>j. length (job_matches q s j)) ?js) = length ?all"
    by (simp add: length_concat comp_def)
  have total: "length ?all = length ?as"
    using all das by (metis distinct_card)
  have sub: "set ?bs \<subseteq> set ?as"
    unfolding all(1) [symmetric] by (force split: option.splits dest: in_set_takeD)
  have dbs: "distinct ?bs"
    using all(2) distinct_take_parts by (cases "jq_since q") auto
  have missing: "?k \<le> length (filter (\<lambda>y. ?f y < ?f x) ?bs)" if x: "x \<in> set ?as" "x \<notin> set ?bs" for x
  proof (cases "jq_since q")
    case (Some t)
    then have "set ?bs = set ?as" unfolding all(1) [symmetric] by simp
    with x show ?thesis by blast
  next
    case None
    from x(1) obtain j where j: "j \<in> set ?js" "x \<in> set (job_matches q s j)"
      unfolding all(1) [symmetric] by auto
    let ?F = "job_matches q s j"
    have notin: "x \<notin> set (take ?k ?F)" using x(2) j(1) None by auto
    with j(2) have "x \<in> set (drop ?k ?F)"
      by (metis Un_iff append_take_drop_id set_append)
    moreover have "sorted (map ?f ?F)"
      using srt unfolding job_matches_def history_sorted_def by (blast intro: sorted_filter)
    ultimately have "?k \<le> length (filter (\<lambda>y. ?f y \<le> ?f x) (take ?k ?F))"
      by (rule sorted_take_filter [rotated])
    also have "filter (\<lambda>y. ?f y \<le> ?f x) (take ?k ?F) = filter (\<lambda>y. ?f y < ?f x) (take ?k ?F)"
    proof (rule filter_cong [OF refl])
      fix y assume y: "y \<in> set (take ?k ?F)"
      then have "y \<noteq> x" "y \<in> set ?as"
        using notin j(1) in_set_takeD [OF y] unfolding all(1) [symmetric] by auto
      with inj x(1) have "?f y \<noteq> ?f x" by (meson inj_onD)
      then show "(?f y \<le> ?f x) = (?f y < ?f x)" by auto
    qed
    also have "length \<dots> \<le> length (filter (\<lambda>y. ?f y < ?f x) ?bs)"
      using filter_part_length [OF j(1), of _ ?part] None by simp
    finally show ?thesis .
  qed
  have "take ?k (newest_started ?bs) = take ?k (newest_started ?as)"
    unfolding newest_started_def by (rule sort_take_unique [OF das inj sub dbs missing])
  then have page: "py_slice (jq_offset q) ?k (newest_started ?bs)
      = py_slice (jq_offset q) ?k (newest_started ?as)"
    by (rule drop_slice)
  have "merge q is (list_from s) = (py_slice (jq_offset q) ?k (newest_started ?bs), length ?all)"
    unfolding merge_def parts lens [symmetric] by (simp add: comp_def)
  also have "\<dots> = query_executions q s"
    unfolding page total query_executions_def by (simp add: Let_def)
  finally show ?thesis .
qed

definition sample_query :: job_query where
  "sample_query = \<lparr>jq_job_ids = Some [''mail''], jq_status = None, jq_since = None,
     jq_limit = 2, jq_offset = 1\<rparr>"

lemma sample_storage_sorted: "history_sorted sample_storage"
proof -
  have "job_list j sample_storage = (if j = ''mail'' then
      [sample_run ''e3'' ''mail'' ''running'' 30, sample_run ''e2'' ''mail'' ''failed'' 20,
       sample_run ''e1'' ''mail'' ''completed'' 10] else [])" for j
    by (simp add: sample_storage_def job_list_def save_execution_def new_job_storage_def
        put_execution_def sample_run_def)
  moreover have "dvalues (st_by_id sample_storage) =
      [sample_run ''e1'' ''mail'' ''completed'' 10, sample_run ''e2'' ''mail'' ''failed'' 20,
       sample_run ''e3'' ''mail'' ''running'' 30]"
    by (simp add: sample_storage_def save_execution_def new_job_storage_def dvalues_def sample_run_def)
  moreover have "map py_lower [''completed'', ''failed'', ''running''] = [''completed'', ''failed'', ''running'']"
    by code_simp
  ultimately show ?thesis
    by (simp add: history_sorted_def MAX_PAGE_def sample_run_def)
qed

theorem merge_equals_query_witness:
  "merge sample_query [''mail''] (list_from sample_storage) = query_executions sample_query sample_storage
   \<and> map je_id (fst (query_executions sample_query sample_storage)) = [''e2'', ''e1'']"
proof -
  have "map je_id (fst (query_executions sample_query sample_storage)) = [''e2'', ''e1'']"
    by code_simp
  then show ?thesis
    using merge_equals_query [OF sample_storage_ok sample_storage_sorted, of sample_query "[''mail'']"]
    by (simp add: sample_query_def)
qed

section \<open>The contract of a job store\<close>

text \<open>
  \<open>ICliJobStorageProvider\<close> as a record of operations.  A save may raise, \<open>Inl\<close> the message;
  the query is \<open>None\<close> for \<open>NotImplementedError\<close>; \<open>op_deletes\<close> says that the store overrides
  \<open>delete_execution\<close>.
\<close>

record 'st job_store_ops =
  op_save :: "job_execution \<Rightarrow> 'st \<Rightarrow> string + 'st"
  op_list :: "string \<Rightarrow> nat \<Rightarrow> nat \<Rightarrow> string option \<Rightarrow> 'st \<Rightarrow> job_execution list \<times> nat"
  op_query :: "job_query \<Rightarrow> 'st \<Rightarrow> (job_execution list \<times> nat) option"
  op_get :: "string \<Rightarrow> 'st \<Rightarrow> job_execution option"
  op_delete :: "string \<Rightarrow> 'st \<Rightarrow> bool \<times> 'st"
  op_deletes :: bool
  op_save_state :: "string \<Rightarrow> job_state \<Rightarrow> 'st \<Rightarrow> string + 'st"
  op_states :: "'st \<Rightarrow> (string, job_state) dict"

definition mem_ops :: "job_storage job_store_ops" where
  "mem_ops =
     \<lparr>op_save = (\<lambda>e s. Inr (save_execution e s)), op_list = get_executions,
      op_query = (\<lambda>q s. Some (query_executions q s)), op_get = get_execution,
      op_delete = storage_delete, op_deletes = True,
      op_save_state = (\<lambda>j st s. Inr (save_job_state j st s)), op_states = get_all_job_states\<rparr>"

text \<open>
  The base class's own query: without job ids it is not supported, else it merges the per-job
  listings.
\<close>

definition default_query ::
    "(string \<Rightarrow> nat \<Rightarrow> nat \<Rightarrow> string option \<Rightarrow> 'st \<Rightarrow> job_execution list \<times> nat) \<Rightarrow> job_query \<Rightarrow> 'st
     \<Rightarrow> (job_execution list \<times> nat) option" where
  "default_query list_op q s =
     (case jq_job_ids q of
        None \<Rightarrow> None
      | Some ids \<Rightarrow> Some (merge q ids (\<lambda>j n st. list_op j n 0 st s)))"

text \<open>
  The paging loop \<open>while True: items, total = fetch(offset); ...; if not items or offset >= total:
  break\<close>.  Every turn but the last moves the offset, so one turn more than the total is enough fuel
  when the listing does not change in between; \<open>None\<close> is a loop that did not end.
\<close>

fun read_pages :: "nat \<Rightarrow> (nat \<Rightarrow> 'a list \<times> nat) \<Rightarrow> nat \<Rightarrow> 'a list option" where
  "read_pages 0 fetch offset = None"
| "read_pages (Suc fuel) fetch offset =
     (let (items, total) = fetch offset; offset' = offset + length items
      in if items = [] \<or> total \<le> offset' then Some items
         else map_option ((@) items) (read_pages fuel fetch offset'))"

definition all_pages :: "(nat \<Rightarrow> 'a list \<times> nat) \<Rightarrow> 'a list option" where
  "all_pages fetch = read_pages (Suc (snd (fetch 0))) fetch 0"

lemma read_pages_slices:
  assumes fetch: "\<And>k. fetch k = (py_slice k (k + n) xs, length xs)" and n: "0 < n"
  shows "offset \<le> length xs \<Longrightarrow> length xs - offset < fuel \<Longrightarrow>
    read_pages fuel fetch offset = Some (drop offset xs)"
proof (induction fuel arbitrary: offset)
  case (Suc fuel)
  let ?items = "py_slice offset (offset + n) xs"
  have items: "?items = take n (drop offset xs)" by (simp add: py_slice_def)
  show ?case
  proof (cases "?items = [] \<or> length xs \<le> offset + length ?items")
    case True
    then have "?items = drop offset xs"
      using n by (auto simp: items)
    with True show ?thesis by (simp add: fetch)
  next
    case False
    then have l: "length ?items = n" "offset + n < length xs"
      by (auto simp: items min_def split: if_splits)
    with n Suc.prems have "read_pages fuel fetch (offset + n) = Some (drop (offset + n) xs)"
      by (intro Suc.IH) auto
    moreover have "take n (drop offset xs) @ drop (offset + n) xs = drop offset xs"
      by (metis add.commute append_take_drop_id drop_drop)
    ultimately show ?thesis
      using False l by (simp add: fetch [of offset] items)
  qed
qed simp

lemma all_pages_slices:
  "(\<And>k. fetch k = (py_slice k (k + n) xs, length xs)) \<Longrightarrow> 0 < n \<Longrightarrow> all_pages fetch = Some xs"
  unfolding all_pages_def using read_pages_slices [of fetch n xs 0 "Suc (length xs)"] by simp

fun delete_all :: "'st job_store_ops \<Rightarrow> string list \<Rightarrow> 'st \<Rightarrow> nat \<times> 'st" where
  "delete_all ops [] s = (0, s)"
| "delete_all ops (i # is) s =
     (let (found, s') = op_delete ops i s; (n, s'') = delete_all ops is s'
      in (if found then Suc n else n, s''))"

text \<open>
  What the scheduler relies on: listings are pages of the executions of the job, deleting removes
  exactly one execution.
\<close>

locale job_store =
  fixes ops :: "'st job_store_ops"
    and ok :: "'st \<Rightarrow> bool"
    and runs :: "string \<Rightarrow> 'st \<Rightarrow> job_execution list"
  assumes runs_exact: "ok s \<Longrightarrow> e \<in> set (runs j s) \<longleftrightarrow> je_job_id e = j \<and> op_get ops (je_id e) s = Some e"
    and runs_distinct: "ok s \<Longrightarrow> distinct (map je_id (runs j s))"
    and get_id: "ok s \<Longrightarrow> op_get ops i s = Some e \<Longrightarrow> je_id e = i"
    and list_pages: "ok s \<Longrightarrow> op_list ops j n k st s =
      (let xs = filter (\<lambda>e. given st \<longrightarrow> Some (je_status e) = st) (runs j s)
       in (py_slice k (k + n) xs, length xs))"
    and delete_found: "ok s \<Longrightarrow> fst (op_delete ops i s) \<longleftrightarrow> op_get ops i s \<noteq> None"
    and delete_ok: "ok s \<Longrightarrow> ok (snd (op_delete ops i s))"
    and delete_get: "ok s \<Longrightarrow>
      op_get ops i' (snd (op_delete ops i s)) = (if i' = i then None else op_get ops i' s)"
begin

lemma all_runs:
  assumes "ok s" "0 < n"
  shows "all_pages (\<lambda>k. op_list ops j n k st s)
    = Some (filter (\<lambda>e. given st \<longrightarrow> Some (je_status e) = st) (runs j s))"
  using assms by (intro all_pages_slices [where n = n]) (simp_all add: list_pages Let_def)

lemma delete_all_effect:
  assumes "ok s"
  shows "ok (snd (delete_all ops is s))
    \<and> op_get ops k (snd (delete_all ops is s)) = (if k \<in> set is then None else op_get ops k s)"
  using assms
  by (induction "is" arbitrary: s) (auto simp: case_prod_beta delete_ok delete_get Let_def)

lemma delete_all_count:
  assumes "ok s" "distinct is" "\<forall>i \<in> set is. op_get ops i s \<noteq> None"
  shows "fst (delete_all ops is s) = length is"
  using assms
proof (induction "is" arbitrary: s)
  case (Cons i "is")
  then have "\<forall>k \<in> set is. op_get ops k (snd (op_delete ops i s)) \<noteq> None"
    by (auto simp: delete_get)
  with Cons show ?case by (simp add: case_prod_beta delete_found delete_ok Let_def)
qed simp

end

interpretation mem_store: job_store mem_ops storage_ok job_list
proof unfold_locales
  fix s e j k n i i' and st :: "string option"
  assume ok: "storage_ok s"
  show "e \<in> set (job_list j s) \<longleftrightarrow> je_job_id e = j \<and> op_get mem_ops (je_id e) s = Some e"
    using storage_okD(1) [OF ok] by (simp add: mem_ops_def)
  show "distinct (map je_id (job_list j s))"
    by (rule storage_okD(3) [OF ok])
  show "op_get mem_ops i s = Some e \<Longrightarrow> je_id e = i"
    using storage_okD(2) [OF ok] by (simp add: mem_ops_def)
  show "op_list mem_ops j n k st s =
      (let xs = filter (\<lambda>e. given st \<longrightarrow> Some (je_status e) = st) (job_list j s)
       in (py_slice k (k + n) xs, length xs))"
    by (cases "given st") (simp_all add: mem_ops_def get_executions_def Let_def)
  show "fst (op_delete mem_ops i s) \<longleftrightarrow> op_get mem_ops i s \<noteq> None"
    by (simp add: mem_ops_def storage_delete_found)
  show "storage_ok (snd (op_delete mem_ops i s))"
    by (simp add: mem_ops_def storage_ok_delete [OF ok])
  show "op_get mem_ops i' (snd (op_delete mem_ops i s)) = (if i' = i then None else op_get mem_ops i' s)"
    by (simp add: mem_ops_def get_execution_delete)
qed

end
