(* ===== verification/JobScheduler.thy ===== *)
theory JobScheduler
  imports JobStorage
begin

text \<open>
  The background job scheduler (\<open>qodalis_cli_jobs/cli_job_scheduler.py\<close>).  A registration is the
  record \<open>JobRegistration\<close>; a run is \<open>JobRun\<close> with the point its coroutine has reached, so that
  the event loop is a step relation: each operation here is the code between two points where the
  loop may switch tasks.  Awaits on the store and the event bus are taken as immediate, as they are
  for the in-memory store.  Object identity of runs is a number drawn per registration.

  Parameters: \<open>cron_next\<close> and \<open>cron_valid\<close> are the third-party \<open>croniter\<close> (\<open>None\<close> when it raises),
  the store is the record of operations \<^typ>\<open>'st job_store_ops\<close>.  What the job does is an input:
  how \<open>execute_async\<close> ends and what it left in its execution context.  Times are microseconds.
\<close>

section \<open>Errors, options, runs and registrations\<close>

datatype job_error =
    Job_not_found string
  | Invalid_operation string
  | Invalid_value string
  | Invalid_interval string
  | Invalid_cron string
  | Job_value_error string
  | Execution_not_found string
  | Not_supported string
  | Storage_failed
  | Index_error
  | Endless_paging

record job_options =
  jo_name :: "string option"
  jo_description :: "string option"
  jo_group :: "string option"
  jo_schedule :: "string option"
  jo_interval :: "string option"
  jo_enabled :: bool
  jo_max_retries :: int
  jo_retry_delay :: string
  jo_retry_strategy :: string
  jo_timeout :: "string option"
  jo_overlap_policy :: string
  jo_max_concurrent_runs :: int
  jo_id :: "string option"
  jo_run_on_start :: bool

definition default_job_options :: job_options where
  "default_job_options =
     \<lparr>jo_name = None, jo_description = None, jo_group = None, jo_schedule = None,
      jo_interval = None, jo_enabled = True, jo_max_retries = 1, jo_retry_delay = ''5s'',
      jo_retry_strategy = ''exponential'', jo_timeout = None, jo_overlap_policy = ''skip'',
      jo_max_concurrent_runs = 1, jo_id = None, jo_run_on_start = False\<rparr>"

text \<open>
  Where the coroutine of a run stands: about to make an attempt, waiting for the job in an attempt,
  or waiting for the delay before the next attempt.
\<close>

datatype run_phase =
    Starting nat
  | Executing nat job_execution
  | Delaying nat

record job_run =
  jr_id :: nat
  jr_cancelled :: bool
  jr_execution_id :: "string option"
  jr_launched :: bool
  jr_phase :: run_phase

record registration =
  rg_id :: string
  rg_options :: job_options
  rg_status :: string
  rg_next_run_at :: "int option"
  rg_last_run_at :: "int option"
  rg_last_run_status :: "string option"
  rg_last_run_duration :: "int option"
  rg_timer :: "int option"
  rg_runs :: "job_run list"
  rg_queued :: bool
  rg_fresh :: nat

definition running_execution_ids :: "registration \<Rightarrow> string list" where
  "running_execution_ids reg = List.map_filter jr_execution_id (rg_runs reg)"

definition current_execution_id :: "registration \<Rightarrow> string option" where
  "current_execution_id reg =
     (let ids = running_execution_ids reg in if ids = [] then None else Some (last ids))"

definition current_cancellation :: "registration \<Rightarrow> bool option" where
  "current_cancellation reg =
     (if rg_runs reg = [] then None else Some (jr_cancelled (last (rg_runs reg))))"

type_synonym job_event = "string \<times> (string \<times> json) list"

record 'st scheduler =
  sd_storage :: 'st
  sd_regs :: "(string, registration) dict"
  sd_running :: bool
  sd_events :: "job_event list"

record 'st job_env =
  ev_ops :: "'st job_store_ops"
  ev_cron_next :: "string \<Rightarrow> int \<Rightarrow> int option"
  ev_cron_valid :: "string \<Rightarrow> bool"

definition new_scheduler :: "'st \<Rightarrow> 'st scheduler" where
  "new_scheduler st = \<lparr>sd_storage = st, sd_regs = [], sd_running = False, sd_events = []\<rparr>"

text \<open>An event of the bus: its type and its fields (audience \<open>jobs:read\<close>).\<close>

definition job_broadcast :: "string \<Rightarrow> (string \<times> json) list \<Rightarrow> 'st scheduler \<Rightarrow> 'st scheduler" where
  "job_broadcast event_type data s = s\<lparr>sd_events := sd_events s @ [(event_type, data)]\<rparr>"

section \<open>Registration\<close>

definition unsafe_id_char :: "char \<Rightarrow> bool" where
  "unsafe_id_char c = (c \<in> {CHR ''/'', CHR 0x5C, CHR ''?'', CHR ''#''})"

text \<open>The type test of the code: an \<open>int\<close> that is not a \<open>bool\<close>, at least 1.\<close>

definition validate_max_concurrent_runs :: "json \<Rightarrow> job_error + int" where
  "validate_max_concurrent_runs v =
     (case v of JInt n \<Rightarrow> if n < 1 then Inl (Invalid_value ''maxConcurrentRuns must be an integer >= 1'') else Inr n
      | _ \<Rightarrow> Inl (Invalid_value ''maxConcurrentRuns must be an integer >= 1''))"

text \<open>The loop over \<open>name\<close>, \<open>name-2\<close>, \<open>name-3\<close>, ...; with as much fuel as there are jobs it ends.\<close>

fun next_free_id :: "nat \<Rightarrow> string list \<Rightarrow> string \<Rightarrow> string \<Rightarrow> nat \<Rightarrow> string option" where
  "next_free_id fuel taken base job_id n =
     (if job_id \<notin> set taken then Some job_id
      else (case fuel of 0 \<Rightarrow> None
            | Suc fuel' \<Rightarrow> next_free_id fuel' taken base (base @ ''-'' @ show_nat n) (Suc n)))"

declare next_free_id.simps [simp del]

definition base_id :: "string \<Rightarrow> string" where
  "base_id name = map (\<lambda>c. if unsafe_id_char c then CHR ''-'' else c) name"

definition with_names :: "string \<Rightarrow> job_options \<Rightarrow> job_options" where
  "with_names class_name opts =
     (let opts1 = (if given (jo_name opts) then opts else opts\<lparr>jo_name := Some class_name\<rparr>)
      in if given (jo_description opts1) then opts1 else opts1\<lparr>jo_description := jo_name opts1\<rparr>)"

definition choose_job_id :: "job_options \<Rightarrow> string list \<Rightarrow> job_error + string" where
  "choose_job_id opts taken =
     (case jo_id opts of
        Some i \<Rightarrow>
          if py_strip i = [] \<or> list_ex unsafe_id_char i
          then Inl (Job_value_error (''Unusable job id: '' @ i))
          else if i \<in> set taken
          then Inl (Invalid_operation (''A job with id '' @ i @ '' is already registered''))
          else Inr i
      | None \<Rightarrow>
          (let base = base_id (case jo_name opts of Some n \<Rightarrow> n | None \<Rightarrow> [])
           in case next_free_id (length taken) taken base base 2 of
                Some i \<Rightarrow> Inr i
              | None \<Rightarrow> Inl Endless_paging))"

definition new_registration :: "string \<Rightarrow> job_options \<Rightarrow> registration" where
  "new_registration job_id opts =
     \<lparr>rg_id = job_id, rg_options = opts,
      rg_status = (if jo_enabled opts then ''active'' else ''stopped''),
      rg_next_run_at = None, rg_last_run_at = None, rg_last_run_status = None,
      rg_last_run_duration = None, rg_timer = None, rg_runs = [], rg_queued = False, rg_fresh = 0\<rparr>"

definition job_register :: "string \<Rightarrow> job_options \<Rightarrow> (job_error, string, 'st scheduler) act" where
  "job_register class_name opts =
     andThen (lift (validate_max_concurrent_runs (JInt (jo_max_concurrent_runs opts)))) (\<lambda>_.
     (let opts' = with_names class_name opts
      in andThen (reads_err (\<lambda>s. choose_job_id opts' (dkeys (sd_regs s)))) (\<lambda>job_id.
         andThen (modify (\<lambda>s. s\<lparr>sd_regs := dset job_id (new_registration job_id opts') (sd_regs s)\<rparr>)) (\<lambda>_.
         ret job_id))))"

section \<open>Slots\<close>

text \<open>A run takes a slot; a new run is the youngest and is launched by \<open>job_launch\<close>.\<close>

definition take_slot :: "registration \<Rightarrow> nat \<times> registration" where
  "take_slot reg =
     (rg_fresh reg,
      reg\<lparr>rg_runs := rg_runs reg @ [\<lparr>jr_id = rg_fresh reg, jr_cancelled = False, jr_execution_id = None,
                                    jr_launched = False, jr_phase = Starting 0\<rparr>],
          rg_fresh := Suc (rg_fresh reg)\<rparr>)"

definition has_free_slot :: "registration \<Rightarrow> bool" where
  "has_free_slot reg = (int (length (rg_runs reg)) < jo_max_concurrent_runs (rg_options reg))"

definition job_admit :: "bool \<Rightarrow> registration \<Rightarrow> (job_error + nat option) \<times> registration" where
  "job_admit manual reg =
     (if has_free_slot reg then (let (run, reg') = take_slot reg in (Inr (Some run), reg'))
      else if jo_overlap_policy (rg_options reg) = ''queue'' then (Inr None, reg\<lparr>rg_queued := True\<rparr>)
      else if jo_overlap_policy (rg_options reg) = ''cancel'' then
        (if rg_queued reg then (Inr None, reg)
         else (case rg_runs reg of
                 [] \<Rightarrow> (Inl Index_error, reg)
               | r # rs \<Rightarrow> (Inr None, reg\<lparr>rg_runs := r\<lparr>jr_cancelled := True\<rparr> # rs, rg_queued := True\<rparr>)))
      else if manual then (Inl (Invalid_operation ''Job is already running''), reg)
      else (Inr None, reg))"

definition update_run :: "nat \<Rightarrow> (job_run \<Rightarrow> job_run) \<Rightarrow> registration \<Rightarrow> registration" where
  "update_run i f reg = reg\<lparr>rg_runs := map (\<lambda>r. if jr_id r = i then f r else r) (rg_runs reg)\<rparr>"

definition job_launch :: "nat option \<Rightarrow> registration \<Rightarrow> registration" where
  "job_launch run reg =
     (case run of None \<Rightarrow> reg | Some i \<Rightarrow> update_run i (\<lambda>r. r\<lparr>jr_launched := True\<rparr>) reg)"

definition start_queued :: "registration \<Rightarrow> registration" where
  "start_queued reg =
     (if rg_queued reg \<and> has_free_slot reg
      then (let (run, reg') = take_slot (reg\<lparr>rg_queued := False\<rparr>) in job_launch (Some run) reg')
      else reg)"

definition job_release :: "nat \<Rightarrow> registration \<Rightarrow> registration" where
  "job_release i reg = start_queued (reg\<lparr>rg_runs := filter (\<lambda>r. jr_id r \<noteq> i) (rg_runs reg)\<rparr>)"

definition cancel_runs :: "registration \<Rightarrow> registration" where
  "cancel_runs reg =
     reg\<lparr>rg_queued := False, rg_runs := map (\<lambda>r. r\<lparr>jr_cancelled := True\<rparr>) (rg_runs reg)\<rparr>"

section \<open>Timers\<close>

definition SECOND :: int where
  "SECOND = 1000000"

definition cancel_timer :: "registration \<Rightarrow> registration" where
  "cancel_timer reg = reg\<lparr>rg_timer := None, rg_next_run_at := None\<rparr>"

definition interval_of :: "string \<Rightarrow> job_error + int" where
  "interval_of v = (case parse_interval v of Some n \<Rightarrow> Inr n | None \<Rightarrow> Inl (Invalid_interval v))"

definition cron_of :: "'st job_env \<Rightarrow> string \<Rightarrow> int \<Rightarrow> job_error + int" where
  "cron_of env schedule after =
     (case ev_cron_next env schedule after of Some t \<Rightarrow> Inr t | None \<Rightarrow> Inl (Invalid_cron schedule))"

text \<open>The occurrence a cron job waits for: after the one that fired, unless that is past already.\<close>

definition next_cron :: "'st job_env \<Rightarrow> string \<Rightarrow> int option \<Rightarrow> int \<Rightarrow> job_error + int" where
  "next_cron env schedule fired_at now =
     (case fired_at of
        None \<Rightarrow> cron_of env schedule now
      | Some f \<Rightarrow>
          (case cron_of env schedule f of
             Inl e \<Rightarrow> Inl e
           | Inr t \<Rightarrow> if t \<le> now then cron_of env schedule now else Inr t))"

definition interval_due :: "int option \<Rightarrow> bool \<Rightarrow> bool \<Rightarrow> int \<Rightarrow> int \<Rightarrow> int" where
  "interval_due last_run after_fire run_now interval now =
     (let due = (case last_run of
                   Some l \<Rightarrow> if after_fire then now + interval else l + interval
                 | None \<Rightarrow> now + interval)
      in if due < now \<or> run_now then now else due)"

text \<open>\<open>rg_timer\<close> is the delay of the sleeping timer task, if there is one.\<close>

definition schedule_next ::
    "'st job_env \<Rightarrow> bool \<Rightarrow> int \<Rightarrow> bool \<Rightarrow> bool \<Rightarrow> int option \<Rightarrow> (job_error, unit, registration) act" where
  "schedule_next env running now run_now after_fire fired_at reg =
     (if \<not> running then (Inr (), reg)
      else if given (jo_schedule (rg_options reg)) then
        (case next_cron env (the (jo_schedule (rg_options reg))) fired_at now of
           Inl e \<Rightarrow> (Inl e, reg)
         | Inr t \<Rightarrow> (Inr (), reg\<lparr>rg_next_run_at := Some t, rg_timer := Some (max (t - now) 100000)\<rparr>))
      else if given (jo_interval (rg_options reg)) then
        (case interval_of (the (jo_interval (rg_options reg))) of
           Inl e \<Rightarrow> (Inl e, reg)
         | Inr secs \<Rightarrow>
             (let due = interval_due (rg_last_run_at reg) after_fire run_now (secs * SECOND) now
              in (Inr (), reg\<lparr>rg_next_run_at := Some due, rg_timer := Some (due - now)\<rparr>)))
      else (Inr (), reg\<lparr>rg_next_run_at := None\<rparr>))"

text \<open>The timer task wakes up: its delay is over and nobody cancelled it.\<close>

definition timer_fire :: "'st job_env \<Rightarrow> bool \<Rightarrow> int \<Rightarrow> registration \<Rightarrow> (job_error + unit) \<times> registration" where
  "timer_fire env running now reg =
     (if rg_timer reg = None then (Inr (), reg)
      else if \<not> running \<or> rg_status reg \<noteq> ''active'' then (Inr (), reg\<lparr>rg_timer := None\<rparr>)
      else (let fired_at = rg_next_run_at reg
            in case job_admit False (reg\<lparr>rg_timer := None\<rparr>) of
                 (Inl e, reg1) \<Rightarrow> (Inl e, reg1)
               | (Inr run, reg1) \<Rightarrow>
                   (let reg2 = job_launch run reg1
                    in if rg_status reg2 = ''active''
                       then schedule_next env running now False True fired_at reg2
                       else (Inr (), reg2))))"

definition due_on_start :: "'st job_env \<Rightarrow> registration \<Rightarrow> int \<Rightarrow> job_error + bool" where
  "due_on_start env reg now =
     (if given (jo_schedule (rg_options reg)) then
        (case rg_last_run_at reg of
           None \<Rightarrow> Inr True
         | Some l \<Rightarrow> (case cron_of env (the (jo_schedule (rg_options reg))) l of
                        Inl e \<Rightarrow> Inl e | Inr t \<Rightarrow> Inr (t \<le> now)))
      else if given (jo_interval (rg_options reg)) then
        (case rg_last_run_at reg of
           None \<Rightarrow> Inr True
         | Some l \<Rightarrow> (case interval_of (the (jo_interval (rg_options reg))) of
                        Inl e \<Rightarrow> Inl e | Inr secs \<Rightarrow> Inr (l + secs * SECOND \<le> now)))
      else Inr True)"

section \<open>Control of a job\<close>

definition in_reg ::
    "string \<Rightarrow> (job_error, 'a, registration) act \<Rightarrow> (job_error, 'a, 'st scheduler) act" where
  "in_reg job_id f s =
     (case dget (sd_regs s) job_id of
        None \<Rightarrow> (Inl (Job_not_found job_id), s)
      | Some reg \<Rightarrow> (let (r, reg') = f reg in (r, s\<lparr>sd_regs := dset job_id reg' (sd_regs s)\<rparr>)))"

definition state_of :: "int \<Rightarrow> registration \<Rightarrow> job_state" where
  "state_of now reg =
     \<lparr>js_status = rg_status reg, js_last_run_at = rg_last_run_at reg, js_updated_at = now\<rparr>"

definition persist_state :: "'st job_env \<Rightarrow> int \<Rightarrow> string \<Rightarrow> (job_error, unit, 'st scheduler) act" where
  "persist_state env now job_id s =
     (case dget (sd_regs s) job_id of
        None \<Rightarrow> (Inl (Job_not_found job_id), s)
      | Some reg \<Rightarrow>
          (case op_save_state (ev_ops env) (rg_id reg) (state_of now reg) (sd_storage s) of
             Inl _ \<Rightarrow> (Inl Storage_failed, s)
           | Inr st \<Rightarrow> (Inr (), s\<lparr>sd_storage := st\<rparr>)))"

definition job_trigger :: "string \<Rightarrow> (job_error, string, 'st scheduler) act" where
  "job_trigger job_id =
     andThen (in_reg job_id (job_admit True)) (\<lambda>run.
     andThen (modify (job_broadcast ''job:triggered'' [(''jobId'', JStr job_id)])) (\<lambda>_.
     andThen (in_reg job_id (modify (job_launch run))) (\<lambda>_.
     ret (if run \<noteq> None then ''started'' else ''queued''))))"

definition status_fields :: "string \<Rightarrow> string \<Rightarrow> (string \<times> json) list" where
  "status_fields job_id status = [(''jobId'', JStr job_id), (''status'', JStr status)]"

definition job_pause :: "'st job_env \<Rightarrow> int \<Rightarrow> string \<Rightarrow> (job_error, unit, 'st scheduler) act" where
  "job_pause env now job_id =
     andThen (in_reg job_id
       (andThen (reads_err (\<lambda>reg. if rg_status reg = ''paused''
                                  then Inl (Invalid_operation ''Job is already paused'') else Inr ())) (\<lambda>_.
        modify (\<lambda>reg. cancel_timer (reg\<lparr>rg_status := ''paused''\<rparr>))))) (\<lambda>_.
     andThen (persist_state env now job_id) (\<lambda>_.
     modify (job_broadcast ''job:paused'' (status_fields job_id ''paused''))))"

definition job_resume :: "'st job_env \<Rightarrow> int \<Rightarrow> string \<Rightarrow> (job_error, unit, 'st scheduler) act" where
  "job_resume env now job_id =
     andThen (reads sd_running) (\<lambda>running.
     andThen (in_reg job_id
       (andThen (reads_err (\<lambda>reg. if rg_status reg \<noteq> ''paused''
                                  then Inl (Invalid_operation ''Job is not paused'') else Inr ())) (\<lambda>_.
        andThen (modify (\<lambda>reg. reg\<lparr>rg_status := ''active''\<rparr>)) (\<lambda>_.
        schedule_next env running now False False None)))) (\<lambda>_.
     andThen (persist_state env now job_id) (\<lambda>_.
     modify (job_broadcast ''job:resumed'' (status_fields job_id ''active'')))))"

definition job_stop_job :: "'st job_env \<Rightarrow> int \<Rightarrow> string \<Rightarrow> (job_error, unit, 'st scheduler) act" where
  "job_stop_job env now job_id =
     andThen (in_reg job_id
       (modify (\<lambda>reg. cancel_runs (cancel_timer (reg\<lparr>rg_status := ''stopped''\<rparr>))))) (\<lambda>_.
     andThen (persist_state env now job_id) (\<lambda>_.
     modify (job_broadcast ''job:stopped'' (status_fields job_id ''stopped''))))"

definition job_cancel_current :: "string \<Rightarrow> (job_error, unit, 'st scheduler) act" where
  "job_cancel_current job_id =
     in_reg job_id
       (andThen (reads_err (\<lambda>reg. if rg_runs reg = [] \<and> \<not> rg_queued reg
                                  then Inl (Invalid_operation ''No execution is currently running'')
                                  else Inr ())) (\<lambda>_.
        modify cancel_runs))"

section \<open>Changing the options\<close>

record job_changes =
  jc_description :: "string option"
  jc_group :: "string option"
  jc_schedule :: "string option"
  jc_interval :: "string option"
  jc_max_retries :: "int option"
  jc_retry_delay :: "string option"
  jc_retry_strategy :: "string option"
  jc_timeout :: "string option"
  jc_overlap_policy :: "string option"
  jc_max_concurrent_runs :: "json option"

definition no_job_changes :: job_changes where
  "no_job_changes =
     \<lparr>jc_description = None, jc_group = None, jc_schedule = None, jc_interval = None,
      jc_max_retries = None, jc_retry_delay = None, jc_retry_strategy = None, jc_timeout = None,
      jc_overlap_policy = None, jc_max_concurrent_runs = None\<rparr>"

text \<open>\<open>if value is not None: ...\<close>\<close>

definition when_given :: "'a option \<Rightarrow> ('a \<Rightarrow> ('e, unit, 's) act) \<Rightarrow> ('e, unit, 's) act" where
  "when_given v f = (case v of None \<Rightarrow> ret () | Some x \<Rightarrow> f x)"

definition set_opts :: "(job_options \<Rightarrow> job_options) \<Rightarrow> (job_error, unit, registration) act" where
  "set_opts f = modify (\<lambda>reg. reg\<lparr>rg_options := f (rg_options reg)\<rparr>)"

definition check_interval :: "string \<Rightarrow> (job_error, unit, registration) act" where
  "check_interval v = (case interval_of v of Inl e \<Rightarrow> raise e | Inr _ \<Rightarrow> ret ())"

definition change_schedule :: "'st job_env \<Rightarrow> job_changes \<Rightarrow> (job_error, unit, registration) act" where
  "change_schedule env ch =
     andThen (guard (jc_schedule ch = None \<or> jc_interval ch = None)
                (Job_value_error ''Cannot provide both schedule and interval'')) (\<lambda>_.
     andThen (when_given (jc_schedule ch) (\<lambda>v.
        andThen (guard (ev_cron_valid env v) (Invalid_cron v)) (\<lambda>_.
        set_opts (\<lambda>o1. o1\<lparr>jo_schedule := Some v, jo_interval := None\<rparr>)))) (\<lambda>_.
     when_given (jc_interval ch) (\<lambda>v.
        andThen (check_interval v) (\<lambda>_.
        set_opts (\<lambda>o1. o1\<lparr>jo_interval := Some v, jo_schedule := None\<rparr>)))))"

definition change_retries :: "job_changes \<Rightarrow> (job_error, unit, registration) act" where
  "change_retries ch =
     andThen (when_given (jc_max_retries ch) (\<lambda>v. set_opts (\<lambda>o1. o1\<lparr>jo_max_retries := v\<rparr>))) (\<lambda>_.
     andThen (when_given (jc_retry_delay ch) (\<lambda>v.
        andThen (check_interval v) (\<lambda>_. set_opts (\<lambda>o1. o1\<lparr>jo_retry_delay := v\<rparr>)))) (\<lambda>_.
     when_given (jc_retry_strategy ch) (\<lambda>v.
        andThen (guard (v \<in> {''fixed'', ''linear'', ''exponential''})
                   (Job_value_error (''Invalid retry strategy: '' @ py_repr v))) (\<lambda>_.
        set_opts (\<lambda>o1. o1\<lparr>jo_retry_strategy := v\<rparr>)))))"

definition change_limits :: "job_changes \<Rightarrow> (job_error, unit, registration) act" where
  "change_limits ch =
     andThen (when_given (jc_timeout ch) (\<lambda>v.
        andThen (check_interval v) (\<lambda>_. set_opts (\<lambda>o1. o1\<lparr>jo_timeout := Some v\<rparr>)))) (\<lambda>_.
     andThen (when_given (jc_overlap_policy ch) (\<lambda>v.
        andThen (guard (v \<in> {''skip'', ''queue'', ''cancel''})
                   (Job_value_error (''Invalid overlap policy: '' @ py_repr v))) (\<lambda>_.
        set_opts (\<lambda>o1. o1\<lparr>jo_overlap_policy := v\<rparr>)))) (\<lambda>_.
     when_given (jc_max_concurrent_runs ch) (\<lambda>v.
        andThen (lift (validate_max_concurrent_runs v)) (\<lambda>n.
        andThen (set_opts (\<lambda>o1. o1\<lparr>jo_max_concurrent_runs := n\<rparr>)) (\<lambda>_.
        modify start_queued)))))"

definition apply_changes :: "'st job_env \<Rightarrow> job_changes \<Rightarrow> (job_error, unit, registration) act" where
  "apply_changes env ch =
     andThen (when_given (jc_max_concurrent_runs ch)
                (\<lambda>v. andThen (lift (validate_max_concurrent_runs v)) (\<lambda>_. ret ()))) (\<lambda>_.
     andThen (when_given (jc_description ch) (\<lambda>v. set_opts (\<lambda>o1. o1\<lparr>jo_description := Some v\<rparr>))) (\<lambda>_.
     andThen (when_given (jc_group ch) (\<lambda>v. set_opts (\<lambda>o1. o1\<lparr>jo_group := Some v\<rparr>))) (\<lambda>_.
     andThen (change_schedule env ch) (\<lambda>_.
     andThen (change_retries ch) (\<lambda>_.
     change_limits ch)))))"

definition reschedule :: "'st job_env \<Rightarrow> bool \<Rightarrow> int \<Rightarrow> (job_error, unit, registration) act" where
  "reschedule env running now reg =
     (if rg_status reg = ''active''
      then schedule_next env running now False False None (cancel_timer reg)
      else (Inr (), reg))"

definition job_update_options ::
    "'st job_env \<Rightarrow> int \<Rightarrow> string \<Rightarrow> job_changes \<Rightarrow> (job_error, unit, 'st scheduler) act" where
  "job_update_options env now job_id ch =
     andThen (reads sd_running) (\<lambda>running.
     andThen (in_reg job_id
       (andThen (apply_changes env ch) (\<lambda>_. reschedule env running now))) (\<lambda>_.
     modify (job_broadcast ''job:updated'' [(''jobId'', JStr job_id)])))"

section \<open>Runs in the store\<close>

definition ensure_storage_deletes :: "'st job_env \<Rightarrow> (job_error, unit, 'st scheduler) act" where
  "ensure_storage_deletes env =
     guard (op_deletes (ev_ops env)) (Not_supported ''The job storage cannot delete executions'')"

definition registered :: "string \<Rightarrow> (job_error, registration, 'st scheduler) act" where
  "registered job_id =
     reads_err (\<lambda>s. case dget (sd_regs s) job_id of
                      None \<Rightarrow> Inl (Job_not_found job_id) | Some reg \<Rightarrow> Inr reg)"

definition is_running :: "'st scheduler \<Rightarrow> job_execution \<Rightarrow> bool" where
  "is_running s e =
     (je_status e = ''running''
      \<or> (case dget (sd_regs s) (je_job_id e) of
           None \<Rightarrow> False | Some reg \<Rightarrow> je_id e \<in> set (running_execution_ids reg)))"

definition deletable :: "'st job_env \<Rightarrow> string \<Rightarrow> string \<Rightarrow> 'st scheduler \<Rightarrow> job_error + unit" where
  "deletable env job_id execution_id s =
     (case op_get (ev_ops env) execution_id (sd_storage s) of
        None \<Rightarrow> Inl (Execution_not_found execution_id)
      | Some e \<Rightarrow>
          if je_job_id e \<noteq> job_id then Inl (Execution_not_found execution_id)
          else if is_running s e then Inl (Invalid_operation ''The execution is still running'')
          else Inr ())"

definition delete_in_store :: "'st job_env \<Rightarrow> string \<Rightarrow> (job_error, bool, 'st scheduler) act" where
  "delete_in_store env execution_id s =
     (let (found, st) = op_delete (ev_ops env) execution_id (sd_storage s)
      in (Inr found, s\<lparr>sd_storage := st\<rparr>))"

definition job_delete_execution ::
    "'st job_env \<Rightarrow> string \<Rightarrow> string \<Rightarrow> (job_error, unit, 'st scheduler) act" where
  "job_delete_execution env job_id execution_id =
     andThen (registered job_id) (\<lambda>_.
     andThen (ensure_storage_deletes env) (\<lambda>_.
     andThen (reads_err (deletable env job_id execution_id)) (\<lambda>_.
     andThen (delete_in_store env execution_id) (\<lambda>found.
     andThen (guard found (Execution_not_found execution_id)) (\<lambda>_.
     modify (job_broadcast ''job:runs-deleted''
       [(''jobId'', JStr job_id), (''executionId'', JStr execution_id)]))))))"

text \<open>The runs to delete: all pages of 100 of the listing, without the running ones.\<close>

definition finished_ids :: "'st job_env \<Rightarrow> string \<Rightarrow> string option \<Rightarrow> 'st scheduler \<Rightarrow> job_error + string list" where
  "finished_ids env job_id status s =
     (case all_pages (\<lambda>k. op_list (ev_ops env) job_id 100 k
                             (if given status then status else None) (sd_storage s)) of
        None \<Rightarrow> Inl Endless_paging
      | Some items \<Rightarrow> Inr (map je_id (filter (\<lambda>e. \<not> is_running s e) items)))"

definition delete_all_in_store :: "'st job_env \<Rightarrow> string list \<Rightarrow> (job_error, nat, 'st scheduler) act" where
  "delete_all_in_store env is s =
     (let (n, st) = delete_all (ev_ops env) is (sd_storage s) in (Inr n, s\<lparr>sd_storage := st\<rparr>))"

definition job_delete_executions ::
    "'st job_env \<Rightarrow> string \<Rightarrow> string option \<Rightarrow> (job_error, nat, 'st scheduler) act" where
  "job_delete_executions env job_id status =
     andThen (registered job_id) (\<lambda>_.
     andThen (ensure_storage_deletes env) (\<lambda>_.
     andThen (reads_err (finished_ids env job_id status)) (\<lambda>ids.
     andThen (delete_all_in_store env ids) (\<lambda>deleted.
     andThen (if 0 < deleted
              then modify (job_broadcast ''job:runs-deleted''
                     [(''jobId'', JStr job_id), (''count'', JInt (int deleted))])
              else ret ()) (\<lambda>_.
     ret deleted)))))"

definition scheduler_query :: "'st job_env \<Rightarrow> job_query \<Rightarrow> 'st scheduler \<Rightarrow> (job_execution list \<times> nat) option" where
  "scheduler_query env q s =
     (case op_query (ev_ops env) q (sd_storage s) of
        Some r \<Rightarrow> Some r
      | None \<Rightarrow>
          if jq_job_ids q \<noteq> None then None
          else Some (merge q (dkeys (sd_regs s))
                       (\<lambda>j n st. op_list (ev_ops env) j n 0 st (sd_storage s))))"

section \<open>Starting and stopping the scheduler\<close>

text \<open>
  \<open>round(seconds * 1000)\<close> of a duration in microseconds, half to even (the code goes through a
  float, which can differ in the last place exactly at a half).
\<close>

definition round_ms :: "int \<Rightarrow> int" where
  "round_ms us =
     (let q = us div 1000; r = us mod 1000
      in if r < 500 \<or> (r = 500 \<and> even q) then q else q + 1)"

definition INTERRUPTED_ERROR :: string where
  "INTERRUPTED_ERROR = ''Interrupted: the server stopped during the run''"

definition interrupted :: "job_execution \<Rightarrow> job_execution" where
  "interrupted e =
     (let ended = foldl max (je_started_at e) (map jl_timestamp (je_logs e))
      in e\<lparr>je_status := ''cancelled'', je_error := Some INTERRUPTED_ERROR,
           je_completed_at := Some ended,
           je_duration := Some (round_ms (ended - je_started_at e))\<rparr>)"

text \<open>An exception of the store ends the work on this job; what was saved stays saved.\<close>

fun save_until_error :: "'st job_store_ops \<Rightarrow> job_execution list \<Rightarrow> 'st \<Rightarrow> 'st" where
  "save_until_error ops [] st = st"
| "save_until_error ops (e # es) st =
     (case op_save ops e st of Inl _ \<Rightarrow> st | Inr st' \<Rightarrow> save_until_error ops es st')"

definition stale_runs :: "registration \<Rightarrow> job_execution list \<Rightarrow> job_execution list" where
  "stale_runs reg items =
     filter (\<lambda>e. je_id e \<notin> set (running_execution_ids reg)) (filter (\<lambda>e. je_status e = ''running'') items)"

definition finish_interrupted_reg :: "'st job_env \<Rightarrow> registration \<Rightarrow> 'st \<Rightarrow> 'st option" where
  "finish_interrupted_reg env reg st =
     (case all_pages (\<lambda>k. op_list (ev_ops env) (rg_id reg) 100 k (Some ''running'') st) of
        None \<Rightarrow> None
      | Some items \<Rightarrow> Some (save_until_error (ev_ops env) (map interrupted (stale_runs reg items)) st))"

fun finish_interrupted_runs :: "'st job_env \<Rightarrow> registration list \<Rightarrow> 'st \<Rightarrow> 'st option" where
  "finish_interrupted_runs env [] st = Some st"
| "finish_interrupted_runs env (reg # regs) st =
     (case finish_interrupted_reg env reg st of
        None \<Rightarrow> None | Some st' \<Rightarrow> finish_interrupted_runs env regs st')"

definition restore_state :: "job_state option \<Rightarrow> registration \<Rightarrow> registration" where
  "restore_state state reg =
     (case state of
        None \<Rightarrow> reg
      | Some st \<Rightarrow>
          (let reg1 = reg\<lparr>rg_last_run_at := js_last_run_at st\<rparr>
           in if jo_enabled (rg_options reg) then reg1\<lparr>rg_status := js_status st\<rparr> else reg1))"

definition launch_admitted :: "(job_error, unit, registration) act" where
  "launch_admitted =
     andThen (job_admit False) (\<lambda>run. modify (job_launch run))"

definition start_reg ::
    "'st job_env \<Rightarrow> int \<Rightarrow> (string, job_state) dict \<Rightarrow> (job_error, unit, registration) act" where
  "start_reg env now states =
     andThen (modify (\<lambda>reg. restore_state (dget states (rg_id reg)) reg)) (\<lambda>_.
     andThen (reads (\<lambda>reg. rg_status reg = ''active'')) (\<lambda>active.
     if \<not> active then ret ()
     else
       andThen (reads_err (\<lambda>reg. if jo_run_on_start (rg_options reg)
                                  then due_on_start env reg now else Inr False)) (\<lambda>run_on_start.
       andThen (reads (\<lambda>reg. given (jo_interval (rg_options reg)) \<and> \<not> given (jo_schedule (rg_options reg)))) (\<lambda>by_interval.
       if by_interval then schedule_next env True now run_on_start False None
       else andThen (schedule_next env True now False False None) (\<lambda>_.
            if run_on_start then launch_admitted else ret ())))))"

text \<open>A loop over the registrations in registration order, ended by the first exception.\<close>

fun for_regs ::
    "(job_error, unit, registration) act \<Rightarrow> (job_error, unit, (string, registration) dict) act" where
  "for_regs f [] = (Inr (), [])"
| "for_regs f ((k, reg) # rest) =
     (case f reg of
        (Inl e, reg') \<Rightarrow> (Inl e, (k, reg') # rest)
      | (Inr _, reg') \<Rightarrow> (let (r, rest') = for_regs f rest in (r, (k, reg') # rest')))"

definition job_start :: "'st job_env \<Rightarrow> int \<Rightarrow> (job_error, unit, 'st scheduler) act" where
  "job_start env now s =
     (case finish_interrupted_runs env (dvalues (sd_regs s)) (sd_storage s) of
        None \<Rightarrow> (Inl Endless_paging, s\<lparr>sd_running := True\<rparr>)
      | Some st \<Rightarrow>
          (let (r, regs') = for_regs (start_reg env now (op_states (ev_ops env) st)) (sd_regs s)
           in (r, s\<lparr>sd_running := True, sd_storage := st, sd_regs := regs'\<rparr>)))"

definition stop_reg :: "'st job_env \<Rightarrow> int \<Rightarrow> string \<Rightarrow> (job_error, unit, 'st scheduler) act" where
  "stop_reg env now job_id =
     andThen (in_reg job_id (modify (\<lambda>reg. (cancel_runs reg)\<lparr>rg_timer := None\<rparr>))) (\<lambda>_.
     persist_state env now job_id)"

fun stop_regs :: "'st job_env \<Rightarrow> int \<Rightarrow> string list \<Rightarrow> (job_error, unit, 'st scheduler) act" where
  "stop_regs env now [] = ret ()"
| "stop_regs env now (k # ks) = andThen (stop_reg env now k) (\<lambda>_. stop_regs env now ks)"

definition job_stop :: "'st job_env \<Rightarrow> int \<Rightarrow> (job_error, unit, 'st scheduler) act" where
  "job_stop env now =
     andThen (modify (\<lambda>s. s\<lparr>sd_running := False\<rparr>)) (\<lambda>_.
     andThen (reads (\<lambda>s. dkeys (sd_regs s))) (\<lambda>ks. stop_regs env now ks))"

section \<open>A run\<close>

text \<open>What the job leaves in its execution context (\<open>CliJobExecutionContext\<close>, \<open>CliJobLogger\<close>).\<close>

record job_ctx =
  cx_logs :: "job_log list"
  cx_properties :: "(string \<times> json) list"
  cx_discarded :: bool

definition new_job_ctx :: job_ctx where
  "new_job_ctx = \<lparr>cx_logs = [], cx_properties = [], cx_discarded = False\<rparr>"

definition ctx_log :: "string \<Rightarrow> string \<Rightarrow> int \<Rightarrow> job_ctx \<Rightarrow> job_ctx" where
  "ctx_log level message now ctx =
     ctx\<lparr>cx_logs := cx_logs ctx @ [\<lparr>jl_timestamp = now, jl_level = level, jl_message = message\<rparr>]\<rparr>"

definition ctx_discard :: "job_ctx \<Rightarrow> job_ctx" where
  "ctx_discard ctx = ctx\<lparr>cx_discarded := True\<rparr>"

text \<open>
  How \<open>execute_async\<close> ends: it returns, a \<open>TimeoutError\<close> (of \<open>wait_for\<close> or of the job itself), a
  \<open>CancelledError\<close>, or another exception with its text.
\<close>

datatype job_outcome = Job_returned | Job_timeout_error | Job_cancelled_error | Job_raised string

definition outcome_status :: "job_outcome \<Rightarrow> bool \<Rightarrow> string" where
  "outcome_status outcome cancelled =
     (case outcome of
        Job_returned \<Rightarrow> if cancelled then ''cancelled'' else ''completed''
      | Job_timeout_error \<Rightarrow> if cancelled then ''cancelled'' else ''timed_out''
      | Job_cancelled_error \<Rightarrow> ''cancelled''
      | Job_raised _ \<Rightarrow> ''failed'')"

definition timeout_text :: "string option \<Rightarrow> string" where
  "timeout_text timeout = (case timeout of None \<Rightarrow> ''None'' | Some v \<Rightarrow> v)"

definition json_opt :: "string option \<Rightarrow> json" where
  "json_opt v = (case v of None \<Rightarrow> JNull | Some t \<Rightarrow> JStr t)"

definition outcome_error :: "job_outcome \<Rightarrow> bool \<Rightarrow> string option \<Rightarrow> string option" where
  "outcome_error outcome cancelled timeout =
     (case outcome of
        Job_timeout_error \<Rightarrow>
          if cancelled then None else Some (''Timed out after '' @ timeout_text timeout)
      | Job_raised msg \<Rightarrow> Some msg
      | _ \<Rightarrow> None)"

definition outcome_event ::
    "string \<Rightarrow> string \<Rightarrow> job_outcome \<Rightarrow> bool \<Rightarrow> string option \<Rightarrow> job_event list" where
  "outcome_event job_id exec_id outcome cancelled timeout =
     (let ids = [(''jobId'', JStr job_id), (''executionId'', JStr exec_id)];
          status = outcome_status outcome cancelled
      in if status = ''cancelled'' then [(''job:cancelled'', ids)]
         else case outcome of
                Job_timeout_error \<Rightarrow> [(''job:timed_out'', ids @ [(''timeout'', json_opt timeout)])]
              | Job_raised msg \<Rightarrow> [(''job:failed'', ids @ [(''error'', JStr msg)])]
              | _ \<Rightarrow> [])"

definition finished_execution ::
    "int \<Rightarrow> job_outcome \<Rightarrow> bool \<Rightarrow> string option \<Rightarrow> job_ctx \<Rightarrow> job_execution \<Rightarrow> job_execution" where
  "finished_execution now outcome cancelled timeout ctx e =
     e\<lparr>je_status := outcome_status outcome cancelled,
       je_error := outcome_error outcome cancelled timeout,
       je_completed_at := Some now,
       je_duration := Some (round_ms (now - je_started_at e)),
       je_logs := cx_logs ctx, je_properties := cx_properties ctx\<rparr>"

definition without_properties :: "int \<Rightarrow> string \<Rightarrow> job_execution \<Rightarrow> job_execution" where
  "without_properties now msg e =
     e\<lparr>je_properties := [],
       je_logs := je_logs e @
         [\<lparr>jl_timestamp = now, jl_level = ''error'',
           jl_message = ''The run'' @ [CHR 0x27] @ ''s properties could not be saved: '' @ msg\<rparr>]\<rparr>"

definition save_finished :: "'st job_store_ops \<Rightarrow> int \<Rightarrow> job_execution \<Rightarrow> bool \<Rightarrow> 'st \<Rightarrow> string + 'st" where
  "save_finished ops now e discard st =
     (let (discarded, st1) =
            (if discard \<and> je_status e = ''completed'' then op_delete ops (je_id e) st else (False, st))
      in if discarded then Inr st1
         else case op_save ops e st1 of
                Inr st2 \<Rightarrow> Inr st2
              | Inl msg \<Rightarrow>
                  if je_properties e = [] then Inl msg
                  else op_save ops (without_properties now msg e) st1)"

text \<open>Seconds before the next attempt.\<close>

definition retry_delay :: "job_options \<Rightarrow> nat \<Rightarrow> job_error + int" where
  "retry_delay opts attempt =
     (case (if jo_retry_delay opts = [] then Inr 5 else interval_of (jo_retry_delay opts)) of
        Inl e \<Rightarrow> Inl e
      | Inr base \<Rightarrow>
          (let strategy = (if jo_retry_strategy opts = [] then ''exponential'' else jo_retry_strategy opts)
           in Inr (if strategy = ''fixed'' then base
                   else if strategy = ''linear'' then base * (int attempt + 1)
                   else base * 2 ^ attempt)))"

definition find_run :: "nat \<Rightarrow> registration \<Rightarrow> job_run option" where
  "find_run i reg = List.find (\<lambda>r. jr_id r = i) (rg_runs reg)"

definition put_reg :: "string \<Rightarrow> registration \<Rightarrow> 'st scheduler \<Rightarrow> 'st scheduler" where
  "put_reg job_id reg s = s\<lparr>sd_regs := dset job_id reg (sd_regs s)\<rparr>"

definition record_run :: "job_execution \<Rightarrow> nat \<Rightarrow> registration \<Rightarrow> registration" where
  "record_run e i reg =
     update_run i (\<lambda>r. r\<lparr>jr_execution_id := None\<rparr>)
       (reg\<lparr>rg_last_run_at := Some (je_started_at e), rg_last_run_status := Some (je_status e),
            rg_last_run_duration := je_duration e\<rparr>)"

text \<open>After an attempt: the end of the run, or the delay before the next attempt.\<close>

definition after_attempt ::
    "nat \<Rightarrow> job_execution \<Rightarrow> string \<Rightarrow> nat \<Rightarrow> registration \<Rightarrow> 'st scheduler \<Rightarrow> 'st scheduler" where
  "after_attempt n e job_id i reg s =
     (if je_status e \<noteq> ''failed'' \<or> jo_max_retries (rg_options reg) \<le> int n
          \<or> (\<exists>r \<in> set (rg_runs reg). jr_id r = i \<and> jr_cancelled r)
      then put_reg job_id (job_release i reg) s
      else case retry_delay (rg_options reg) n of
             Inl _ \<Rightarrow> put_reg job_id (job_release i reg) s
           | Inr secs \<Rightarrow>
               job_broadcast ''job:retrying''
                 [(''jobId'', JStr job_id), (''executionId'', JStr (je_id e)),
                  (''attempt'', JInt (int n + 1)), (''maxRetries'', JInt (jo_max_retries (rg_options reg))),
                  (''delayMs'', JInt (secs * 1000))]
                 (put_reg job_id (update_run i (\<lambda>r. r\<lparr>jr_phase := Delaying n\<rparr>) reg) s))"

definition finish_attempt ::
    "'st job_env \<Rightarrow> int \<Rightarrow> job_outcome \<Rightarrow> job_ctx \<Rightarrow> string \<Rightarrow> registration \<Rightarrow> job_run \<Rightarrow> nat
     \<Rightarrow> job_execution \<Rightarrow> 'st scheduler \<Rightarrow> 'st scheduler" where
  "finish_attempt env now outcome ctx job_id reg r n e s =
     (let i = jr_id r; cancelled = jr_cancelled r; timeout = jo_timeout (rg_options reg);
          e1 = finished_execution now outcome cancelled timeout ctx e;
          s1 = s\<lparr>sd_events := sd_events s @ outcome_event job_id (je_id e) outcome cancelled timeout\<rparr>;
          reg1 = (if je_status e1 = ''timed_out''
                  then update_run i (\<lambda>r. r\<lparr>jr_cancelled := True\<rparr>) reg else reg)
      in case save_finished (ev_ops env) now e1 (cx_discarded ctx) (sd_storage s1) of
           Inl _ \<Rightarrow> put_reg job_id (job_release i reg1) s1
         | Inr st \<Rightarrow>
             (let reg2 = record_run e1 i reg1;
                  s2 = snd (persist_state env now job_id (put_reg job_id reg2 (s1\<lparr>sd_storage := st\<rparr>)));
                  s3 = (if je_status e1 = ''completed''
                        then job_broadcast ''job:completed''
                               [(''jobId'', JStr job_id), (''executionId'', JStr (je_id e)),
                                (''duration'', JInt (the (je_duration e1)))] s2
                        else s2)
              in after_attempt n e1 job_id i reg2 s3))"

definition new_execution :: "string \<Rightarrow> int \<Rightarrow> nat \<Rightarrow> registration \<Rightarrow> job_execution" where
  "new_execution exec_id now n reg =
     \<lparr>je_id = exec_id, je_job_id = rg_id reg,
      je_job_name = (case jo_name (rg_options reg) of Some v \<Rightarrow> v | None \<Rightarrow> []), je_status = ''running'',
      je_started_at = now, je_completed_at = None, je_duration = None, je_error = None, je_logs = [],
      je_retry_attempt = n, je_properties = []\<rparr>"

definition begin_attempt ::
    "'st job_env \<Rightarrow> int \<Rightarrow> string \<Rightarrow> string \<Rightarrow> registration \<Rightarrow> nat \<Rightarrow> nat \<Rightarrow> 'st scheduler
     \<Rightarrow> 'st scheduler" where
  "begin_attempt env now exec_id job_id reg i n s =
     (let e = new_execution exec_id now n reg;
          reg1 = update_run i (\<lambda>r. r\<lparr>jr_execution_id := Some exec_id, jr_phase := Executing n e\<rparr>) reg
      in case op_save (ev_ops env) e (sd_storage s) of
           Inl _ \<Rightarrow> put_reg job_id (job_release i reg1) s
         | Inr st \<Rightarrow>
             (let s1 = job_broadcast ''job:started''
                         [(''jobId'', JStr job_id), (''executionId'', JStr exec_id), (''timestamp'', JInt now)]
                         (put_reg job_id reg1 (s\<lparr>sd_storage := st\<rparr>))
              in case (jo_timeout (rg_options reg), find_run i reg1) of
                   (Some v, Some r) \<Rightarrow>
                     if v \<noteq> [] \<and> parse_interval v = None
                     then finish_attempt env now (Job_raised (invalid_interval_message v)) new_job_ctx
                            job_id reg1 r n e s1
                     else s1
                 | _ \<Rightarrow> s1))"

end
