(* ===== verification/JobSafety.thy ===== *)
theory JobSafety
  imports JobScheduler
begin

text \<open>
  The scheduler as a transition system and its safety properties: the slots of a job are never
  overbooked, a queued run is never forgotten, every run that holds a slot has a task that will
  release it, and a run makes a bounded number of attempts.
\<close>

section \<open>The step relation of the event loop\<close>

inductive job_step :: "'st job_env \<Rightarrow> 'st scheduler \<Rightarrow> 'st scheduler \<Rightarrow> bool" for env where
  step_register: "job_step env s (snd (job_register class_name opts s))"
| step_start: "job_step env s (snd (job_start env now s))"
| step_stop: "job_step env s (snd (job_stop env now s))"
| step_trigger: "job_step env s (snd (job_trigger job_id s))"
| step_pause: "job_step env s (snd (job_pause env now job_id s))"
| step_resume: "job_step env s (snd (job_resume env now job_id s))"
| step_stop_job: "job_step env s (snd (job_stop_job env now job_id s))"
| step_cancel: "job_step env s (snd (job_cancel_current job_id s))"
| step_update: "job_step env s (snd (job_update_options env now job_id ch s))"
| step_delete: "job_step env s (snd (job_delete_execution env job_id execution_id s))"
| step_delete_all: "job_step env s (snd (job_delete_executions env job_id status s))"
| step_timer: "dget (sd_regs s) job_id = Some reg \<Longrightarrow>
    job_step env s (put_reg job_id (snd (timer_fire env (sd_running s) now reg)) s)"
| step_begin: "dget (sd_regs s) job_id = Some reg \<Longrightarrow> r \<in> set (rg_runs reg) \<Longrightarrow> jr_launched r \<Longrightarrow>
    jr_phase r = Starting n \<Longrightarrow>
    job_step env s (begin_attempt env now exec_id job_id reg (jr_id r) n s)"
| step_finish: "dget (sd_regs s) job_id = Some reg \<Longrightarrow> r \<in> set (rg_runs reg) \<Longrightarrow>
    jr_phase r = Executing n e \<Longrightarrow>
    job_step env s (finish_attempt env now outcome ctx job_id reg r n e s)"
| step_delay_over: "dget (sd_regs s) job_id = Some reg \<Longrightarrow> r \<in> set (rg_runs reg) \<Longrightarrow>
    jr_phase r = Delaying n \<Longrightarrow>
    job_step env s (put_reg job_id (update_run (jr_id r) (\<lambda>r. r\<lparr>jr_phase := Starting (Suc n)\<rparr>) reg) s)"
| step_delay_cancelled: "dget (sd_regs s) job_id = Some reg \<Longrightarrow> r \<in> set (rg_runs reg) \<Longrightarrow>
    jr_phase r = Delaying n \<Longrightarrow> jr_cancelled r \<Longrightarrow>
    job_step env s (put_reg job_id (job_release (jr_id r) reg) s)"

section \<open>Registrations\<close>

definition run_ok :: "job_run \<Rightarrow> bool" where
  "run_ok r \<longleftrightarrow> jr_launched r
     \<and> jr_execution_id r = (case jr_phase r of Executing _ e \<Rightarrow> Some (je_id e) | _ \<Rightarrow> None)"

definition reg_ok :: "registration \<Rightarrow> bool" where
  "reg_ok reg \<longleftrightarrow>
     1 \<le> jo_max_concurrent_runs (rg_options reg)
     \<and> distinct (map jr_id (rg_runs reg)) \<and> (\<forall>r \<in> set (rg_runs reg). jr_id r < rg_fresh reg)
     \<and> (rg_queued reg \<longrightarrow> \<not> has_free_slot reg)
     \<and> (\<forall>r \<in> set (rg_runs reg). run_ok r)"

text \<open>The number of runs only grows up to the limit.\<close>

definition within :: "nat \<Rightarrow> registration \<Rightarrow> bool" where
  "within n reg \<longleftrightarrow>
     int (length (rg_runs reg)) \<le> max (int n) (jo_max_concurrent_runs (rg_options reg))"

definition slots_ok :: "nat \<Rightarrow> registration \<Rightarrow> bool" where
  "slots_ok n reg \<longleftrightarrow> reg_ok reg \<and> within n reg"

lemma slots_okI: "reg_ok reg \<Longrightarrow> length (rg_runs reg) \<le> n \<Longrightarrow> slots_ok n reg"
  by (simp add: slots_ok_def within_def)

text \<open>What the slots depend on: operations that leave it alone keep every property of slots.\<close>

definition same_slots :: "registration \<Rightarrow> registration \<Rightarrow> bool" where
  "same_slots reg reg' \<longleftrightarrow>
     rg_runs reg' = rg_runs reg \<and> rg_queued reg' = rg_queued reg \<and> rg_fresh reg' = rg_fresh reg
     \<and> jo_max_concurrent_runs (rg_options reg') = jo_max_concurrent_runs (rg_options reg)"

lemma same_slots_ok: "same_slots reg reg' \<Longrightarrow> slots_ok n reg' = slots_ok n reg"
  by (simp add: same_slots_def slots_ok_def within_def reg_ok_def has_free_slot_def)

lemma same_slots_refl [simp]: "same_slots reg reg"
  by (simp add: same_slots_def)

lemma same_slots_trans: "same_slots a b \<Longrightarrow> same_slots b c \<Longrightarrow> same_slots a c"
  by (simp add: same_slots_def)

lemma take_slot_launch:
  assumes "reg_ok reg" "has_free_slot reg" "take_slot (reg\<lparr>rg_queued := False\<rparr>) = (i, reg')"
  shows "slots_ok n (job_launch (Some i) reg')"
proof -
  have "map (\<lambda>r. if jr_id r = rg_fresh reg then r\<lparr>jr_launched := True\<rparr> else r) (rg_runs reg) = rg_runs reg"
    using assms(1) by (intro map_idI) (auto simp: reg_ok_def)
  with assms(3) have "job_launch (Some i) reg' = reg\<lparr>rg_queued := False,
      rg_runs := rg_runs reg @ [\<lparr>jr_id = rg_fresh reg, jr_cancelled = False, jr_execution_id = None,
                                jr_launched = True, jr_phase = Starting 0\<rparr>],
      rg_fresh := Suc (rg_fresh reg)\<rparr>"
    by (auto simp: take_slot_def job_launch_def update_run_def)
  with assms(1,2) show ?thesis
    by (auto simp: reg_ok_def has_free_slot_def slots_ok_def within_def run_ok_def)
qed

lemma free_not_queued: "reg_ok reg \<Longrightarrow> has_free_slot reg \<Longrightarrow> reg\<lparr>rg_queued := False\<rparr> = reg"
  by (simp add: reg_ok_def)

lemma start_queued_ok:
  assumes "reg_ok (reg\<lparr>rg_queued := False\<rparr>)" "within n (reg\<lparr>rg_queued := False\<rparr>)"
  shows "slots_ok n (start_queued reg)"
proof (cases "rg_queued reg \<and> has_free_slot reg")
  case True
  obtain i reg' where t: "take_slot (reg\<lparr>rg_queued := False\<rparr>) = (i, reg')" by fastforce
  have "has_free_slot (reg\<lparr>rg_queued := False\<rparr>)" using True by (simp add: has_free_slot_def)
  with True t show ?thesis
    using take_slot_launch [OF assms(1), of i reg' n] by (simp add: start_queued_def)
next
  case False
  then show ?thesis
    using assms by (auto simp: start_queued_def slots_ok_def within_def reg_ok_def has_free_slot_def)
qed

lemma release_ok:
  assumes "\<forall>r \<in> set (rg_runs reg). jr_id r \<noteq> i \<longrightarrow> run_ok r" "1 \<le> jo_max_concurrent_runs (rg_options reg)"
    "distinct (map jr_id (rg_runs reg))" "\<forall>r \<in> set (rg_runs reg). jr_id r < rg_fresh reg"
    "length (rg_runs reg) \<le> n"
  shows "slots_ok n (job_release i reg)"
proof -
  let ?reg = "reg\<lparr>rg_runs := filter (\<lambda>r. jr_id r \<noteq> i) (rg_runs reg), rg_queued := False\<rparr>"
  have "reg_ok ?reg"
    using assms by (auto simp: reg_ok_def distinct_map_filter)
  moreover have "length (filter (\<lambda>r. jr_id r \<noteq> i) (rg_runs reg)) \<le> n"
    using assms(5) length_filter_le order_trans by blast
  ultimately show ?thesis
    unfolding job_release_def by (intro start_queued_ok) (simp_all add: within_def)
qed

lemma cancel_runs_ok: "reg_ok reg \<Longrightarrow> within n reg \<Longrightarrow> slots_ok n (cancel_runs reg)"
  by (auto simp: slots_ok_def within_def reg_ok_def cancel_runs_def comp_def run_ok_def)

lemma admit_launch_ok:
  assumes ok: "reg_ok reg" and n: "length (rg_runs reg) \<le> n"
  shows "case job_admit manual reg of
           (Inl e, reg') \<Rightarrow> slots_ok n reg'
         | (Inr run, reg') \<Rightarrow> slots_ok n (job_launch run reg')"
proof (cases "has_free_slot reg")
  case True
  obtain i reg' where t: "take_slot reg = (i, reg')" by fastforce
  with take_slot_launch [OF ok True, of i reg' n] free_not_queued [OF ok True]
  show ?thesis by (simp add: job_admit_def True)
next
  case False
  with ok n show ?thesis
    by (auto simp: job_admit_def job_launch_def slots_ok_def within_def reg_ok_def has_free_slot_def
        run_ok_def split: list.split)
qed

section \<open>The scheduler\<close>

definition started_with :: "'st scheduler \<Rightarrow> string \<Rightarrow> nat" where
  "started_with s k = (case dget (sd_regs s) k of None \<Rightarrow> 0 | Some reg \<Rightarrow> length (rg_runs reg))"

text \<open>Seen from an earlier state: every registration is well formed and its runs grew within the limit.\<close>

definition slots_state :: "'st scheduler \<Rightarrow> 'st scheduler \<Rightarrow> bool" where
  "slots_state s0 s \<longleftrightarrow> dict_ok (sd_regs s)
     \<and> (\<forall>k reg. dget (sd_regs s) k = Some reg \<longrightarrow> rg_id reg = k \<and> slots_ok (started_with s0 k) reg)"

definition sched_ok :: "'st scheduler \<Rightarrow> bool" where
  "sched_ok s \<longleftrightarrow> dict_ok (sd_regs s)
     \<and> (\<forall>k reg. dget (sd_regs s) k = Some reg \<longrightarrow> rg_id reg = k \<and> reg_ok reg)"

lemma sched_ok_new [simp]: "sched_ok (new_scheduler st)"
  by (simp add: sched_ok_def new_scheduler_def)

lemma slots_state_refl: "sched_ok s \<Longrightarrow> slots_state s s"
  by (auto simp: sched_ok_def slots_state_def started_with_def intro: slots_okI)

lemma slots_state_sched: "slots_state s0 s \<Longrightarrow> sched_ok s"
  by (simp add: sched_ok_def slots_state_def slots_ok_def)

lemma slots_state_regs: "sd_regs t = sd_regs s \<Longrightarrow> slots_state s0 t = slots_state s0 s"
  by (simp add: slots_state_def)

lemma slots_put:
  assumes "slots_state s0 s" "rg_id reg = k" "slots_ok (started_with s0 k) reg"
    and "dict_ok (sd_regs t)" "dget (sd_regs t) = (dget (sd_regs s))(k \<mapsto> reg)"
  shows "slots_state s0 t"
  using assms by (simp add: slots_state_def)

lemma slots_put_reg:
  "slots_state s0 s \<Longrightarrow> rg_id reg = k \<Longrightarrow> slots_ok (started_with s0 k) reg \<Longrightarrow>
     slots_state s0 (put_reg k reg s)"
  by (rule slots_put) (auto simp: put_reg_def slots_state_def dget_dset)

lemma sched_okD:
  "sched_ok s \<Longrightarrow> dget (sd_regs s) k = Some reg \<Longrightarrow>
     rg_id reg = k \<and> reg_ok reg \<and> started_with s k = length (rg_runs reg)"
  by (simp add: sched_ok_def started_with_def)

lemma in_reg_cases:
  "in_reg k f s = (case dget (sd_regs s) k of None \<Rightarrow> (Inl (Job_not_found k), s)
                   | Some reg \<Rightarrow> (fst (f reg), put_reg k (snd (f reg)) s))"
  by (simp add: in_reg_def put_reg_def case_prod_beta Let_def split: option.split)

text \<open>The same, for one registration: a predicate that sequences of its operations keep.\<close>

definition slot_inv :: "nat \<Rightarrow> string \<Rightarrow> registration \<Rightarrow> bool" where
  "slot_inv n i reg \<longleftrightarrow> slots_ok n reg \<and> rg_id reg = i"

definition slot_start :: "nat \<Rightarrow> string \<Rightarrow> registration \<Rightarrow> bool" where
  "slot_start n i reg \<longleftrightarrow> reg_ok reg \<and> length (rg_runs reg) = n \<and> rg_id reg = i"

lemma slot_start_inv: "slot_start n i reg \<Longrightarrow> slot_inv n i reg"
  by (simp add: slot_start_def slot_inv_def slots_okI)

lemma in_reg_keeps [keeps_intros]:
  assumes "\<And>n. keeps (slot_inv n k) f"
  shows "keeps (slots_state s0) (in_reg k f)"
  unfolding keeps_def
proof (intro allI impI)
  fix s assume s: "slots_state s0 s"
  show "slots_state s0 (snd (in_reg k f s))"
  proof (cases "dget (sd_regs s) k")
    case (Some reg)
    with s have "slot_inv (started_with s0 k) k reg" by (auto simp: slots_state_def slot_inv_def)
    then have "slot_inv (started_with s0 k) k (snd (f reg))"
      using assms by (simp add: keeps_def)
    with s Some show ?thesis by (simp add: in_reg_cases slots_put_reg slot_inv_def)
  qed (simp add: in_reg_cases s)
qed

lemma in_reg_first:
  assumes "sched_ok s" and "\<And>n reg. slot_start n k reg \<Longrightarrow> slot_inv n k (snd (f reg))"
  shows "slots_state s (snd (in_reg k f s))"
proof (cases "dget (sd_regs s) k")
  case None
  with slots_state_refl [OF assms(1)] show ?thesis by (simp add: in_reg_cases)
next
  case (Some reg)
  from sched_okD [OF assms(1) Some] have "slot_start (started_with s k) k reg"
    by (simp add: slot_start_def)
  from assms(2) [OF this] slots_state_refl [OF assms(1)] Some show ?thesis
    by (simp add: in_reg_cases slots_put_reg slot_inv_def)
qed

lemma then_keeps:
  "P (snd (m s)) \<Longrightarrow> (\<And>x. keeps P (f x)) \<Longrightarrow> P (snd (andThen m f s))"
  by (auto simp: andThen_def keeps_def split: prod.split sum.split)

lemma then_last:
  "keeps Q m \<Longrightarrow> (\<And>x s. Q s \<Longrightarrow> R (snd (f x s))) \<Longrightarrow> (\<And>s. Q s \<Longrightarrow> R s) \<Longrightarrow> Q s \<Longrightarrow>
     R (snd (andThen m f s))"
  unfolding keeps_def andThen_def by (auto split: prod.split sum.split dest: spec [of _ s])

lemma keeps_state: "keeps P m \<Longrightarrow> P s \<Longrightarrow> P (snd (m s))"
  by (simp add: keeps_def)

lemma persist_keeps [keeps_intros]: "keeps (slots_state s0) (persist_state env now k)"
  by (auto simp: keeps_def persist_state_def slots_state_regs [where s = s for s]
      slots_state_def split: option.split sum.split)

lemma broadcast_slots [simp]: "slots_state s0 (job_broadcast ty d s) = slots_state s0 s"
  by (simp add: job_broadcast_def slots_state_def)

lemma store_keeps [keeps_intros]:
  "keeps (slots_state s0) (delete_in_store env i)"
  "keeps (slots_state s0) (delete_all_in_store env is)"
  by (auto simp: keeps_def delete_in_store_def delete_all_in_store_def slots_state_def split: prod.split)

lemma slot_inv_same:
  "same_slots reg reg' \<Longrightarrow> rg_id reg' = rg_id reg \<Longrightarrow> slot_inv n i reg \<Longrightarrow> slot_inv n i reg'"
  using same_slots_ok by (simp add: slot_inv_def)

lemma slot_start_same:
  "same_slots reg reg' \<Longrightarrow> rg_id reg' = rg_id reg \<Longrightarrow> slot_start n i reg \<Longrightarrow> slot_start n i reg'"
  by (auto simp: slot_start_def same_slots_def reg_ok_def has_free_slot_def)

lemma schedule_next_slots:
  "same_slots reg (snd (schedule_next env running now a b c reg))
   \<and> rg_id (snd (schedule_next env running now a b c reg)) = rg_id reg"
  by (simp add: schedule_next_def same_slots_def Let_def split: sum.split)

lemma schedule_next_keeps [keeps_intros]:
  "keeps (slot_inv n i) (schedule_next env running now a b c)"
  "keeps (slot_start n i) (schedule_next env running now a b c)"
  using slot_inv_same slot_start_same schedule_next_slots unfolding keeps_def by blast+

lemma cancel_timer_slots [simp]:
  "same_slots reg (cancel_timer reg)" "rg_id (cancel_timer reg) = rg_id reg"
  "rg_options (cancel_timer reg) = rg_options reg"
  by (simp_all add: cancel_timer_def same_slots_def)

lemma launch_id [simp]: "rg_id (job_launch run reg) = rg_id reg"
  by (simp add: job_launch_def update_run_def split: option.split)

lemma start_queued_id [simp]: "rg_id (start_queued reg) = rg_id reg"
  by (simp add: start_queued_def take_slot_def)

lemma release_id [simp]: "rg_id (job_release i reg) = rg_id reg"
  by (simp add: job_release_def)

lemma cancel_runs_id [simp]: "rg_id (cancel_runs reg) = rg_id reg"
  by (simp add: cancel_runs_def)

lemma admit_id: "job_admit m reg = (r, reg') \<Longrightarrow> rg_id reg' = rg_id reg"
  by (auto simp: job_admit_def take_slot_def split: if_splits list.splits)

lemma admit_status: "job_admit m reg = (r, reg') \<Longrightarrow> rg_options reg' = rg_options reg"
  by (auto simp: job_admit_def take_slot_def split: if_splits list.splits)

section \<open>Every step keeps the slots in order\<close>

lemma register_slots: "sched_ok s \<Longrightarrow> slots_state s (snd (job_register c opts s))"
proof -
  assume ok: "sched_ok s"
  let ?opts = "with_names c opts"
  have max: "jo_max_concurrent_runs ?opts = jo_max_concurrent_runs opts"
    by (simp add: with_names_def Let_def)
  have "slots_state s (put_reg i (new_registration i ?opts) s)" if "1 \<le> jo_max_concurrent_runs opts" for i
    using that slots_state_refl [OF ok]
    by (intro slots_put_reg slots_okI) (simp_all add: reg_ok_def new_registration_def max)
  with slots_state_refl [OF ok] show ?thesis
    by (simp add: job_register_def act_defs validate_max_concurrent_runs_def Let_def put_reg_def
        split: sum.split)
qed

lemma trigger_slots: "sched_ok s \<Longrightarrow> slots_state s (snd (job_trigger k s))"
proof -
  assume ok: "sched_ok s"
  show ?thesis
  proof (cases "dget (sd_regs s) k")
    case None
    with slots_state_refl [OF ok] show ?thesis
      by (simp add: job_trigger_def act_defs in_reg_cases)
  next
    case (Some reg)
    obtain r reg' where a: "job_admit True reg = (r, reg')" by fastforce
    from sched_okD [OF ok Some] have reg: "rg_id reg = k" "reg_ok reg" "started_with s k = length (rg_runs reg)"
      by auto
    note l = admit_launch_ok [OF reg(2) order_refl, of True, unfolded a]
    note i = admit_id [OF a]
    show ?thesis
    proof (cases r)
      case (Inl e)
      then have "snd (job_trigger k s) = put_reg k reg' s"
        using a Some by (simp add: job_trigger_def andThen_def in_reg_cases)
      with Inl l reg i slots_state_refl [OF ok] show ?thesis
        by (simp add: slots_put_reg)
    next
      case (Inr run)
      let ?t = "snd (job_trigger k s)"
      have t: "sd_regs ?t = dset k (job_launch run reg') (dset k reg' (sd_regs s))"
        using a Inr Some
        by (simp add: job_trigger_def act_defs in_reg_cases job_broadcast_def dget_dset put_reg_def)
      have d: "dict_ok (sd_regs ?t)" "dget (sd_regs ?t) = (dget (sd_regs s))(k \<mapsto> job_launch run reg')"
        using ok by (simp_all add: t sched_ok_def dget_dset fun_eq_iff)
      have "slots_ok (started_with s k) (job_launch run reg')" "rg_id (job_launch run reg') = k"
        using l Inr reg i by simp_all
      from slots_put [OF slots_state_refl [OF ok] this(2,1) d] show ?thesis .
    qed
  qed
qed

lemma inv_updates [simp]:
  "slot_inv n i (reg\<lparr>rg_status := st\<rparr>) = slot_inv n i reg"
  "slot_inv n i (reg\<lparr>rg_timer := tm\<rparr>) = slot_inv n i reg"
  "slot_inv n i (reg\<lparr>rg_last_run_at := l\<rparr>) = slot_inv n i reg"
  "slot_inv n i (cancel_timer reg) = slot_inv n i reg"
  "slot_start n i (reg\<lparr>rg_status := st\<rparr>) = slot_start n i reg"
  "slot_start n i (reg\<lparr>rg_timer := tm\<rparr>) = slot_start n i reg"
  "slot_start n i (reg\<lparr>rg_last_run_at := l\<rparr>) = slot_start n i reg"
  "slot_start n i (cancel_timer reg) = slot_start n i reg"
  by (simp_all add: slot_inv_def slot_start_def slots_ok_def within_def reg_ok_def has_free_slot_def
      cancel_timer_def)

lemma inv_cancel_runs [simp]: "slot_inv n i reg \<Longrightarrow> slot_inv n i (cancel_runs reg)"
  using cancel_runs_ok [of reg n] by (auto simp: slot_inv_def slots_ok_def)

lemma control_slots:
  assumes ok: "sched_ok s"
  shows "slots_state s (snd (job_pause env now k s))"
    and "slots_state s (snd (job_resume env now k s))"
    and "slots_state s (snd (job_stop_job env now k s))"
    and "slots_state s (snd (job_cancel_current k s))"
  using slots_state_refl [OF ok] unfolding job_pause_def job_resume_def job_stop_job_def job_cancel_current_def
  by (auto intro!: keeps_state [where P = "slots_state s"] keeps_intros)

lemma delete_slots:
  assumes ok: "sched_ok s"
  shows "slots_state s (snd (job_delete_execution env k i s))"
    and "slots_state s (snd (job_delete_executions env k st s))"
  using slots_state_refl [OF ok]
  unfolding job_delete_execution_def job_delete_executions_def registered_def ensure_storage_deletes_def
  by (auto intro!: keeps_state [where P = "slots_state s"] keeps_intros)

lemma stop_slots:
  assumes ok: "sched_ok s"
  shows "slots_state s (snd (job_stop env now s))"
proof -
  have one: "keeps (slots_state s) (stop_reg env now k)" for k
    unfolding stop_reg_def by (auto intro!: keeps_intros)
  have "keeps (slots_state s) (stop_regs env now ks)" for ks
    by (induction ks) (auto intro!: keeps_intros one)
  then have "keeps (slots_state s) (job_stop env now)"
    unfolding job_stop_def by (intro keeps_intros) (simp_all add: slots_state_def)
  then show ?thesis using slots_state_refl [OF ok] by (rule keeps_state)
qed

text \<open>Options that do not concern the slots may change freely.\<close>

lemma start_then:
  "keeps (slot_start n i) m \<Longrightarrow> (\<And>x s. slot_start n i s \<Longrightarrow> slot_inv n i (snd (f x s))) \<Longrightarrow>
     slot_start n i s \<Longrightarrow> slot_inv n i (snd (andThen m f s))"
  by (rule then_last [where Q = "slot_start n i"]) (simp_all add: slot_start_inv)

lemma set_opts_start [keeps_intros]:
  assumes "\<And>opts. jo_max_concurrent_runs (f opts) = jo_max_concurrent_runs opts"
  shows "keeps (slot_start n i) (set_opts f)"
  using assms by (auto simp: keeps_def set_opts_def modify_def slot_start_def reg_ok_def has_free_slot_def)

lemma when_given_keeps [keeps_intros]: "(\<And>x. keeps P (f x)) \<Longrightarrow> keeps P (when_given v f)"
  by (simp add: when_given_def keeps_pure split: option.split)

lemma check_interval_keeps [keeps_intros]: "keeps P (check_interval v)"
  by (simp add: check_interval_def keeps_pure split: sum.split)

lemma change_schedule_start [keeps_intros]: "keeps (slot_start n i) (change_schedule env ch)"
  unfolding change_schedule_def by (intro keeps_intros) simp_all

lemma change_retries_start [keeps_intros]: "keeps (slot_start n i) (change_retries ch)"
  unfolding change_retries_def by (intro keeps_intros) simp_all

lemma new_limit_slots:
  assumes "slot_start n i reg" "1 \<le> m"
  shows "slot_inv n i (start_queued (reg\<lparr>rg_options := (rg_options reg)\<lparr>jo_max_concurrent_runs := m\<rparr>\<rparr>))"
proof -
  let ?reg = "reg\<lparr>rg_options := (rg_options reg)\<lparr>jo_max_concurrent_runs := m\<rparr>\<rparr>"
  have "slots_ok n (start_queued ?reg)"
    using assms by (intro start_queued_ok) (auto simp: slot_start_def reg_ok_def within_def)
  with assms show ?thesis by (simp add: slot_inv_def slot_start_def)
qed

lemma change_limits_start:
  "keeps (slot_start n i) (when_given (jc_timeout ch) (\<lambda>v.
     andThen (check_interval v) (\<lambda>_. set_opts (\<lambda>o1. o1\<lparr>jo_timeout := Some v\<rparr>))))"
  "keeps (slot_start n i) (when_given (jc_overlap_policy ch) (\<lambda>v.
     andThen (guard (v \<in> {''skip'', ''queue'', ''cancel''})
                (Job_value_error (''Invalid overlap policy: '' @ py_repr v))) (\<lambda>_.
     set_opts (\<lambda>o1. o1\<lparr>jo_overlap_policy := v\<rparr>))))"
  by (intro keeps_intros, simp)+

lemma change_limits_slots: "slot_start n i reg \<Longrightarrow> slot_inv n i (snd (change_limits ch reg))"
proof (unfold change_limits_def, erule start_then [OF change_limits_start(1), rotated],
    erule start_then [OF change_limits_start(2), rotated])
  fix u u' :: unit and s assume s: "slot_start n i s"
  show "slot_inv n i (snd (when_given (jc_max_concurrent_runs ch) (\<lambda>v.
      andThen (lift (validate_max_concurrent_runs v)) (\<lambda>n.
      andThen (set_opts (\<lambda>o1. o1\<lparr>jo_max_concurrent_runs := n\<rparr>)) (\<lambda>_.
      modify start_queued))) s))"
    using new_limit_slots [OF s] slot_start_inv [OF s]
    by (auto simp: when_given_def act_defs set_opts_def validate_max_concurrent_runs_def
        split: option.split json.split)
qed

lemma apply_changes_slots: "slot_start n i reg \<Longrightarrow> slot_inv n i (snd (apply_changes env ch reg))"
proof -
  have k: "keeps (slot_start n i) (andThen (when_given (jc_max_concurrent_runs ch)
                (\<lambda>v. andThen (lift (validate_max_concurrent_runs v)) (\<lambda>_. ret ()))) (\<lambda>_.
     andThen (when_given (jc_description ch) (\<lambda>v. set_opts (\<lambda>o1. o1\<lparr>jo_description := Some v\<rparr>))) (\<lambda>_.
     andThen (when_given (jc_group ch) (\<lambda>v. set_opts (\<lambda>o1. o1\<lparr>jo_group := Some v\<rparr>))) (\<lambda>_.
     andThen (change_schedule env ch) (\<lambda>_. change_retries ch)))))"
    by (intro keeps_intros) simp_all
  have e: "apply_changes env ch = andThen (andThen (when_given (jc_max_concurrent_runs ch)
                (\<lambda>v. andThen (lift (validate_max_concurrent_runs v)) (\<lambda>_. ret ()))) (\<lambda>_.
     andThen (when_given (jc_description ch) (\<lambda>v. set_opts (\<lambda>o1. o1\<lparr>jo_description := Some v\<rparr>))) (\<lambda>_.
     andThen (when_given (jc_group ch) (\<lambda>v. set_opts (\<lambda>o1. o1\<lparr>jo_group := Some v\<rparr>))) (\<lambda>_.
     andThen (change_schedule env ch) (\<lambda>_. change_retries ch))))) (\<lambda>_. change_limits ch)"
    by (simp add: apply_changes_def andThen_assoc)
  show "slot_start n i reg \<Longrightarrow> ?thesis"
    unfolding e by (rule then_last [OF k]) (simp_all add: change_limits_slots slot_start_inv)
qed

lemma reschedule_keeps [keeps_intros]: "keeps (slot_inv n i) (reschedule env running now)"
  using schedule_next_keeps(1) [of n i env running now False False None]
  by (auto simp: keeps_def reschedule_def)

lemma update_slots:
  assumes ok: "sched_ok s"
  shows "slots_state s (snd (job_update_options env now k ch s))"
proof -
  have "slots_state s (snd (in_reg k (andThen (apply_changes env ch) (\<lambda>_. reschedule env r now)) s))" for r
    by (rule in_reg_first [OF ok], rule then_keeps) (auto intro: apply_changes_slots keeps_intros)
  then have "slots_state s (snd (andThen (in_reg k (andThen (apply_changes env ch)
      (\<lambda>_. reschedule env r now))) (\<lambda>_. modify (job_broadcast ''job:updated'' [(''jobId'', JStr k)])) s))" for r
    by (rule then_keeps) (auto intro!: keeps_intros)
  then show ?thesis
    by (simp add: job_update_options_def andThen_def [of "reads sd_running"] reads_def)
qed

lemma launch_admitted_slots: "slot_start n i reg \<Longrightarrow> slot_inv n i (snd (launch_admitted reg))"
proof -
  assume s: "slot_start n i reg"
  obtain r reg' where a: "job_admit False reg = (r, reg')" by fastforce
  from s admit_launch_ok [of reg n False] admit_id [OF a] a show ?thesis
    by (cases r) (auto simp: launch_admitted_def act_defs slot_start_def slot_inv_def)
qed

lemma restore_slots: "keeps (slot_start n i) (modify (\<lambda>reg. restore_state (dget states (rg_id reg)) reg))"
  by (rule keeps_modify) (simp add: restore_state_def Let_def split: option.split)

lemma start_reg_slots: "slot_start n i reg \<Longrightarrow> slot_inv n i (snd (start_reg env now states reg))"
proof (unfold start_reg_def, erule start_then [OF restore_slots, rotated], erule start_then [OF keeps_pure(5), rotated])
  fix u active reg assume s: "slot_start n i reg"
  have sn: "slot_inv n i (snd (schedule_next env True now a b c x))" if "slot_start n i x" for x a b c
    using that schedule_next_keeps(2) slot_start_inv unfolding keeps_def by blast
  have last: "slot_inv n i (snd (andThen (schedule_next env True now False False None) (\<lambda>_.
            if b then launch_admitted else ret ()) x))" if "slot_start n i x" for x b
    using that by (rule start_then [OF schedule_next_keeps(2), rotated])
      (auto simp: launch_admitted_slots slot_start_inv ret_def)
  have branch: "slot_inv n i (snd ((if by_interval then schedule_next env True now b False None
      else andThen (schedule_next env True now False False None) (\<lambda>_.
            if b then launch_admitted else ret ())) x))" if "slot_start n i x" for by_interval b x
    using sn [OF that] last [OF that] by simp
  have "slot_inv n i (snd (andThen (reads_err (\<lambda>reg. if jo_run_on_start (rg_options reg)
      then due_on_start env reg now else Inr False)) (\<lambda>run_on_start.
       andThen (reads (\<lambda>reg. given (jo_interval (rg_options reg)) \<and> \<not> given (jo_schedule (rg_options reg)))) (\<lambda>by_interval.
       if by_interval then schedule_next env True now run_on_start False None
       else andThen (schedule_next env True now False False None) (\<lambda>_.
            if run_on_start then launch_admitted else ret ()))) reg))"
    using s
    by (rule start_then [OF keeps_pure(6), rotated])
      (erule start_then [OF keeps_pure(5), rotated], rule branch)
  with slot_start_inv [OF s]
  show "slot_inv n i (snd ((if \<not> active then ret () else andThen (reads_err (\<lambda>reg. if jo_run_on_start (rg_options reg)
      then due_on_start env reg now else Inr False)) (\<lambda>run_on_start.
       andThen (reads (\<lambda>reg. given (jo_interval (rg_options reg)) \<and> \<not> given (jo_schedule (rg_options reg)))) (\<lambda>by_interval.
       if by_interval then schedule_next env True now run_on_start False None
       else andThen (schedule_next env True now False False None) (\<lambda>_.
            if run_on_start then launch_admitted else ret ())))) reg))"
    by (simp add: ret_def)
qed

lemma for_regs_effect:
  "map fst (snd (for_regs f d)) = map fst d
   \<and> (\<forall>k reg'. dget (snd (for_regs f d)) k = Some reg' \<longrightarrow>
        (\<exists>reg. dget d k = Some reg \<and> (reg' = reg \<or> reg' = snd (f reg))))"
proof (induction d)
  case (Cons p d)
  obtain k reg where p: "p = (k, reg)" by fastforce
  obtain r reg' where f: "f reg = (r, reg')" by fastforce
  show ?case
    using Cons by (cases r) (auto simp: p f Let_def split: prod.splits)
qed simp

lemma start_slots:
  assumes ok: "sched_ok s"
  shows "slots_state s (snd (job_start env now s))"
proof (cases "finish_interrupted_runs env (dvalues (sd_regs s)) (sd_storage s)")
  case None
  with slots_state_refl [OF ok] show ?thesis by (simp add: job_start_def slots_state_def)
next
  case (Some st)
  let ?f = "start_reg env now (op_states (ev_ops env) st)"
  have "sd_regs (snd (job_start env now s)) = snd (for_regs ?f (sd_regs s))"
    by (simp add: job_start_def Some Let_def split: prod.split)
  moreover have "rg_id reg' = k \<and> slots_ok (started_with s k) reg'"
    if new: "dget (snd (for_regs ?f (sd_regs s))) k = Some reg'" for k reg'
  proof -
    from for_regs_effect [of ?f "sd_regs s"] new obtain reg
      where reg: "dget (sd_regs s) k = Some reg" "reg' = reg \<or> reg' = snd (?f reg)" by blast
    from sched_okD [OF ok reg(1)] have "slot_start (started_with s k) k reg"
      by (simp add: slot_start_def)
    from reg(2) start_reg_slots [OF this] slot_start_inv [OF this] show ?thesis
      by (auto simp: slot_inv_def)
  qed
  moreover have "dict_ok (snd (for_regs ?f (sd_regs s)))"
    using ok for_regs_effect [of ?f "sd_regs s"] by (simp add: dict_ok_def sched_ok_def)
  ultimately show ?thesis by (simp add: slots_state_def)
qed

lemma timer_slots: "slot_start n i reg \<Longrightarrow> slot_inv n i (snd (timer_fire env running now reg))"
proof -
  assume s: "slot_start n i reg"
  obtain r reg' where a: "job_admit False (reg\<lparr>rg_timer := None\<rparr>) = (r, reg')" by fastforce
  have t: "slot_start n i (reg\<lparr>rg_timer := None\<rparr>)" using s by simp
  have l: "slot_inv n i (case r of Inl _ \<Rightarrow> reg' | Inr run \<Rightarrow> job_launch run reg')"
    using t admit_launch_ok [of "reg\<lparr>rg_timer := None\<rparr>" n False] admit_id [OF a] a
    by (auto simp: slot_start_def slot_inv_def split: sum.split)
  have sn: "slot_inv n i x \<Longrightarrow> slot_inv n i (snd (schedule_next env running now a b c x))" for x a b c
    using schedule_next_keeps(1) unfolding keeps_def by blast
  show ?thesis
    using l sn slot_start_inv [OF s] slot_start_inv [OF t] by (auto simp: timer_fire_def a Let_def split: sum.splits)
qed

section \<open>Every step of a run keeps the slots in order\<close>

lemma update_run_fields [simp]:
  "rg_id (update_run j f reg) = rg_id reg" "rg_options (update_run j f reg) = rg_options reg"
  "rg_queued (update_run j f reg) = rg_queued reg" "rg_fresh (update_run j f reg) = rg_fresh reg"
  "length (rg_runs (update_run j f reg)) = length (rg_runs reg)"
  by (simp_all add: update_run_def)

lemma update_run_ids:
  "(\<And>r. jr_id (f r) = jr_id r) \<Longrightarrow> map jr_id (rg_runs (update_run j f reg)) = map jr_id (rg_runs reg)"
  by (simp add: update_run_def)

text \<open>All runs but one are fine: what holds while the step of that run is under way.\<close>

definition reg_but :: "nat \<Rightarrow> nat \<Rightarrow> string \<Rightarrow> registration \<Rightarrow> bool" where
  "reg_but j n i reg \<longleftrightarrow> rg_id reg = i \<and> length (rg_runs reg) \<le> n
     \<and> 1 \<le> jo_max_concurrent_runs (rg_options reg) \<and> distinct (map jr_id (rg_runs reg))
     \<and> (\<forall>r \<in> set (rg_runs reg). jr_id r < rg_fresh reg)
     \<and> (rg_queued reg \<longrightarrow> \<not> has_free_slot reg)
     \<and> (\<forall>r \<in> set (rg_runs reg). jr_id r \<noteq> j \<longrightarrow> run_ok r)"

lemma reg_but_start: "slot_start n i reg \<Longrightarrow> reg_but j n i reg"
  by (simp add: slot_start_def reg_ok_def reg_but_def)

lemma reg_but_release: "reg_but j n i reg \<Longrightarrow> slot_inv n i (job_release j reg)"
  by (simp add: reg_but_def slot_inv_def release_ok)

lemma reg_but_update:
  assumes "reg_but j n i reg" "\<And>r. jr_id (f r) = jr_id r"
  shows "reg_but j n i (update_run j f reg)"
  using assms by (auto simp: reg_but_def update_run_ids has_free_slot_def)
    (auto simp: update_run_def split: if_splits)

lemma reg_but_done:
  assumes "reg_but j n i reg" "\<And>r. jr_id (f r) = jr_id r"
    and "\<And>r. r \<in> set (rg_runs reg) \<Longrightarrow> jr_id r = j \<Longrightarrow> run_ok (f r)"
  shows "slot_inv n i (update_run j f reg)"
proof -
  have "\<forall>r \<in> set (rg_runs (update_run j f reg)). run_ok r"
    using assms by (auto simp: update_run_def reg_but_def)
  with reg_but_update [OF assms(1,2)] show ?thesis
    by (auto simp: reg_but_def slot_inv_def reg_ok_def intro: slots_okI)
qed

text \<open>Only the registration of one job has changed.\<close>

definition others_same :: "string \<Rightarrow> 'st scheduler \<Rightarrow> 'st scheduler \<Rightarrow> bool" where
  "others_same k s t \<longleftrightarrow> dict_ok (sd_regs t) \<and> (\<forall>k'. k' \<noteq> k \<longrightarrow> dget (sd_regs t) k' = dget (sd_regs s) k')"

lemma others_same_intros:
  "sched_ok s \<Longrightarrow> others_same k s s"
  "others_same k s t \<Longrightarrow> others_same k s (put_reg k reg t)"
  "others_same k s t \<Longrightarrow> sd_regs u = sd_regs t \<Longrightarrow> others_same k s u"
  by (auto simp: others_same_def sched_ok_def put_reg_def dget_dset)

lemma slots_others:
  assumes "sched_ok s" "others_same k s t" "slot_inv (started_with s k) k reg"
  shows "slots_state s (put_reg k reg t)"
proof -
  have "rg_id reg' = k' \<and> slots_ok (started_with s k') reg'"
    if "dget (sd_regs t) k' = Some reg'" "k' \<noteq> k" for k' reg'
    using that assms(1,2) slots_state_refl [OF assms(1)] by (auto simp: others_same_def slots_state_def)
  with assms show ?thesis
    by (auto simp: slots_state_def put_reg_def others_same_def dget_dset slot_inv_def split: if_splits)
qed

lemma persist_regs [simp]: "sd_regs (snd (persist_state env now k s)) = sd_regs s"
  by (simp add: persist_state_def split: option.split sum.split)

lemma broadcast_regs [simp]: "sd_regs (job_broadcast ty d s) = sd_regs s"
  by (simp add: job_broadcast_def)

lemma put_reg_regs [simp]: "sd_regs (put_reg k reg s) = dset k reg (sd_regs s)"
  by (simp add: put_reg_def)

lemma after_attempt_slots:
  assumes ok: "sched_ok s" and oth: "others_same k s t"
    and reg: "reg_but i (started_with s k) k reg"
    and idle: "\<forall>r \<in> set (rg_runs reg). jr_id r = i \<longrightarrow> jr_launched r \<and> jr_execution_id r = None"
  shows "slots_state s (after_attempt n e k i reg t)"
proof -
  note rel = slots_others [OF ok oth reg_but_release [OF reg]]
  have "slot_inv (started_with s k) k (update_run i (\<lambda>r. r\<lparr>jr_phase := Delaying n\<rparr>) reg)"
    using reg idle by (intro reg_but_done) (auto simp: run_ok_def)
  from slots_others [OF ok oth this] rel show ?thesis
    by (simp add: after_attempt_def split: sum.split)
qed

lemma finish_attempt_slots:
  assumes ok: "sched_ok s" and oth: "others_same k s t"
    and reg: "reg_but (jr_id r) (started_with s k) k reg"
    and launched: "\<forall>r' \<in> set (rg_runs reg). jr_id r' = jr_id r \<longrightarrow> jr_launched r'"
  shows "slots_state s (finish_attempt env now outcome ctx k reg r n e t)"
proof -
  let ?i = "jr_id r"
  let ?c = "update_run ?i (\<lambda>r. r\<lparr>jr_cancelled := True\<rparr>) reg"
  define reg1 where "reg1 = (if je_status (finished_execution now outcome (jr_cancelled r)
    (jo_timeout (rg_options reg)) ctx e) = ''timed_out'' then ?c else reg)"
  have reg1: "reg_but ?i (started_with s k) k reg1"
    "\<forall>r' \<in> set (rg_runs reg1). jr_id r' = ?i \<longrightarrow> jr_launched r'"
    using reg launched by (auto simp: reg1_def reg_but_update) (auto simp: update_run_def split: if_splits)
  let ?e = "finished_execution now outcome (jr_cancelled r) (jo_timeout (rg_options reg)) ctx e"
  let ?s1 = "t\<lparr>sd_events := sd_events t @ outcome_event k (je_id e) outcome (jr_cancelled r)
      (jo_timeout (rg_options reg))\<rparr>"
  have s1: "others_same k s ?s1" using oth by (rule others_same_intros(3)) simp
  have reg2: "reg_but ?i (started_with s k) k (record_run ?e ?i reg1)"
    "\<forall>r' \<in> set (rg_runs (record_run ?e ?i reg1)). jr_id r' = ?i \<longrightarrow> jr_launched r' \<and> jr_execution_id r' = None"
  proof -
    show "reg_but ?i (started_with s k) k (record_run ?e ?i reg1)"
      unfolding record_run_def using reg1(1) by (intro reg_but_update) (simp_all add: reg_but_def has_free_slot_def)
    show "\<forall>r' \<in> set (rg_runs (record_run ?e ?i reg1)). jr_id r' = ?i \<longrightarrow> jr_launched r' \<and> jr_execution_id r' = None"
      using reg1(2) by (auto simp: record_run_def update_run_def)
  qed
  have s3: "others_same k s t' \<Longrightarrow> slots_state s (after_attempt n ?e k ?i (record_run ?e ?i reg1) t')" for t'
    by (rule after_attempt_slots [OF ok _ reg2])
  have regs: "others_same k s u" if "sd_regs u = dset k x (sd_regs ?s1)" for u :: "'a scheduler" and x
    using others_same_intros(3) [OF others_same_intros(2) [OF s1, of x], of u] that
    by (simp add: put_reg_def)
  show ?thesis
    unfolding finish_attempt_def Let_def reg1_def [symmetric]
    by (auto split: sum.split intro!: slots_others [OF ok s1] reg_but_release reg1 s3 regs)
qed

lemma begin_attempt_slots:
  assumes ok: "sched_ok s" and reg: "slot_start (started_with s k) k reg"
  shows "slots_state s (begin_attempt env now exec_id k reg i n s)"
proof -
  let ?e = "new_execution exec_id now n reg"
  let ?f = "\<lambda>r. r\<lparr>jr_execution_id := Some exec_id, jr_phase := Executing n ?e\<rparr>"
  let ?reg1 = "update_run i ?f reg"
  have runs: "\<forall>r \<in> set (rg_runs reg). run_ok r" using reg by (simp add: slot_start_def reg_ok_def)
  have but: "reg_but j (started_with s k) k ?reg1" for j
  proof -
    have "slot_inv (started_with s k) k ?reg1"
      using runs by (intro reg_but_done [OF reg_but_start [OF reg]]) (auto simp: run_ok_def new_execution_def)
    moreover have "length (rg_runs ?reg1) = started_with s k" using reg by (simp add: slot_start_def)
    ultimately show ?thesis by (simp add: slot_inv_def slots_ok_def reg_ok_def reg_but_def)
  qed
  have inv: "slot_inv (started_with s k) k ?reg1"
    using runs by (intro reg_but_done [OF reg_but_start [OF reg]]) (auto simp: run_ok_def new_execution_def)
  have launched: "\<forall>r \<in> set (rg_runs ?reg1). jr_launched r"
    using runs by (auto simp: update_run_def run_ok_def)
  note s = others_same_intros(1) [OF ok]
  have put: "slots_state s (put_reg k ?reg1 (s\<lparr>sd_storage := st\<rparr>))" for st
    by (rule slots_others [OF ok others_same_intros(3) [OF s] inv]) simp
  have others: "others_same k s u" if "sd_regs u = dset k ?reg1 (sd_regs s)" for u :: "'a scheduler"
    using others_same_intros(3) [OF others_same_intros(2) [OF s, where reg = ?reg1], of u] that by simp
  have fin: "slots_state s (finish_attempt env now outcome ctx k ?reg1 r n e u)"
    if "sd_regs u = dset k ?reg1 (sd_regs s)" for u :: "'a scheduler" and outcome ctx r e
    using but launched that by (intro finish_attempt_slots [OF ok] others) auto
  show ?thesis
    unfolding begin_attempt_def Let_def
    by (auto split: sum.split option.split intro!: slots_others [OF ok s] reg_but_release but put fin)
qed

lemma run_steps_slots:
  assumes ok: "sched_ok s" and reg: "dget (sd_regs s) k = Some reg"
  shows "slots_state s (put_reg k (snd (timer_fire env running now reg)) s)"
    and "slots_state s (begin_attempt env now exec_id k reg i n s)"
    and "r \<in> set (rg_runs reg) \<Longrightarrow> slots_state s (finish_attempt env now outcome ctx k reg r n e s)"
    and "r \<in> set (rg_runs reg) \<Longrightarrow> jr_phase r = Delaying n \<Longrightarrow>
      slots_state s (put_reg k (update_run (jr_id r) (\<lambda>r. r\<lparr>jr_phase := Starting (Suc n)\<rparr>) reg) s)"
    and "slots_state s (put_reg k (job_release j reg) s)"
proof -
  have start: "slot_start (started_with s k) k reg"
    using sched_okD [OF ok reg] by (simp add: slot_start_def)
  note s = others_same_intros(1) [OF ok]
  have runs: "\<forall>r \<in> set (rg_runs reg). run_ok r" and d: "distinct (map jr_id (rg_runs reg))"
    using start by (simp_all add: slot_start_def reg_ok_def)
  show "slots_state s (put_reg k (snd (timer_fire env running now reg)) s)"
    by (rule slots_others [OF ok s timer_slots [OF start]])
  show "slots_state s (begin_attempt env now exec_id k reg i n s)"
    by (rule begin_attempt_slots [OF ok start])
  show "slots_state s (put_reg k (job_release j reg) s)"
    by (rule slots_others [OF ok s reg_but_release [OF reg_but_start [OF start]]])
  show "slots_state s (finish_attempt env now outcome ctx k reg r n e s)"
    using runs by (intro finish_attempt_slots [OF ok s reg_but_start [OF start]]) (simp add: run_ok_def)
  assume r: "r \<in> set (rg_runs reg)" "jr_phase r = Delaying n"
  have same: "r' = r" if "r' \<in> set (rg_runs reg)" "jr_id r' = jr_id r" for r'
    using that d r(1) by (meson distinct_map inj_onD)
  have "run_ok (r'\<lparr>jr_phase := Starting (Suc n)\<rparr>)" if "r' \<in> set (rg_runs reg)" "jr_id r' = jr_id r" for r'
    using same [OF that] r runs by (auto simp: run_ok_def)
  then show "slots_state s (put_reg k (update_run (jr_id r) (\<lambda>r. r\<lparr>jr_phase := Starting (Suc n)\<rparr>) reg) s)"
    by (intro slots_others [OF ok s] reg_but_done [OF reg_but_start [OF start]]) simp_all
qed

lemma step_slots: "sched_ok s \<Longrightarrow> job_step env s t \<Longrightarrow> slots_state s t"
  by (erule job_step.cases)
    (auto intro: register_slots start_slots stop_slots trigger_slots control_slots update_slots
      delete_slots run_steps_slots)

section \<open>Safety of the slots\<close>

definition scheduler_init :: "'st scheduler \<Rightarrow> bool" where
  "scheduler_init s = (\<exists>st. s = new_scheduler st)"

interpretation jobs: invariant_system scheduler_init "job_step env" sched_ok
proof unfold_locales
  fix s assume "scheduler_init s"
  then show "sched_ok s" by (auto simp: scheduler_init_def)
next
  fix s t assume "sched_ok s" "job_step env s t"
  then show "sched_ok t" using step_slots slots_state_sched by blast
qed

text \<open>
  C14. The slots of a job are never overbooked: whatever happens in a reachable state (timers,
  triggers, retries, cancellations, changes of the limit), a step that adds runs to a job leaves at
  most \<open>max_concurrent_runs\<close> of them.
\<close>

theorem runs_within_limit:
  assumes "reachable scheduler_init (job_step env) s" "job_step env s t"
    and "dget (sd_regs s) k = Some reg" "dget (sd_regs t) k = Some reg'"
    and "length (rg_runs reg) < length (rg_runs reg')"
  shows "int (length (rg_runs reg')) \<le> jo_max_concurrent_runs (rg_options reg')"
proof -
  have "slots_state s t" using jobs.reachable_inv [OF assms(1)] assms(2) by (rule step_slots)
  with assms(4) have "within (started_with s k) reg'"
    by (simp add: slots_state_def slots_ok_def)
  with assms(3,5) show ?thesis by (simp add: within_def started_with_def)
qed


definition mem_env :: "job_storage job_env" where
  "mem_env = \<lparr>ev_ops = mem_ops, ev_cron_next = (\<lambda>_ t. Some (t + 60 * SECOND)), ev_cron_valid = (\<lambda>_. True)\<rparr>"

text \<open>A job with one slot and the \<open>queue\<close> policy, triggered once and twice.\<close>

definition sample_sched0 :: "job_storage scheduler" where
  "sample_sched0 = snd (job_register ''Mail''
     (default_job_options\<lparr>jo_overlap_policy := ''queue'', jo_max_retries := 2\<rparr>) (new_scheduler new_job_storage))"

definition sample_sched1 :: "job_storage scheduler" where
  "sample_sched1 = snd (job_trigger ''Mail'' sample_sched0)"

definition sample_sched2 :: "job_storage scheduler" where
  "sample_sched2 = snd (job_trigger ''Mail'' sample_sched1)"

lemma sample_reachable:
  "reachable scheduler_init (job_step mem_env) sample_sched0"
  "reachable scheduler_init (job_step mem_env) sample_sched1"
  "reachable scheduler_init (job_step mem_env) sample_sched2"
proof -
  have "reachable scheduler_init (job_step mem_env) (new_scheduler new_job_storage)"
    by (rule reach_init) (auto simp: scheduler_init_def)
  then show 0: "reachable scheduler_init (job_step mem_env) sample_sched0"
    unfolding sample_sched0_def by (rule reach_step) (rule step_register)
  then show 1: "reachable scheduler_init (job_step mem_env) sample_sched1"
    unfolding sample_sched1_def by (rule reach_step) (rule step_trigger)
  then show "reachable scheduler_init (job_step mem_env) sample_sched2"
    unfolding sample_sched2_def by (rule reach_step) (rule step_trigger)
qed

definition sample_reg :: "bool \<Rightarrow> job_run list \<Rightarrow> nat \<Rightarrow> registration" where
  "sample_reg queued runs fresh =
     (new_registration ''Mail'' (with_names ''Mail''
        (default_job_options\<lparr>jo_overlap_policy := ''queue'', jo_max_retries := 2\<rparr>)))
     \<lparr>rg_queued := queued, rg_runs := runs, rg_fresh := fresh\<rparr>"

definition sample_job_run :: job_run where
  "sample_job_run = \<lparr>jr_id = 0, jr_cancelled = False, jr_execution_id = None, jr_launched = True,
     jr_phase = Starting 0\<rparr>"

lemma sample_regs:
  "sd_regs sample_sched0 = [(''Mail'', sample_reg False [] 0)]"
  "sd_regs sample_sched1 = [(''Mail'', sample_reg False [sample_job_run] 1)]"
  "sd_regs sample_sched2 = [(''Mail'', sample_reg True [sample_job_run] 1)]"
  by code_simp+

theorem runs_within_limit_witness:
  "int (length (rg_runs (sample_reg False [sample_job_run] 1)))
     \<le> jo_max_concurrent_runs (rg_options (sample_reg False [sample_job_run] 1))"
proof -
  have "job_step mem_env sample_sched0 sample_sched1"
    unfolding sample_sched1_def by (rule step_trigger)
  then show ?thesis
    by (rule runs_within_limit [OF sample_reachable(1), of _ "''Mail''" "sample_reg False [] 0"])
      (simp_all add: sample_regs, simp add: sample_reg_def)
qed


section \<open>A run ends\<close>

text \<open>The steps of one run, and how many it has left when the job may be retried \<open>m\<close> times.\<close>

inductive run_step :: "'st job_env \<Rightarrow> string \<Rightarrow> nat \<Rightarrow> 'st scheduler \<Rightarrow> 'st scheduler \<Rightarrow> bool"
  for env k j where
  run_begin: "dget (sd_regs s) k = Some reg \<Longrightarrow> find_run j reg = Some r \<Longrightarrow> jr_launched r \<Longrightarrow>
    jr_phase r = Starting n \<Longrightarrow> run_step env k j s (begin_attempt env now exec_id k reg j n s)"
| run_finish: "dget (sd_regs s) k = Some reg \<Longrightarrow> find_run j reg = Some r \<Longrightarrow>
    jr_phase r = Executing n e \<Longrightarrow>
    run_step env k j s (finish_attempt env now outcome ctx k reg r n e s)"
| run_delay_over: "dget (sd_regs s) k = Some reg \<Longrightarrow> find_run j reg = Some r \<Longrightarrow>
    jr_phase r = Delaying n \<Longrightarrow>
    run_step env k j s (put_reg k (update_run j (\<lambda>r. r\<lparr>jr_phase := Starting (Suc n)\<rparr>) reg) s)"
| run_delay_cancelled: "dget (sd_regs s) k = Some reg \<Longrightarrow> find_run j reg = Some r \<Longrightarrow>
    jr_phase r = Delaying n \<Longrightarrow> jr_cancelled r \<Longrightarrow>
    run_step env k j s (put_reg k (job_release j reg) s)"

definition steps_left :: "int \<Rightarrow> run_phase \<Rightarrow> nat" where
  "steps_left m phase =
     (case phase of
        Starting n \<Rightarrow> 3 * (nat m - n) + 2
      | Executing n _ \<Rightarrow> 3 * (nat m - n) + 1
      | Delaying n \<Rightarrow> 3 * (nat m - n))"

lemma find_run_Some: "find_run j reg = Some r \<Longrightarrow> r \<in> set (rg_runs reg) \<and> jr_id r = j"
  by (auto simp: find_run_def find_Some_iff)

lemma find_run_mem:
  "distinct (map jr_id (rg_runs reg)) \<Longrightarrow> r \<in> set (rg_runs reg) \<Longrightarrow> find_run (jr_id r) reg = Some r"
proof -
  have "distinct (map jr_id rs) \<Longrightarrow> r \<in> set rs \<Longrightarrow> List.find (\<lambda>x. jr_id x = jr_id r) rs = Some r" for rs
    by (induction rs) (auto simp: image_iff)
  then show "distinct (map jr_id (rg_runs reg)) \<Longrightarrow> r \<in> set (rg_runs reg) \<Longrightarrow> ?thesis"
    by (simp add: find_run_def)
qed

text \<open>What a step leaves of the run: nothing, or the given phase and the options as they were.\<close>

definition run_left :: "registration \<Rightarrow> nat \<Rightarrow> run_phase option \<Rightarrow> bool" where
  "run_left reg j phase \<longleftrightarrow> map_option jr_phase (find_run j reg) = phase"

definition left_with :: "string \<Rightarrow> nat \<Rightarrow> job_options \<Rightarrow> (run_phase \<Rightarrow> bool) \<Rightarrow> 'st scheduler \<Rightarrow> bool" where
  "left_with k j opts P s \<longleftrightarrow>
     (\<exists>reg. dget (sd_regs s) k = Some reg \<and> rg_options reg = opts
        \<and> (\<forall>r. find_run j reg = Some r \<longrightarrow> P (jr_phase r)))"

lemma left_with_mono: "left_with k j opts P s \<Longrightarrow> (\<And>p. P p \<Longrightarrow> Q p) \<Longrightarrow> left_with k j opts Q s"
  by (auto simp: left_with_def)

lemma find_run_update:
  "(\<And>r. jr_id (f r) = jr_id r) \<Longrightarrow>
     find_run j (update_run i f reg) = map_option (if i = j then f else (\<lambda>r. r)) (find_run j reg)"
proof -
  assume "\<And>r. jr_id (f r) = jr_id r"
  then have "List.find (\<lambda>r. jr_id r = j) (map (\<lambda>r. if jr_id r = i then f r else r) rs)
      = map_option (if i = j then f else (\<lambda>r. r)) (List.find (\<lambda>r. jr_id r = j) rs)" for rs
    by (induction rs) auto
  then show ?thesis by (simp add: find_run_def update_run_def)
qed

lemma release_gone:
  assumes "j < rg_fresh reg"
  shows "find_run j (job_release j reg) = None" "rg_options (job_release j reg) = rg_options reg"
proof -
  have none: "List.find (\<lambda>r. jr_id r = j) (filter (\<lambda>r. jr_id r \<noteq> j) rs) = None" for rs
    by (simp add: find_None_iff)
  have app: "List.find P xs = None \<Longrightarrow> \<not> P x \<Longrightarrow> List.find P (xs @ [x]) = None" for P and xs :: "job_run list" and x
    by (auto simp: find_None_iff)
  show "find_run j (job_release j reg) = None"
    using assms none app
    by (auto simp: job_release_def start_queued_def take_slot_def job_launch_def find_run_update)
      (auto simp: find_run_def find_None_iff)
  show "rg_options (job_release j reg) = rg_options reg"
    by (simp add: job_release_def start_queued_def take_slot_def job_launch_def)
qed

lemma left_put:
  "rg_options reg = opts \<Longrightarrow> (\<And>r. find_run j reg = Some r \<Longrightarrow> P (jr_phase r)) \<Longrightarrow>
     left_with k j opts P (put_reg k reg s)"
  by (auto simp: left_with_def dget_dset)

lemma left_release: "j < rg_fresh reg \<Longrightarrow> left_with k j (rg_options reg) P (put_reg k (job_release j reg) s)"
  by (rule left_put) (simp_all add: release_gone)

lemma after_attempt_left:
  assumes "j < rg_fresh reg"
  shows "left_with k j (rg_options reg)
    (\<lambda>p. p = Delaying n \<and> int n < jo_max_retries (rg_options reg)) (after_attempt n e k j reg s)"
proof -
  have b: "left_with k j opts P (job_broadcast ty d s') = left_with k j opts P s'" for opts P ty d s'
    by (simp add: left_with_def)
  have delay: "left_with k j (rg_options reg) (\<lambda>p. p = Delaying n \<and> int n < jo_max_retries (rg_options reg))
      (put_reg k (update_run j (\<lambda>r. r\<lparr>jr_phase := Delaying n\<rparr>) reg) s')"
    if "\<not> jo_max_retries (rg_options reg) \<le> int n" for s'
    using that by (intro left_put) (auto simp: find_run_update)
  note rel = left_release [OF assms]
  show ?thesis
  proof (cases "jo_max_retries (rg_options reg) \<le> int n")
    case True
    then show ?thesis by (simp add: after_attempt_def rel)
  next
    case False
    from delay [OF False] show ?thesis
      unfolding after_attempt_def by (auto simp only: b intro!: rel split: if_split sum.split)
  qed
qed

lemma record_run_fields [simp]:
  "rg_options (record_run e j reg) = rg_options reg" "rg_fresh (record_run e j reg) = rg_fresh reg"
  by (simp_all add: record_run_def)

lemma finish_attempt_left:
  assumes "jr_id r < rg_fresh reg"
  shows "left_with k (jr_id r) (rg_options reg)
    (\<lambda>p. p = Delaying n \<and> int n < jo_max_retries (rg_options reg))
    (finish_attempt env now outcome ctx k reg r n e s)"
  using left_release [of "jr_id r" reg] after_attempt_left [of "jr_id r"] assms
    left_release [of "jr_id r" "update_run (jr_id r) (\<lambda>r. r\<lparr>jr_cancelled := True\<rparr>) reg"]
    after_attempt_left [of "jr_id r" "record_run e' (jr_id r) (update_run (jr_id r) (\<lambda>r. r\<lparr>jr_cancelled := True\<rparr>) reg)" for e']
    after_attempt_left [of "jr_id r" "record_run e' (jr_id r) reg" for e']
  by (auto simp: finish_attempt_def Let_def split: sum.split)

lemma begin_attempt_left:
  assumes "j < rg_fresh reg"
  shows "left_with k j (rg_options reg)
    (\<lambda>p. (\<exists>e. p = Executing n e) \<or> (p = Delaying n \<and> int n < jo_max_retries (rg_options reg)))
    (begin_attempt env now exec_id k reg j n s)"
proof -
  let ?e = "new_execution exec_id now n reg"
  let ?reg1 = "update_run j (\<lambda>r. r\<lparr>jr_execution_id := Some exec_id, jr_phase := Executing n ?e\<rparr>) reg"
  let ?P = "\<lambda>p. (\<exists>e. p = Executing n e) \<or> (p = Delaying n \<and> int n < jo_max_retries (rg_options reg))"
  have b: "left_with k j opts P (job_broadcast ty d s') = left_with k j opts P s'" for opts P ty d s'
    by (simp add: left_with_def)
  have put: "left_with k j (rg_options reg) ?P (put_reg k ?reg1 s')" for s'
    by (rule left_put) (auto simp: find_run_update)
  have rel: "left_with k j (rg_options reg) ?P (put_reg k (job_release j ?reg1) s')" for s'
    using left_release [of j ?reg1] assms by simp
  have fin: "left_with k j (rg_options reg) ?P (finish_attempt env now outcome ctx k ?reg1 r n e s')"
    if "find_run j ?reg1 = Some r" for outcome ctx r e s'
    using finish_attempt_left [of r ?reg1 k n env now outcome ctx e s'] find_run_Some [OF that] assms
    by (auto elim: left_with_mono)
  show ?thesis
    unfolding begin_attempt_def Let_def
    by (auto simp: b put rel fin split: sum.split option.split)
qed

lemma delaying_left:
  assumes "dget (sd_regs s) k = Some reg" "find_run j reg = Some r" "jr_phase r = Delaying n"
  shows "left_with k j (rg_options reg) (\<lambda>p. p = Starting (Suc n))
    (put_reg k (update_run j (\<lambda>r. r\<lparr>jr_phase := Starting (Suc n)\<rparr>) reg) s)"
  using assms by (intro left_put) (auto simp: find_run_update)

text \<open>
  A run that waits for a retry has one: what \<open>after_attempt\<close> checked stays true along the run.
\<close>

definition run_bound :: "string \<Rightarrow> nat \<Rightarrow> job_options \<Rightarrow> nat \<Rightarrow> 'st scheduler \<Rightarrow> bool" where
  "run_bound k j opts b s \<longleftrightarrow> sched_ok s
     \<and> left_with k j opts (\<lambda>p. steps_left (jo_max_retries opts) p < b
         \<and> (\<forall>n. p = Delaying n \<longrightarrow> int n < jo_max_retries opts)) s"

lemma run_step_sched: "run_step env k j s t \<Longrightarrow> sched_ok s \<Longrightarrow> sched_ok t"
proof (induction rule: run_step.induct)
  case (run_begin s reg r n now exec_id)
  then show ?case using run_steps_slots(2) slots_state_sched by blast
next
  case (run_finish s reg r n e now outcome ctx)
  then show ?case using run_steps_slots(3) slots_state_sched find_run_Some by blast
next
  case (run_delay_over s reg r n)
  from run_steps_slots(4) [OF run_delay_over(4,1), of r n] find_run_Some [OF run_delay_over(2)] run_delay_over(3)
  show ?case using slots_state_sched by auto
next
  case (run_delay_cancelled s reg r n)
  then show ?case using run_steps_slots(5) slots_state_sched by blast
qed

lemma run_step_found:
  "run_step env k j s t \<Longrightarrow> \<exists>reg r. dget (sd_regs s) k = Some reg \<and> find_run j reg = Some r"
  by (induction rule: run_step.induct) auto

lemma run_step_bound:
  assumes "run_bound k j opts (Suc b) s" "run_step env k j s t"
  shows "run_bound k j opts b t"
proof -
  have ok: "sched_ok s" using assms(1) by (simp add: run_bound_def)
  have fresh: "j < rg_fresh reg" if "dget (sd_regs s) k = Some reg" "find_run j reg = Some r" for reg r
    using sched_okD [OF ok that(1)] find_run_Some [OF that(2)] by (auto simp: reg_ok_def)
  let ?Q = "\<lambda>p. steps_left (jo_max_retries opts) p < b \<and> (\<forall>n. p = Delaying n \<longrightarrow> int n < jo_max_retries opts)"
  have now: "rg_options reg = opts \<and> steps_left (jo_max_retries opts) (jr_phase r) \<le> b
      \<and> (\<forall>n. jr_phase r = Delaying n \<longrightarrow> int n < jo_max_retries opts)"
    if "dget (sd_regs s) k = Some reg" "find_run j reg = Some r" for reg r
    using assms(1) that by (auto simp: run_bound_def left_with_def)
  have "left_with k j opts ?Q t"
    using assms(2) ok
  proof (cases rule: run_step.cases)
    case (run_begin reg r n now exec_id)
    with now [OF run_begin(2,3)] begin_attempt_left [OF fresh [OF run_begin(2,3)], of k n env now exec_id s]
    show ?thesis by (auto simp: steps_left_def elim!: left_with_mono)
  next
    case (run_finish reg r n e now outcome ctx)
    have j: "jr_id r = j" using find_run_Some [OF run_finish(3)] by simp
    with run_finish now [OF run_finish(2,3)] fresh [OF run_finish(2,3)]
      finish_attempt_left [of r reg k n env now outcome ctx e s]
    show ?thesis by (auto simp: steps_left_def elim!: left_with_mono)
  next
    case (run_delay_over reg r n)
    with now [OF run_delay_over(2,3)] delaying_left [OF run_delay_over(2-4)]
    show ?thesis by (auto simp: steps_left_def elim!: left_with_mono)
  next
    case (run_delay_cancelled reg r n)
    with now [OF run_delay_cancelled(2,3)] left_release [OF fresh [OF run_delay_cancelled(2,3)]]
    show ?thesis by auto
  qed
  with run_step_sched [OF assms(2) ok] show ?thesis by (simp add: run_bound_def)
qed

lemma run_steps_bound:
  "(run_step env k j ^^ n) s t \<Longrightarrow> run_bound k j opts (n + b) s \<Longrightarrow> run_bound k j opts b t"
proof (induction n arbitrary: b t)
  case (Suc n)
  from Suc.prems(1) obtain u where u: "(run_step env k j ^^ n) s u" "run_step env k j u t" by auto
  have "run_bound k j opts (Suc b) u" using Suc.IH [OF u(1)] Suc.prems(2) by simp
  then show ?case using u(2) by (rule run_step_bound)
qed simp



section \<open>Cancelling\<close>

lemma after_cancelled_gone:
  assumes "r \<in> set (rg_runs reg)" "jr_cancelled r" "jr_id r = j" "j < rg_fresh reg"
  shows "left_with k j (rg_options reg) (\<lambda>_. False) (after_attempt n e k j reg s)"
  using assms left_release [of j reg] by (auto simp: after_attempt_def)



end
