(* ===== verification/JobFacts.thy ===== *)
theory JobFacts
  imports JobSafety
begin

text \<open>
  What the operations of the scheduler do on its registrations and its history: ids of new jobs,
  the runs a restart finds unfinished, deletions, the rhythm of interval jobs, and the options a
  refused change leaves behind.
\<close>

section \<open>Ids\<close>

fun id_candidates :: "nat \<Rightarrow> string \<Rightarrow> string \<Rightarrow> nat \<Rightarrow> string list" where
  "id_candidates 0 base job_id n = [job_id]"
| "id_candidates (Suc fuel) base job_id n =
     job_id # id_candidates fuel base (base @ ''-'' @ show_nat n) (Suc n)"

lemma next_free_id_None:
  "next_free_id fuel taken base job_id n = None \<Longrightarrow> set (id_candidates fuel base job_id n) \<subseteq> set taken"
  by (induction fuel arbitrary: job_id n) (auto simp: next_free_id.simps split: if_splits)

lemma next_free_id_free: "next_free_id fuel taken base job_id n = Some i \<Longrightarrow> i \<notin> set taken"
  by (induction fuel arbitrary: job_id n) (auto simp: next_free_id.simps [of 0] next_free_id.simps [of "Suc f" for f] split: if_splits)

lemma id_candidates_length [simp]: "length (id_candidates fuel base job_id n) = Suc fuel"
  by (induction fuel arbitrary: job_id n) auto

lemma id_candidates_shape:
  "i \<in> set (id_candidates fuel base job_id n) \<Longrightarrow>
     i = job_id \<or> (\<exists>m \<ge> n. i = base @ ''-'' @ show_nat m)"
  by (induction fuel arbitrary: job_id n) (force dest: Suc_leD)+

lemma id_candidates_distinct:
  "(\<And>m. m \<ge> n \<Longrightarrow> job_id \<noteq> base @ ''-'' @ show_nat m) \<Longrightarrow> distinct (id_candidates fuel base job_id n)"
proof (induction fuel arbitrary: job_id n)
  case (Suc fuel)
  have "distinct (id_candidates fuel base (base @ ''-'' @ show_nat n) (Suc n))"
    by (rule Suc.IH) auto
  moreover have "job_id \<notin> set (id_candidates fuel base (base @ ''-'' @ show_nat n) (Suc n))"
    using id_candidates_shape [of job_id fuel base "base @ ''-'' @ show_nat n" "Suc n"] Suc.prems
    by (metis Suc_leD order_refl)
  ultimately show ?case by simp
qed simp

lemma next_free_id_total: "next_free_id (length taken) taken base base 2 \<noteq> None"
proof
  assume "next_free_id (length taken) taken base base 2 = None"
  from next_free_id_None [OF this]
  have "card (set (id_candidates (length taken) base base 2)) \<le> card (set taken)"
    by (simp add: card_mono)
  moreover have "distinct (id_candidates (length taken) base base 2)"
    by (rule id_candidates_distinct) auto
  ultimately show False
    using card_length [of taken] by (simp add: distinct_card)
qed

text \<open>
  Registering a job either adds it under an id no other job has, leaving the others as they are,
  or reports why not and changes nothing; the search for a free id always ends.
\<close>

theorem register_fresh_id:
  "case job_register class_name opts s of
     (Inr i, t) \<Rightarrow>
       i \<notin> set (dkeys (sd_regs s)) \<and> jo_id opts \<in> {None, Some i}
       \<and> sd_regs t = sd_regs s @ [(i, new_registration i (with_names class_name opts))]
       \<and> 1 \<le> jo_max_concurrent_runs opts
   | (Inl e, t) \<Rightarrow> t = s \<and> e \<noteq> Endless_paging"
proof -
  have id: "jo_id (with_names class_name opts) = jo_id opts"
    by (simp add: with_names_def Let_def)
  have add: "i \<notin> set (dkeys d) \<Longrightarrow> dset i x d = d @ [(i, x)]" for i x and d :: "(string, registration) dict"
    by (induction d) (auto simp: dkeys_def)
  have free: "choose_job_id (with_names class_name opts) taken = Inr i \<Longrightarrow>
      i \<notin> set taken \<and> jo_id opts \<in> {None, Some i}" for i taken
    by (auto simp: choose_job_id_def id Let_def next_free_id_free split: option.splits if_splits)
  have ends: "choose_job_id (with_names class_name opts) taken \<noteq> Inl Endless_paging" for taken
    using next_free_id_total [of taken] by (auto simp: choose_job_id_def id Let_def simp del: not_None_eq split: option.split)
  show ?thesis
    using free ends add
    by (auto simp: job_register_def act_defs validate_max_concurrent_runs_def Let_def split: sum.split)
qed

section \<open>Deleting the history of a job\<close>

definition deletable_run :: "'st scheduler \<Rightarrow> string \<Rightarrow> string option \<Rightarrow> job_execution \<Rightarrow> bool" where
  "deletable_run s k status e \<longleftrightarrow>
     je_job_id e = k \<and> \<not> is_running s e \<and> (given status \<longrightarrow> Some (je_status e) = status)"

lemma finished_ids_mem:
  assumes ops: "ev_ops env = mem_ops" and ok: "storage_ok (sd_storage s)"
  shows "finished_ids env k status s = Inr (map je_id (filter (\<lambda>e. \<not> is_running s e)
    (filter (\<lambda>e. given status \<longrightarrow> Some (je_status e) = status) (job_list k (sd_storage s)))))"
proof -
  have g: "given (if given status then status else None) = given status"
    by (simp add: given_def)
  have "filter (\<lambda>e. given (if given status then status else None) \<longrightarrow>
      Some (je_status e) = (if given status then status else None)) xs
    = filter (\<lambda>e. given status \<longrightarrow> Some (je_status e) = status) xs" for xs :: "job_execution list"
    unfolding g by (rule filter_cong) auto
  with mem_store.all_runs [OF ok, of 100 k "if given status then status else None"] show ?thesis
    by (simp add: finished_ids_def ops)
qed

lemma mem_deletes [simp]: "op_deletes mem_ops"
  by (simp add: mem_ops_def)

lemma mem_get [simp]: "op_get mem_ops i s = history s i"
  by (simp add: mem_ops_def history_def)

text \<open>
  Deleting the runs of a registered job always succeeds on the in-memory store; it removes
  exactly the finished runs of that job with the given status, keeps the running ones and those of
  other jobs, and returns how many it removed.
\<close>

theorem delete_executions_exact:
  assumes ops: "ev_ops env = mem_ops" and ok: "storage_ok (sd_storage s)"
    and reg: "dget (sd_regs s) k \<noteq> None"
  shows "\<exists>n t. job_delete_executions env k status s = (Inr n, t) \<and> storage_ok (sd_storage t)
    \<and> history (sd_storage t) = (\<lambda>i. case history (sd_storage s) i of
         None \<Rightarrow> None | Some e \<Rightarrow> if deletable_run s k status e then None else Some e)
    \<and> n = card {i. \<exists>e. history (sd_storage s) i = Some e \<and> deletable_run s k status e}
    \<and> sd_regs t = sd_regs s"
proof -
  let ?st = "sd_storage s"
  let ?is = "map je_id (filter (\<lambda>e. \<not> is_running s e)
    (filter (\<lambda>e. given status \<longrightarrow> Some (je_status e) = status) (job_list k ?st)))"
  let ?d = "delete_all mem_ops ?is ?st"
  have mem: "i \<in> set ?is \<longleftrightarrow> (\<exists>e. history ?st i = Some e \<and> deletable_run s k status e)" for i
    using storage_okD(1,2) [OF ok] by (auto simp: history_def deletable_run_def image_iff)
  have d: "distinct ?is"
    using storage_okD(3) [OF ok, of k] by (simp add: distinct_map_filter)
  have count: "fst ?d = length ?is"
    using mem by (intro mem_store.delete_all_count [OF ok d]) auto
  have "length ?is = card (set ?is)" using d by (simp only: distinct_card)
  also have "set ?is = {i. \<exists>e. history ?st i = Some e \<and> deletable_run s k status e}"
    using mem by blast
  finally have n: "fst ?d = card {i. \<exists>e. history ?st i = Some e \<and> deletable_run s k status e}"
    using count by simp
  note eff = mem_store.delete_all_effect [OF ok, of ?is, unfolded mem_get]
  have h: "history (snd ?d) = (\<lambda>i. case history ?st i of
      None \<Rightarrow> None | Some e \<Rightarrow> if deletable_run s k status e then None else Some e)"
    using eff mem by (force simp: fun_eq_iff split: option.split)
  from reg have "\<exists>t. job_delete_executions env k status s = (Inr (fst ?d), t)
      \<and> sd_storage t = snd ?d \<and> sd_regs t = sd_regs s"
    by (auto simp: job_delete_executions_def registered_def ensure_storage_deletes_def
        finished_ids_mem [OF ops ok] delete_all_in_store_def job_broadcast_def act_defs ops
        split: prod.split)
  with n h eff show ?thesis by metis
qed

definition sample_history_sched :: "job_storage scheduler" where
  "sample_history_sched = \<lparr>sd_storage = sample_storage,
     sd_regs = [(''mail'', new_registration ''mail'' default_job_options)], sd_running = True, sd_events = []\<rparr>"

theorem delete_executions_exact_witness:
  "\<exists>n t. job_delete_executions mem_env ''mail'' None sample_history_sched = (Inr n, t)
     \<and> history (sd_storage t) ''e1'' = None \<and> history (sd_storage t) ''e3'' \<noteq> None"
proof -
  have r: "dget (sd_regs sample_history_sched) ''mail'' \<noteq> None"
    and ok: "storage_ok (sd_storage sample_history_sched)"
    by (simp_all add: sample_history_sched_def sample_storage_ok)
  have e: "history (sd_storage sample_history_sched) ''e1'' = Some (sample_run ''e1'' ''mail'' ''completed'' 10)"
    "history (sd_storage sample_history_sched) ''e3'' = Some (sample_run ''e3'' ''mail'' ''running'' 30)"
    by (simp_all add: sample_history_sched_def sample_storage_def history_def get_execution_def
        save_execution_def new_job_storage_def sample_run_def)
  have d: "deletable_run sample_history_sched ''mail'' None (sample_run ''e1'' ''mail'' ''completed'' 10)"
    "\<not> deletable_run sample_history_sched ''mail'' None (sample_run ''e3'' ''mail'' ''running'' 30)"
    by code_simp+
  have "ev_ops mem_env = mem_ops" by (simp add: mem_env_def)
  from delete_executions_exact [OF this ok r, of None] obtain n t
    where "job_delete_executions mem_env ''mail'' None sample_history_sched = (Inr n, t)"
      and "history (sd_storage t) = (\<lambda>i. case history (sd_storage sample_history_sched) i of
         None \<Rightarrow> None | Some e \<Rightarrow> if deletable_run sample_history_sched ''mail'' None e then None else Some e)"
    by blast
  with e d show ?thesis by auto
qed

section \<open>Runs left by a previous process\<close>

lemma interrupted_ids [simp]:
  "je_id (interrupted e) = je_id e" "je_job_id (interrupted e) = je_job_id e"
  "je_status (interrupted e) = ''cancelled''"
  by (simp_all add: interrupted_def Let_def)

text \<open>\<open>ended\<close> is the latest of the start and the log times: durations are never negative.\<close>

lemma foldl_max: "x \<le> foldl max x ys \<and> (\<forall>y \<in> set ys. y \<le> foldl max x ys)" for x :: int
proof (induction ys arbitrary: x)
  case (Cons y ys)
  from Cons.IH [of "max x y"] show ?case by auto
qed simp

lemma interrupted_times:
  "je_completed_at (interrupted e) = Some t \<Longrightarrow>
     je_started_at e \<le> t \<and> (\<forall>l \<in> set (je_logs e). jl_timestamp l \<le> t)"
  using foldl_max [of "je_started_at e" "map jl_timestamp (je_logs e)"]
  by (auto simp: interrupted_def Let_def)

lemma mem_save [simp]: "op_save mem_ops e s = Inr (save_execution e s)"
  by (simp add: mem_ops_def)

lemma save_all_history:
  assumes "storage_ok st" "\<forall>e \<in> set es. \<exists>x. history st (je_id e) = Some x \<and> je_job_id x = je_job_id e"
    and "distinct (map je_id es)"
  shows "storage_ok (save_until_error mem_ops es st)
    \<and> history (save_until_error mem_ops es st)
      = (\<lambda>i. case List.find (\<lambda>e. je_id e = i) es of Some e \<Rightarrow> Some e | None \<Rightarrow> history st i)"
  using assms
proof (induction es arbitrary: st)
  case (Cons e es)
  have same: "same_job e (history st (je_id e))"
    using Cons.prems(2) by (auto simp: same_job_def)
  from job_storage_refine_save [OF Cons.prems(1) same] have
    s: "storage_ok (save_execution e st)" "history (save_execution e st) = (history st)(je_id e \<mapsto> e)"
    by auto
  have "\<forall>x \<in> set es. \<exists>y. history (save_execution e st) (je_id x) = Some y \<and> je_job_id y = je_job_id x"
    using Cons.prems(2,3) s(2) by (auto simp: image_iff)
  with Cons.IH [OF s(1)] Cons.prems(3) have ih: "storage_ok (save_until_error mem_ops es (save_execution e st))"
    "history (save_until_error mem_ops es (save_execution e st))
      = (\<lambda>i. case List.find (\<lambda>e. je_id e = i) es of Some e \<Rightarrow> Some e
            | None \<Rightarrow> history (save_execution e st) i)" by auto
  have none: "List.find (\<lambda>x. je_id x = je_id e) es = None"
    using Cons.prems(3) by (auto simp: find_None_iff image_iff)
  have "(case List.find (\<lambda>e. je_id e = i) es of Some e \<Rightarrow> Some e | None \<Rightarrow> history (save_execution e st) i)
      = (case List.find (\<lambda>e. je_id e = i) (e # es) of Some e \<Rightarrow> Some e | None \<Rightarrow> history st i)" for i
    using none by (cases "i = je_id e") (auto simp: s(2) split: option.split)
  with ih show ?case by simp
qed simp

text \<open>What the start makes of one stored execution.\<close>

definition finished_at_start :: "string set \<Rightarrow> job_execution \<Rightarrow> job_execution" where
  "finished_at_start jobs e =
     (if je_job_id e \<in> jobs \<and> je_status e = ''running'' then interrupted e else e)"

lemma for_regs_error: "for_regs f d = (Inl e, d') \<Longrightarrow> \<exists>reg. fst (f reg) = Inl e"
proof (induction d arbitrary: d')
  case (Cons p d)
  obtain k reg where p: "p = (k, reg)" by fastforce
  obtain x reg' where f: "f reg = (x, reg')" by fastforce
  show ?case
  proof (cases x)
    case (Inl e')
    with Cons.prems f p have "fst (f reg) = Inl e" by simp
    then show ?thesis by blast
  next
    case (Inr u)
    with Cons f p show ?thesis by (auto simp: Let_def split: prod.splits)
  qed
qed simp

definition never_pages :: "(job_error, 'a, registration) act \<Rightarrow> bool" where
  "never_pages m \<longleftrightarrow> (\<forall>s. fst (m s) \<noteq> Inl Endless_paging)"

lemma never_pages_then:
  "never_pages m \<Longrightarrow> (\<And>x. never_pages (f x)) \<Longrightarrow> never_pages (andThen m f)"
  unfolding never_pages_def andThen_def
  by (auto split: prod.split sum.split) (metis fst_conv)+

lemma never_pages_pure:
  "never_pages (ret x)" "never_pages (modify g)" "never_pages (reads h)"
  "(\<And>s. e s \<noteq> Inl Endless_paging) \<Longrightarrow> never_pages (reads_err e)"
  by (simp_all add: never_pages_def act_defs)

lemma never_pages_if: "never_pages m \<Longrightarrow> never_pages m' \<Longrightarrow> never_pages (if b then m else m')"
  by simp

lemma schedule_never_pages: "never_pages (schedule_next env running now a b c)"
  by (auto simp: never_pages_def schedule_next_def next_cron_def cron_of_def interval_of_def Let_def
      split: option.split sum.splits if_splits)

lemma admit_never_pages: "never_pages launch_admitted"
  by (auto simp: never_pages_def launch_admitted_def act_defs job_admit_def Let_def split: prod.split list.split)

lemma start_reg_error: "never_pages (start_reg env now states)"
  unfolding start_reg_def
  by (intro never_pages_then never_pages_pure never_pages_if schedule_never_pages admit_never_pages)
    (simp add: due_on_start_def cron_of_def interval_of_def split: option.split)

lemma finished_not_running:
  "je_job_id (finished_at_start J e) \<in> J \<Longrightarrow> je_status (finished_at_start J e) \<noteq> ''running''"
  by (auto simp: finished_at_start_def)

lemma find_SomeD: "List.find P xs = Some x \<Longrightarrow> x \<in> set xs \<and> P x"
  by (auto simp: find_Some_iff)

lemma finish_reg_effect:
  assumes ok: "storage_ok st" and ops: "ev_ops env = mem_ops" and idle: "rg_runs reg = []"
  shows "\<exists>st'. finish_interrupted_reg env reg st = Some st' \<and> storage_ok st'
    \<and> history st' = (\<lambda>i. map_option (finished_at_start {rg_id reg}) (history st i))"
proof -
  let ?items = "filter (\<lambda>e. je_status e = ''running'') (job_list (rg_id reg) st)"
  have g: "given (Some ''running'')" by (simp add: given_def)
  have items: "all_pages (\<lambda>k. op_list mem_ops (rg_id reg) 100 k (Some ''running'') st) = Some ?items"
    using mem_store.all_runs [OF ok, of 100 "rg_id reg" "Some ''running''"] by (simp add: g)
  have ids: "running_execution_ids reg = []"
    by (simp add: running_execution_ids_def idle List.map_filter_def)
  let ?es = "map interrupted ?items"
  have mem: "e \<in> set ?items \<longleftrightarrow> history st (je_id e) = Some e \<and> je_job_id e = rg_id reg \<and> je_status e = ''running''" for e
    using storage_okD(1) [OF ok] by (auto simp: history_def)
  have d: "distinct (map je_id ?es)"
    using storage_okD(3) [OF ok, of "rg_id reg"] by (simp add: comp_def distinct_map_filter)
  have old: "\<forall>e \<in> set ?es. \<exists>x. history st (je_id e) = Some x \<and> je_job_id x = je_job_id e"
    using mem by fastforce
  note eff = save_all_history [OF ok old d]
  have "(case List.find (\<lambda>e. je_id e = i) ?es of Some e \<Rightarrow> Some e | None \<Rightarrow> history st i)
      = map_option (finished_at_start {rg_id reg}) (history st i)" for i
  proof (cases "List.find (\<lambda>e. je_id e = i) ?es")
    case None
    then have no: "\<not> (\<exists>e \<in> set ?items. je_id e = i)"
      by (auto simp: find_None_iff)
    show ?thesis
    proof (cases "history st i")
      case (Some e)
      then have "je_id e = i" using storage_okD(2) [OF ok] by (simp add: history_def)
      with no Some mem [of e] None show ?thesis by (auto simp: finished_at_start_def)
    qed (simp add: None)
  next
    case (Some x)
    from find_SomeD [OF this] have x: "x \<in> interrupted ` set ?items" "je_id x = i" unfolding set_map by blast+
    then obtain e where "e \<in> set ?items" "x = interrupted e" by blast
    with x(2) have e: "e \<in> set ?items" "x = interrupted e" "je_id e = i" by simp_all
    from mem [THEN iffD1, OF e(1)] e(3)
    have "history st i = Some e" "je_job_id e = rg_id reg" "je_status e = ''running''" by simp_all
    with Some e(2) show ?thesis by (simp add: finished_at_start_def)
  qed
  with eff have "storage_ok (save_until_error mem_ops ?es st)
    \<and> history (save_until_error mem_ops ?es st) = (\<lambda>i. map_option (finished_at_start {rg_id reg}) (history st i))"
    by simp
  moreover have "finish_interrupted_reg env reg st = Some (save_until_error mem_ops ?es st)"
    by (simp add: finish_interrupted_reg_def ops items stale_runs_def ids)
  ultimately show ?thesis by blast
qed

lemma finished_at_start_twice:
  "finished_at_start J (finished_at_start {k} e) = finished_at_start (insert k J) e"
  by (auto simp: finished_at_start_def)

lemma finish_runs_effect:
  assumes "storage_ok st" "ev_ops env = mem_ops" "\<forall>reg \<in> set regs. rg_runs reg = []"
  shows "\<exists>st'. finish_interrupted_runs env regs st = Some st' \<and> storage_ok st'
    \<and> history st' = (\<lambda>i. map_option (finished_at_start (rg_id ` set regs)) (history st i))"
  using assms
proof (induction regs arbitrary: st)
  case Nil
  then show ?case by (simp add: finished_at_start_def [abs_def] option.map_ident)
next
  case (Cons reg regs)
  from finish_reg_effect [OF Cons.prems(1,2), of reg] Cons.prems(3) obtain st1 where
    st1: "finish_interrupted_reg env reg st = Some st1" "storage_ok st1"
      "history st1 = (\<lambda>i. map_option (finished_at_start {rg_id reg}) (history st i))" by auto
  from Cons.IH [OF st1(2) Cons.prems(2)] Cons.prems(3) obtain st2 where
    st2: "finish_interrupted_runs env regs st1 = Some st2" "storage_ok st2"
      "history st2 = (\<lambda>i. map_option (finished_at_start (rg_id ` set regs)) (history st1 i))" by auto
  have "history st2 = (\<lambda>i. map_option (finished_at_start (rg_id ` set (reg # regs))) (history st i))"
    by (simp add: st2(3) st1(3) option.map_comp comp_def finished_at_start_twice)
  with st1(1) st2 show ?case by simp
qed

text \<open>
  C18. Starting the scheduler of a fresh process ends every run of a registered job that the store
  still has as running, as cancelled at the last time it is known to have run, changes no other
  execution, and always gets past this step.
\<close>

theorem start_finishes_interrupted:
  assumes ok: "storage_ok (sd_storage s)" "sched_ok s" and ops: "ev_ops env = mem_ops"
    and idle: "\<forall>k reg. dget (sd_regs s) k = Some reg \<longrightarrow> rg_runs reg = []"
    and start: "job_start env now s = (r, t)"
  shows "storage_ok (sd_storage t)
    \<and> history (sd_storage t) = (\<lambda>i. map_option (finished_at_start (set (dkeys (sd_regs s)))) (history (sd_storage s) i))
    \<and> (\<forall>i e. history (sd_storage t) i = Some e \<and> je_job_id e \<in> set (dkeys (sd_regs s)) \<longrightarrow> je_status e \<noteq> ''running'')
    \<and> r \<noteq> Inl Endless_paging"
proof (intro conjI allI impI)
  let ?regs = "dvalues (sd_regs s)"
  have d: "dict_ok (sd_regs s)" using ok(2) by (simp add: sched_ok_def)
  have "\<forall>reg \<in> set ?regs. rg_runs reg = []"
    using idle set_dvalues [OF d] by blast
  from finish_runs_effect [OF ok(1) ops this] obtain st where
    st: "finish_interrupted_runs env ?regs (sd_storage s) = Some st" "storage_ok st"
      "history st = (\<lambda>i. map_option (finished_at_start (rg_id ` set ?regs)) (history (sd_storage s) i))" by blast
  have ids: "rg_id ` set ?regs = set (dkeys (sd_regs s))"
    using ok(2) d by (force simp: sched_ok_def dvalues_def dkeys_def image_iff dget_in)
  have stor: "sd_storage t = st" using start st(1) by (auto simp: job_start_def Let_def split: prod.splits)
  show "storage_ok (sd_storage t)" using st(2) stor by simp
  show h: "history (sd_storage t) = (\<lambda>i. map_option (finished_at_start (set (dkeys (sd_regs s)))) (history (sd_storage s) i))"
    using st(3) stor ids by simp
  show "history (sd_storage t) i = Some e \<and> je_job_id e \<in> set (dkeys (sd_regs s)) \<Longrightarrow> je_status e \<noteq> ''running''" for i e
    unfolding h using finished_not_running by auto
  show "r \<noteq> Inl Endless_paging"
    using start st(1) for_regs_error start_reg_error by (fastforce simp: never_pages_def job_start_def Let_def split: prod.splits)
qed

definition restarted_sched :: "job_storage scheduler" where
  "restarted_sched = \<lparr>sd_storage = sample_storage,
     sd_regs = [(''mail'', new_registration ''mail'' default_job_options)], sd_running = False, sd_events = []\<rparr>"

theorem start_finishes_interrupted_witness:
  "\<exists>e. history (sd_storage (snd (job_start mem_env 100 restarted_sched))) ''e3'' = Some e
     \<and> je_status e = ''cancelled'' \<and> je_completed_at e = Some 30"
proof -
  have ok: "storage_ok (sd_storage restarted_sched)" "sched_ok restarted_sched"
    by (simp_all add: restarted_sched_def sample_storage_ok sched_ok_def new_registration_def
        reg_ok_def default_job_options_def dict_ok_def)
  have ops: "ev_ops mem_env = mem_ops" by (simp add: mem_env_def)
  have idle: "\<forall>k reg. dget (sd_regs restarted_sched) k = Some reg \<longrightarrow> rg_runs reg = []"
    by (simp add: restarted_sched_def new_registration_def)
  obtain r t where s: "job_start mem_env 100 restarted_sched = (r, t)" by fastforce
  note h = start_finishes_interrupted [OF ok ops idle s, THEN conjunct2, THEN conjunct1]
  have "history (sd_storage restarted_sched) ''e3'' = Some (sample_run ''e3'' ''mail'' ''running'' 30)"
    by (simp add: restarted_sched_def sample_storage_def history_def get_execution_def
        save_execution_def new_job_storage_def sample_run_def)
  with h s show ?thesis
    by (simp add: restarted_sched_def dkeys_def finished_at_start_def sample_run_def interrupted_def Let_def)
qed

section \<open>The rhythm of interval jobs\<close>

text \<open>
  An interval job's timer is never due in the past, and unless it is forced it is due exactly one
  interval after the last run (or now, when that has passed), whatever happened in between.
\<close>

lemma interval_rhythm:
  assumes "jo_schedule (rg_options reg) = None" "jo_interval (rg_options reg) = Some v"
    and "v \<noteq> []" "parse_interval v = Some secs"
  shows "\<exists>due. schedule_next env True now run_now after_fire fired reg
      = (Inr (), reg\<lparr>rg_next_run_at := Some due, rg_timer := Some (due - now)\<rparr>)
    \<and> now \<le> due
    \<and> (run_now \<longrightarrow> due = now)
    \<and> (\<not> run_now \<and> (after_fire \<or> rg_last_run_at reg = None) \<longrightarrow> due = now + secs * SECOND)
    \<and> (\<not> run_now \<and> \<not> after_fire \<longrightarrow>
        (\<forall>l. rg_last_run_at reg = Some l \<longrightarrow> due = max now (l + secs * SECOND)))"
proof -
  have "0 \<le> secs" by (rule parse_interval_nonneg [OF assms(4)])
  then show ?thesis
    using assms by (auto simp: schedule_next_def given_def interval_of_def interval_due_def Let_def
        SECOND_def split: option.split)
qed

section \<open>A refused change of options\<close>

definition interval_sched :: "job_storage scheduler" where
  "interval_sched = \<lparr>sd_storage = new_job_storage,
     sd_regs = [(''Mail'', (new_registration ''Mail'' (default_job_options\<lparr>jo_interval := Some ''5m''\<rparr>))
        \<lparr>rg_next_run_at := Some (300 * SECOND), rg_timer := Some (300 * SECOND)\<rparr>)],
     sd_running = True, sd_events = []\<rparr>"

text \<open>
  A change that is refused half-way keeps its first half: here the schedule has changed and the
  retry delay was refused, while the timer of the old interval goes on.
\<close>

lemma bad_interval: "parse_interval ''x'' = None"
  by code_simp

lemma update_options_not_atomic:
  "\<exists>t reg. job_update_options mem_env 0 ''Mail''
       (no_job_changes\<lparr>jc_schedule := Some ''0 0 * * *'', jc_retry_delay := Some ''x''\<rparr>) interval_sched
     = (Inl (Invalid_interval ''x''), t)
     \<and> dget (sd_regs t) ''Mail'' = Some reg
     \<and> jo_schedule (rg_options reg) = Some ''0 0 * * *'' \<and> jo_interval (rg_options reg) = None
     \<and> rg_timer reg = Some (300 * SECOND)"
  by (simp add: job_update_options_def act_defs in_reg_def interval_sched_def apply_changes_def
    change_schedule_def change_retries_def change_limits_def when_given_def set_opts_def check_interval_def interval_of_def bad_interval
    no_job_changes_def mem_env_def new_registration_def default_job_options_def)

end
