(* ===== verification/JobStats.thy ===== *)
theory JobStats
  imports JobStorage
begin

text \<open>
  The run statistics of the jobs (\<open>qodalis_cli_jobs/job_stats.py\<close>): which runs are counted, in which
  time column, and the figures per job and in total.  Times are microseconds; the code's divisions of
  floats (column index, rates, averages) are exact here: rates and averages are pairs of numerator and
  denominator.  The ISO 8601 parser and printer are left out: times come parsed.
\<close>

section \<open>Requests\<close>

definition DEFAULT_BUCKETS :: int where
  "DEFAULT_BUCKETS = 24"

definition MAX_BUCKETS :: int where
  "MAX_BUCKETS = 200"

definition DEFAULT_RANGE :: int where
  "DEFAULT_RANGE = 24 * 3600 * 1000000"

definition PAGE_SIZE :: nat where
  "PAGE_SIZE = 500"

definition RECENT_RUNS :: nat where
  "RECENT_RUNS = 12"

datatype outcome = Succeeded | Failed | Cancelled | Still_running

definition outcome_of :: "string option \<Rightarrow> outcome" where
  "outcome_of status =
     (let v = py_lower (py_strip (case status of None \<Rightarrow> [] | Some s \<Rightarrow> s))
      in if v \<in> {''completed'', ''succeeded''} then Succeeded
         else if v \<in> {''failed'', ''error'', ''timed_out'', ''timedout''} then Failed
         else if v \<in> {''running'', ''pending''} then Still_running
         else Cancelled)"

definition quoted :: "string \<Rightarrow> string" where
  "quoted v = [CHR 39] @ v @ [CHR 39]"

definition parse_buckets :: "string option \<Rightarrow> string + int" where
  "parse_buckets value =
     (case value of
        None \<Rightarrow> Inr DEFAULT_BUCKETS
      | Some v \<Rightarrow>
          if py_strip v = [] then Inr DEFAULT_BUCKETS
          else (case py_int (py_strip v) of
                  None \<Rightarrow> Inl (quoted ''buckets'' @ '' must be an integer, got '' @ quoted v)
                | Some n \<Rightarrow> Inr (min (max n 1) MAX_BUCKETS)))"

definition resolve_range :: "int option \<Rightarrow> int option \<Rightarrow> int \<Rightarrow> string + (int \<times> int)" where
  "resolve_range since until now =
     (let e = (case until of Some t \<Rightarrow> t | None \<Rightarrow> now);
          b = (case since of Some t \<Rightarrow> t | None \<Rightarrow> e - DEFAULT_RANGE)
      in if b \<ge> e then Inl (quoted ''since'' @ '' must be before '' @ quoted ''until'') else Inr (b, e))"

lemma parse_buckets_range: "parse_buckets v = Inr n \<Longrightarrow> 1 \<le> n \<and> n \<le> MAX_BUCKETS"
  by (auto simp: parse_buckets_def DEFAULT_BUCKETS_def MAX_BUCKETS_def split: option.splits if_splits)

lemma resolve_range_ordered: "resolve_range s u now = Inr (b, e) \<Longrightarrow> b < e"
  by (auto simp: resolve_range_def Let_def split: if_splits)

section \<open>Collecting the runs\<close>

text \<open>\<open>runs.setdefault(id, execution)\<close>; a run without an id is its own key.\<close>

definition setdefault_run :: "job_execution \<Rightarrow> job_execution list \<Rightarrow> job_execution list" where
  "setdefault_run e runs =
     (if je_id e \<noteq> [] \<and> (\<exists>x \<in> set runs. je_id x = je_id e) then runs else runs @ [e])"

definition add_page :: "int \<Rightarrow> int \<Rightarrow> job_execution list \<Rightarrow> job_execution list \<Rightarrow> job_execution list" where
  "add_page since until items runs =
     foldl (\<lambda>rs e. if since \<le> je_started_at e \<and> je_started_at e < until then setdefault_run e rs else rs)
       runs items"

fun collect_runs ::
    "nat \<Rightarrow> (nat \<Rightarrow> job_execution list \<times> nat) \<Rightarrow> int \<Rightarrow> int \<Rightarrow> nat \<Rightarrow> job_execution list
     \<Rightarrow> job_execution list option" where
  "collect_runs 0 query since until offset runs = None"
| "collect_runs (Suc fuel) query since until offset runs =
     (let (items, total) = query offset; runs' = add_page since until items runs;
          offset' = offset + length items
      in if items = [] \<or> length items < PAGE_SIZE \<or> total \<le> offset' then Some runs'
         else collect_runs fuel query since until offset' runs')"

definition in_range :: "int \<Rightarrow> int \<Rightarrow> job_execution \<Rightarrow> bool" where
  "in_range since until e \<longleftrightarrow> since \<le> je_started_at e \<and> je_started_at e < until"

lemma add_page_append: "add_page b e (xs @ ys) runs = add_page b e ys (add_page b e xs runs)"
  by (simp add: add_page_def)

lemma collect_runs_slices:
  assumes q: "\<And>k. query k = (py_slice k (k + PAGE_SIZE) xs, length xs)"
  shows "offset \<le> length xs \<Longrightarrow> length xs - offset < fuel \<Longrightarrow>
    collect_runs fuel query b e offset runs = Some (add_page b e (drop offset xs) runs)"
proof (induction fuel arbitrary: offset runs)
  case (Suc fuel)
  let ?items = "py_slice offset (offset + PAGE_SIZE) xs"
  have items: "?items = take PAGE_SIZE (drop offset xs)" by (simp add: py_slice_def)
  have pos: "0 < PAGE_SIZE" by (simp add: PAGE_SIZE_def)
  show ?case
  proof (cases "?items = [] \<or> length ?items < PAGE_SIZE \<or> length xs \<le> offset + length ?items")
    case True
    then have "?items = drop offset xs" using pos by (auto simp: items)
    with True show ?thesis by (simp add: q [of offset])
  next
    case False
    then have l: "length ?items = PAGE_SIZE" "offset + PAGE_SIZE < length xs"
      by (auto simp: items min_def split: if_splits)
    with pos Suc.prems have "collect_runs fuel query b e (offset + PAGE_SIZE) (add_page b e ?items runs)
        = Some (add_page b e (drop (offset + PAGE_SIZE) xs) (add_page b e ?items runs))"
      by (intro Suc.IH) auto
    moreover have "?items @ drop (offset + PAGE_SIZE) xs = drop offset xs"
      unfolding items by (metis add.commute append_take_drop_id drop_drop)
    ultimately show ?thesis
      using False l by (simp add: q [of offset] add_page_append [symmetric])
  qed
qed simp

lemma add_page_distinct:
  "distinct (map je_id (runs @ filter (in_range b e) items)) \<Longrightarrow>
     add_page b e items runs = runs @ filter (in_range b e) items"
proof (induction items arbitrary: runs)
  case (Cons x items)
  show ?case
  proof (cases "in_range b e x")
    case True
    with Cons.prems have "setdefault_run x runs = runs @ [x]"
      by (auto simp: setdefault_run_def image_iff)
    with True Cons.prems Cons.IH [of "runs @ [x]"] show ?thesis
      by (auto simp: add_page_def in_range_def)
  next
    case False
    with Cons show ?thesis by (auto simp: add_page_def in_range_def)
  qed
qed (simp add: add_page_def)

text \<open>Over a store whose query pages through a list without repetitions, every run in the range is collected.\<close>

lemma collect_runs_complete:
  assumes "\<And>k. query k = (py_slice k (k + PAGE_SIZE) xs, length xs)" "distinct (map je_id xs)"
  shows "collect_runs (Suc (length xs)) query b e 0 [] = Some (filter (in_range b e) xs)"
proof -
  have "distinct (map je_id (filter (in_range b e) xs))" using assms(2) by (rule distinct_map_filter)
  with add_page_distinct [of "[]" b e xs] collect_runs_slices [OF assms(1), of 0 "Suc (length xs)" b e "[]"]
  show ?thesis by simp
qed

section \<open>Figures\<close>

definition count_outcome :: "outcome \<Rightarrow> job_execution list \<Rightarrow> nat" where
  "count_outcome o1 runs = length (filter (\<lambda>e. outcome_of (Some (je_status e)) = o1) runs)"

definition durations :: "job_execution list \<Rightarrow> int list" where
  "durations runs =
     sort (List.map_filter (\<lambda>e. if outcome_of (Some (je_status e)) \<noteq> Still_running then je_duration e else None) runs)"

text \<open>\<open>sorted[ceil(0.95 * n) - 1]\<close>.\<close>

definition p95_index :: "nat \<Rightarrow> nat" where
  "p95_index n = (95 * n + 99) div 100 - 1"

lemma p95_index_range: "0 < n \<Longrightarrow> p95_index n < n"
  by (simp add: p95_index_def)

definition last_failure :: "job_execution list \<Rightarrow> int option" where
  "last_failure runs =
     foldl (\<lambda>acc e. if outcome_of (Some (je_status e)) = Failed
                    then (case acc of None \<Rightarrow> Some (je_started_at e)
                          | Some t \<Rightarrow> if je_started_at e > t then Some (je_started_at e) else acc)
                    else acc) None runs"

record job_summary =
  sm_total :: nat
  sm_counts :: "outcome \<Rightarrow> nat"
  sm_success_rate :: "(nat \<times> nat) option"
  sm_avg_duration :: "(int \<times> nat) option"
  sm_p95_duration :: "int option"
  sm_max_duration :: "int option"
  sm_last_failure :: "int option"

definition summary :: "job_execution list \<Rightarrow> job_summary" where
  "summary runs =
     (let ds = durations runs;
          decided = count_outcome Succeeded runs + count_outcome Failed runs
      in \<lparr>sm_total = length runs, sm_counts = (\<lambda>o1. count_outcome o1 runs),
          sm_success_rate = (if decided \<noteq> 0 then Some (count_outcome Succeeded runs, decided) else None),
          sm_avg_duration = (if ds \<noteq> [] then Some (sum_list ds, length ds) else None),
          sm_p95_duration = (if ds \<noteq> [] then Some (ds ! p95_index (length ds)) else None),
          sm_max_duration = (if ds \<noteq> [] then Some (last ds) else None),
          sm_last_failure = last_failure runs\<rparr>)"

text \<open>The column of a run: \<open>min(max(int(offset // bucket_ms), 0), buckets - 1)\<close>.\<close>

definition bucket_index :: "int \<Rightarrow> int \<Rightarrow> int \<Rightarrow> job_execution \<Rightarrow> nat" where
  "bucket_index since until buckets e =
     nat (min (max ((je_started_at e - since) * buckets div (until - since)) 0) (buckets - 1))"

definition columns :: "int \<Rightarrow> int \<Rightarrow> int \<Rightarrow> job_execution list \<Rightarrow> (outcome \<Rightarrow> nat) list" where
  "columns since until buckets runs =
     foldl (\<lambda>cols e. let i = bucket_index since until buckets e; o1 = outcome_of (Some (je_status e))
                     in cols[i := (cols ! i)(o1 := (cols ! i) o1 + 1)])
       (replicate (nat buckets) (\<lambda>_. 0)) runs"

record job_row =
  jr_job_id :: string
  jr_job_name :: string
  jr_summary :: job_summary
  jr_recent :: "job_execution list"

definition job_name_of :: "(string, string) dict \<Rightarrow> string \<Rightarrow> job_execution list \<Rightarrow> string" where
  "job_name_of names job_id runs =
     (case List.find (\<lambda>e. je_job_name e \<noteq> []) runs of
        Some e \<Rightarrow> je_job_name e
      | None \<Rightarrow> (case dget names job_id of
                   Some n \<Rightarrow> if n \<noteq> [] then n else job_id
                 | None \<Rightarrow> job_id))"

definition job_row_of :: "(string, string) dict \<Rightarrow> job_execution list \<Rightarrow> string \<Rightarrow> job_row" where
  "job_row_of names runs job_id =
     (let job_runs = newest_started (filter (\<lambda>e. je_job_id e = job_id) runs)
      in \<lparr>jr_job_id = job_id, jr_job_name = job_name_of names job_id job_runs,
          jr_summary = summary job_runs, jr_recent = take RECENT_RUNS job_runs\<rparr>)"

record job_stats =
  js_since :: int
  js_until :: int
  js_columns :: "(outcome \<Rightarrow> nat) list"
  js_totals :: job_summary
  js_jobs :: "job_row list"

definition compute_stats ::
    "job_execution list \<Rightarrow> int \<Rightarrow> int \<Rightarrow> int \<Rightarrow> (string, string) dict \<Rightarrow> job_stats" where
  "compute_stats runs since until buckets names =
     \<lparr>js_since = since, js_until = until, js_columns = columns since until buckets runs,
      js_totals = summary runs,
      js_jobs = map (job_row_of names runs) (sorted_list_of_set (je_job_id ` set runs))\<rparr>"

section \<open>The figures agree\<close>

lemma bucket_index_range: "1 \<le> buckets \<Longrightarrow> bucket_index b e buckets x < nat buckets"
  by (simp add: bucket_index_def)

lemma columns_sum:
  assumes "1 \<le> buckets"
  shows "length (columns b e buckets runs) = nat buckets
    \<and> sum_list (map (\<lambda>c. c o1) (columns b e buckets runs)) = count_outcome o1 runs"
proof (induction runs rule: rev_induct)
  case Nil
  then show ?case by (simp add: columns_def count_outcome_def sum_list_replicate)
next
  case (snoc x runs)
  let ?cols = "columns b e buckets runs"
  let ?i = "bucket_index b e buckets x"
  let ?o = "outcome_of (Some (je_status x))"
  have i: "?i < length ?cols" using snoc bucket_index_range [OF assms] by simp
  have step: "columns b e buckets (runs @ [x]) = ?cols[?i := (?cols ! ?i)(?o := (?cols ! ?i) ?o + 1)]"
    by (simp add: columns_def Let_def)
  have "sum_list (map (\<lambda>c. c o1) (?cols[?i := (?cols ! ?i)(?o := (?cols ! ?i) ?o + 1)]))
      = sum_list (map (\<lambda>c. c o1) ?cols) + (if ?o = o1 then 1 else 0)"
    using i elem_le_sum_list [of ?i "map (\<lambda>c. c o1) ?cols"]
    by (simp add: map_update sum_list_update)
  with snoc show ?case by (simp add: step count_outcome_def)
qed

lemma count_by_job:
  assumes "finite J" "je_job_id ` set runs \<subseteq> J"
  shows "(\<Sum>j\<in>J. count_outcome o1 (filter (\<lambda>e. je_job_id e = j) runs)) = count_outcome o1 runs"
  using assms(2)
proof (induction runs)
  case (Cons x runs)
  have "(\<Sum>j\<in>J. count_outcome o1 (filter (\<lambda>e. je_job_id e = j) (x # runs)))
      = (\<Sum>j\<in>J. (if j = je_job_id x \<and> outcome_of (Some (je_status x)) = o1 then 1 else 0)
           + count_outcome o1 (filter (\<lambda>e. je_job_id e = j) runs))"
    by (rule sum.cong) (auto simp: count_outcome_def)
  also have "\<dots> = (if outcome_of (Some (je_status x)) = o1 then 1 else 0) + count_outcome o1 runs"
  proof -
    have "je_job_id x \<in> J" using Cons.prems by simp
    then have "(\<Sum>j\<in>J. if j = je_job_id x \<and> outcome_of (Some (je_status x)) = o1 then 1 else 0)
        = (if outcome_of (Some (je_status x)) = o1 then 1 else (0::nat))"
      using assms(1) by (cases "outcome_of (Some (je_status x)) = o1") simp_all
    moreover have "(\<Sum>j\<in>J. count_outcome o1 (filter (\<lambda>e. je_job_id e = j) runs)) = count_outcome o1 runs"
      using Cons by simp
    ultimately show ?thesis by (simp add: sum.distrib)
  qed
  finally show ?case by (simp add: count_outcome_def)
qed (simp add: count_outcome_def)

lemma count_newest [simp]: "count_outcome o1 (newest_started runs) = count_outcome o1 runs"
proof -
  have "length (filter P (newest_started runs)) = length (filter P runs)" for P
    unfolding newest_started_def by (induction runs) (auto simp: filter_insort_triv filter_insort)
  then show ?thesis by (simp add: count_outcome_def)
qed

text \<open>
  C21. The statistics agree with each other: the columns of the chart, the totals and the rows of the
  jobs count every run exactly once, per outcome.
\<close>

theorem stats_consistent:
  assumes "1 \<le> buckets"
  shows "length (js_columns (compute_stats runs since until buckets names)) = nat buckets
    \<and> sum_list (map (\<lambda>c. c o1) (js_columns (compute_stats runs since until buckets names)))
      = sm_counts (js_totals (compute_stats runs since until buckets names)) o1
    \<and> sum_list (map (\<lambda>r. sm_counts (jr_summary r) o1) (js_jobs (compute_stats runs since until buckets names)))
      = sm_counts (js_totals (compute_stats runs since until buckets names)) o1
    \<and> (\<Sum>o1\<in>{Succeeded, Failed, Cancelled, Still_running}.
        sm_counts (js_totals (compute_stats runs since until buckets names)) o1) = length runs"
proof (intro conjI)
  show "length (js_columns (compute_stats runs since until buckets names)) = nat buckets"
    "sum_list (map (\<lambda>c. c o1) (js_columns (compute_stats runs since until buckets names)))
      = sm_counts (js_totals (compute_stats runs since until buckets names)) o1"
    using columns_sum [OF assms] by (simp_all add: compute_stats_def summary_def Let_def)
  show "sum_list (map (\<lambda>r. sm_counts (jr_summary r) o1) (js_jobs (compute_stats runs since until buckets names)))
      = sm_counts (js_totals (compute_stats runs since until buckets names)) o1"
    using count_by_job [of "je_job_id ` set runs" runs o1]
    by (simp add: compute_stats_def summary_def Let_def job_row_of_def comp_def
        sum_list_distinct_conv_sum_set)
  have "length runs = (\<Sum>o1\<in>{Succeeded, Failed, Cancelled, Still_running}. count_outcome o1 runs)"
  proof (induction runs)
    case (Cons x runs)
    then show ?case by (cases "outcome_of (Some (je_status x))") (simp_all add: count_outcome_def)
  qed (simp add: count_outcome_def)
  then show "(\<Sum>o1\<in>{Succeeded, Failed, Cancelled, Still_running}.
        sm_counts (js_totals (compute_stats runs since until buckets names)) o1) = length runs"
    by (simp add: compute_stats_def summary_def Let_def)
qed

theorem stats_consistent_witness:
  "length (js_columns (compute_stats [sample_run ''e1'' ''mail'' ''completed'' 10] 0 100 4 [])) = 4"
  using stats_consistent [of 4 "[sample_run ''e1'' ''mail'' ''completed'' 10]" 0 100 "[]"] by simp

end
