(* ===== verification/JobRoutes.thy ===== *)
theory JobRoutes
  imports JobFacts JobStats UserStores
begin

text \<open>
  The routes of the jobs plugin (\<open>cli_jobs_controller.py\<close>) over the scheduler and its store.  A request is a
  value of \<open>job_request\<close>, its answer a status with JSON, the statistics, or an exception that escapes.  The
  texts of times (ISO 8601 with \<open>Z\<close>), the parser of ISO times and the messages of the cron library are
  parameters.
\<close>

section \<open>Views\<close>

record job_texts =
  jt_iso :: "int \<Rightarrow> string"
  jt_from_iso :: "string \<Rightarrow> int option"
  jt_cron_error :: "string \<Rightarrow> string"

definition opt_str :: "string option \<Rightarrow> json" where
  "opt_str v = (case v of None \<Rightarrow> JNull | Some x \<Rightarrow> JStr x)"

definition opt_num :: "int option \<Rightarrow> json" where
  "opt_num v = (case v of None \<Rightarrow> JNull | Some x \<Rightarrow> JInt x)"

definition serialize_dt :: "job_texts \<Rightarrow> int option \<Rightarrow> json" where
  "serialize_dt tx v = (case v of None \<Rightarrow> JNull | Some x \<Rightarrow> JStr (jt_iso tx x))"

definition job_dto :: "job_texts \<Rightarrow> registration \<Rightarrow> json" where
  "job_dto tx reg =
     (let o1 = rg_options reg
      in JObj
       [(''id'', JStr (rg_id reg)), (''name'', opt_str (jo_name o1)), (''description'', opt_str (jo_description o1)),
        (''group'', opt_str (jo_group o1)), (''status'', JStr (rg_status reg)), (''schedule'', opt_str (jo_schedule o1)),
        (''interval'', opt_str (jo_interval o1)), (''enabled'', JBool (rg_status reg \<noteq> ''stopped'')),
        (''maxRetries'', JInt (jo_max_retries o1)), (''retryDelay'', JStr (jo_retry_delay o1)),
        (''retryStrategy'', JStr (jo_retry_strategy o1)), (''timeout'', opt_str (jo_timeout o1)),
        (''overlapPolicy'', JStr (jo_overlap_policy o1)), (''maxConcurrentRuns'', JInt (jo_max_concurrent_runs o1)),
        (''currentExecutionId'', opt_str (current_execution_id reg)),
        (''runningExecutionIds'', JArr (map JStr (running_execution_ids reg))), (''queued'', JBool (rg_queued reg)),
        (''nextRunAt'', serialize_dt tx (rg_next_run_at reg)), (''lastRunAt'', serialize_dt tx (rg_last_run_at reg)),
        (''lastRunStatus'', opt_str (rg_last_run_status reg)), (''lastRunDuration'', opt_num (rg_last_run_duration reg))])"

definition execution_head :: "job_texts \<Rightarrow> job_execution \<Rightarrow> (string \<times> json) list" where
  "execution_head tx e =
     [(''id'', JStr (je_id e)), (''jobId'', JStr (je_job_id e)), (''jobName'', JStr (je_job_name e)),
      (''status'', JStr (je_status e)), (''startedAt'', serialize_dt tx (Some (je_started_at e))),
      (''completedAt'', serialize_dt tx (je_completed_at e)), (''duration'', opt_num (je_duration e)),
      (''error'', opt_str (je_error e)), (''retryAttempt'', JInt (int (je_retry_attempt e)))]"

definition execution_item :: "job_texts \<Rightarrow> job_execution \<Rightarrow> json" where
  "execution_item tx e = JObj
     (execution_head tx e @ [(''logCount'', JInt (int (length (je_logs e)))), (''properties'', JObj (je_properties e))])"

definition execution_detail :: "job_texts \<Rightarrow> job_execution \<Rightarrow> json" where
  "execution_detail tx e = JObj
     (execution_head tx e
      @ [(''properties'', JObj (je_properties e)),
         (''logs'', JArr (map (\<lambda>l. JObj [(''timestamp'', serialize_dt tx (Some (jl_timestamp l))), (''level'', JStr (jl_level l)),
                                       (''message'', JStr (jl_message l))]) (je_logs e)))])"

section \<open>Requests and answers\<close>

text \<open>
  Paging of the history: the framework refuses a limit above 100 and a negative offset with 422.  It lets a
  negative limit through to the store; that is not modelled.
\<close>

datatype job_request =
    List_jobs
  | List_executions "string list option" "string option" "string option" "int option" int int
  | Get_stats "string list option" "string option" "string option" "string option" "string option"
  | Get_job string
  | Trigger_job string
  | Pause_job string
  | Resume_job string
  | Stop_job string
  | Cancel_job string
  | Update_job string job_changes
  | Get_history string nat nat "string option"
  | Get_execution string string
  | Delete_execution string string
  | Delete_executions string "string option"

datatype job_answer = Job_reply int json | Statistics job_stats | Job_escapes

definition job_refusal :: "int \<Rightarrow> string \<Rightarrow> string \<Rightarrow> job_answer" where
  "job_refusal status message code = Job_reply status (JObj [(''error'', JStr message), (''code'', JStr code)])"

definition job_not_found :: job_answer where
  "job_not_found = job_refusal 404 ''Job not found'' ''JOB_NOT_FOUND''"

definition execution_not_found :: job_answer where
  "execution_not_found = job_refusal 404 ''Execution not found'' ''EXECUTION_NOT_FOUND''"

definition job_message :: "string \<Rightarrow> job_answer" where
  "job_message m = Job_reply 200 (JObj [(''message'', JStr m)])"

text \<open>\<open>except KeyError: ... except InvalidOperationError as exc: ...\<close> with the code of the conflict.\<close>

fun control_error :: "string \<Rightarrow> job_error \<Rightarrow> job_answer" where
  "control_error code (Job_not_found _) = job_not_found"
| "control_error code (Invalid_operation message) = job_refusal 409 message code"
| "control_error code _ = Job_escapes"

definition job_doing :: "(job_error, 'a, 's) act \<Rightarrow> (job_error \<Rightarrow> job_answer) \<Rightarrow> ('a \<Rightarrow> job_answer) \<Rightarrow> 's \<Rightarrow> job_answer \<times> 's" where
  "job_doing m err reply s =
     (case m s of (Inr x, s') \<Rightarrow> (reply x, s') | (Inl e, s') \<Rightarrow> (err e, s'))"

text \<open>
  A schedule that the cron library does not accept has a message of the scheduler, one without an occurrence
  that of the library.
\<close>

fun update_error :: "'st job_env \<Rightarrow> job_texts \<Rightarrow> job_changes \<Rightarrow> job_error \<Rightarrow> job_answer" where
  "update_error env tx ch (Job_not_found _) = job_not_found"
| "update_error env tx ch (Invalid_value message) = job_refusal 400 message ''INVALID_VALUE''"
| "update_error env tx ch (Invalid_interval v) = job_refusal 400 (invalid_interval_message v) ''INVALID_SCHEDULE''"
| "update_error env tx ch (Invalid_cron v) =
     job_refusal 400
       (if jc_schedule ch = Some v \<and> \<not> ev_cron_valid env v then ''Invalid cron expression: '' @ py_repr v
        else jt_cron_error tx v) ''INVALID_SCHEDULE''"
| "update_error env tx ch (Job_value_error message) = job_refusal 400 message ''INVALID_SCHEDULE''"
| "update_error env tx ch _ = Job_escapes"

fun delete_error :: "job_error \<Rightarrow> job_answer" where
  "delete_error (Job_not_found _) = job_not_found"
| "delete_error (Execution_not_found _) = execution_not_found"
| "delete_error (Invalid_operation message) = job_refusal 409 message ''EXECUTION_RUNNING''"
| "delete_error (Not_supported message) = job_refusal 501 message ''NOT_SUPPORTED''"
| "delete_error _ = Job_escapes"

fun delete_all_error :: "job_error \<Rightarrow> job_answer" where
  "delete_all_error (Job_not_found _) = job_not_found"
| "delete_all_error (Not_supported message) = job_refusal 501 message ''NOT_SUPPORTED''"
| "delete_all_error _ = Job_escapes"

section \<open>Filters and times\<close>

definition named_jobs :: "string list \<Rightarrow> string list" where
  "named_jobs values = concat (map (\<lambda>v. filter (\<lambda>j. j \<noteq> []) (map py_strip (py_split (CHR '','') v))) values)"

definition jobs_in_group :: "string \<Rightarrow> (string, registration) dict \<Rightarrow> string list" where
  "jobs_in_group group1 regs =
     map rg_id (filter (\<lambda>r. py_lower (or_else (jo_group (rg_options r)) []) = py_lower group1) (dvalues regs))"

definition resolve_job_ids ::
    "string list option \<Rightarrow> string option \<Rightarrow> (string, registration) dict \<Rightarrow> string list option" where
  "resolve_job_ids job group1 regs =
     (let ids = map_option named_jobs job;
          ids' = (case group1 of
                    Some g \<Rightarrow>
                      if py_strip g = [] then ids
                      else (case ids of
                              Some (j # js) \<Rightarrow> Some (filter (\<lambda>i. i \<in> set (jobs_in_group g regs)) (j # js))
                            | _ \<Rightarrow> Some (jobs_in_group g regs))
                  | None \<Rightarrow> ids)
      in if ids' \<noteq> None \<and> ids' \<noteq> Some [] \<or> group1 \<noteq> None then ids' else None)"

definition parse_time :: "job_texts \<Rightarrow> string option \<Rightarrow> string \<Rightarrow> string + int option" where
  "parse_time tx value name =
     (case value of
        None \<Rightarrow> Inr None
      | Some v \<Rightarrow>
          (let t = py_strip v;
               t' = (if t \<noteq> [] \<and> last t \<in> {CHR ''Z'', CHR ''z''} then butlast t @ ''+00:00'' else t)
           in if t = [] then Inr None
              else case jt_from_iso tx t' of
                Some time \<Rightarrow> Inr (Some time)
              | None \<Rightarrow> Inl (quoted name @ '' must be an ISO 8601 time, got '' @ quoted v)))"

definition stats_range :: "job_texts \<Rightarrow> int \<Rightarrow> string option \<Rightarrow> string option \<Rightarrow> string + (int \<times> int)" where
  "stats_range tx now since until =
     (case parse_time tx until ''until'' of
        Inl m \<Rightarrow> Inl m
      | Inr u \<Rightarrow> (case parse_time tx since ''since'' of Inl m \<Rightarrow> Inl m | Inr b \<Rightarrow> resolve_range b u now))"

section \<open>The routes\<close>

definition executions_query ::
    "string list option \<Rightarrow> string option \<Rightarrow> int option \<Rightarrow> int \<Rightarrow> int \<Rightarrow> job_query" where
  "executions_query ids status since limit offset =
     \<lparr>jq_job_ids = ids, jq_status = (if given status then status else None), jq_since = since,
      jq_limit = nat (min (max limit 1) 100), jq_offset = nat (max offset 0)\<rparr>"

definition page_dict :: "job_texts \<Rightarrow> job_execution list \<Rightarrow> nat \<Rightarrow> nat \<Rightarrow> nat \<Rightarrow> job_answer" where
  "page_dict tx items n limit offset = Job_reply 200 (JObj
     [(''items'', JArr (map (execution_item tx) items)), (''total'', JInt (int n)), (''limit'', JInt (int limit)),
      (''offset'', JInt (int offset))])"

definition list_executions ::
    "'st job_env \<Rightarrow> job_texts \<Rightarrow> string list option \<Rightarrow> string option \<Rightarrow> string option \<Rightarrow> int option \<Rightarrow> int \<Rightarrow> int
       \<Rightarrow> 'st scheduler \<Rightarrow> job_answer" where
  "list_executions env tx job group1 status since limit offset s =
     (let q = executions_query (resolve_job_ids job group1 (sd_regs s)) status since limit offset
      in case (if jq_job_ids q = Some [] then Some ([], 0) else scheduler_query env q s) of
           None \<Rightarrow> Job_escapes
         | Some (items, n) \<Rightarrow> page_dict tx items n (jq_limit q) (jq_offset q))"

definition stats_query :: "string list option \<Rightarrow> int \<Rightarrow> nat \<Rightarrow> job_query" where
  "stats_query ids since offset =
     \<lparr>jq_job_ids = ids, jq_status = None, jq_since = Some since, jq_limit = PAGE_SIZE, jq_offset = offset\<rparr>"

definition stats_error :: "string \<Rightarrow> job_answer" where
  "stats_error message = Job_reply 400 (JObj [(''error'', JStr message)])"

text \<open>The pages are read with one turn more than the first page says there are runs.\<close>

definition stats_runs :: "'st job_env \<Rightarrow> string list option \<Rightarrow> int \<Rightarrow> int \<Rightarrow> 'st scheduler \<Rightarrow> job_execution list option" where
  "stats_runs env ids since until s =
     (if ids = Some [] then Some []
      else let page = (\<lambda>k. scheduler_query env (stats_query ids since k) s)
           in case page 0 of
                None \<Rightarrow> None
              | Some (_, n) \<Rightarrow> collect_runs (Suc n) (\<lambda>k. or_else (page k) ([], 0)) since until 0 [])"

definition get_stats ::
    "'st job_env \<Rightarrow> job_texts \<Rightarrow> int \<Rightarrow> string list option \<Rightarrow> string option \<Rightarrow> string option \<Rightarrow> string option \<Rightarrow> string option
       \<Rightarrow> 'st scheduler \<Rightarrow> job_answer" where
  "get_stats env tx now job group1 since until buckets s =
     (case stats_range tx now since until of
        Inl m \<Rightarrow> stats_error m
      | Inr (b, e) \<Rightarrow>
          (case parse_buckets buckets of
             Inl m \<Rightarrow> stats_error m
           | Inr n \<Rightarrow>
               (case stats_runs env (resolve_job_ids job group1 (sd_regs s)) b e s of
                  None \<Rightarrow> Job_escapes
                | Some runs \<Rightarrow>
                    Statistics (compute_stats runs b e n
                      (map (\<lambda>r. (rg_id r, or_else (jo_name (rg_options r)) [])) (dvalues (sd_regs s)))))))"

fun job_route ::
    "'st job_env \<Rightarrow> job_texts \<Rightarrow> int \<Rightarrow> job_request \<Rightarrow> 'st scheduler \<Rightarrow> job_answer \<times> 'st scheduler" where
  "job_route env tx now List_jobs s = (Job_reply 200 (JArr (map (job_dto tx) (dvalues (sd_regs s)))), s)"
| "job_route env tx now (List_executions job group1 status since limit offset) s =
     (list_executions env tx job group1 status since limit offset s, s)"
| "job_route env tx now (Get_stats job group1 since until buckets) s =
     (get_stats env tx now job group1 since until buckets s, s)"
| "job_route env tx now (Get_job i) s =
     (case dget (sd_regs s) i of None \<Rightarrow> job_not_found | Some reg \<Rightarrow> Job_reply 200 (job_dto tx reg), s)"
| "job_route env tx now (Trigger_job i) s =
     job_doing (job_trigger i) (control_error ''JOB_ALREADY_RUNNING'')
       (\<lambda>r. Job_reply 200 (JObj [(''message'', JStr (if r = ''queued'' then ''Job queued'' else ''Job triggered'')),
                                (''queued'', JBool (r = ''queued''))])) s"
| "job_route env tx now (Pause_job i) s =
     job_doing (job_pause env now i) (control_error ''JOB_ALREADY_PAUSED'') (\<lambda>_. job_message ''Job paused'') s"
| "job_route env tx now (Resume_job i) s =
     job_doing (job_resume env now i) (control_error ''JOB_NOT_PAUSED'') (\<lambda>_. job_message ''Job resumed'') s"
| "job_route env tx now (Stop_job i) s =
     job_doing (job_stop_job env now i)
       (\<lambda>e. case e of Job_not_found _ \<Rightarrow> job_not_found | _ \<Rightarrow> Job_escapes) (\<lambda>_. job_message ''Job stopped'') s"
| "job_route env tx now (Cancel_job i) s =
     job_doing (job_cancel_current i) (control_error ''JOB_NOT_RUNNING'') (\<lambda>_. job_message ''Execution cancelled'') s"
| "job_route env tx now (Update_job i ch) s =
     job_doing (job_update_options env now i ch) (update_error env tx ch) (\<lambda>_. job_message ''Job updated'') s"
| "job_route env tx now (Get_history i limit offset status) s =
     (if i \<notin> set (dkeys (sd_regs s)) then job_not_found
      else (let (items, n) = op_list (ev_ops env) i limit offset status (sd_storage s)
            in page_dict tx items n limit offset), s)"
| "job_route env tx now (Get_execution i exec_id) s =
     (case op_get (ev_ops env) exec_id (sd_storage s) of
        None \<Rightarrow> execution_not_found
      | Some e \<Rightarrow> if je_job_id e \<noteq> i then execution_not_found else Job_reply 200 (execution_detail tx e), s)"
| "job_route env tx now (Delete_execution i exec_id) s =
     job_doing (job_delete_execution env i exec_id) delete_error (\<lambda>_. job_message ''Run deleted'') s"
| "job_route env tx now (Delete_executions i status) s =
     job_doing (job_delete_executions env i (if given status then status else None)) delete_all_error
       (\<lambda>n. Job_reply 200 (JObj [(''deleted'', JInt (int n))])) s"

end
