(* ===== verification/JobRoutesFacts.thy ===== *)
theory JobRoutesFacts
  imports JobRoutes "HOL-Library.Multiset"
begin

text \<open>
  What the routes of the jobs plugin guarantee: every request is a step of the scheduler or changes nothing,
  so that whatever holds of reachable schedulers holds behind the routes, and a job is answered to be unknown
  exactly when it is not registered.
\<close>

section \<open>Requests are steps\<close>

fun serve_jobs :: "'st job_env \<Rightarrow> job_texts \<Rightarrow> (int \<times> job_request) list \<Rightarrow> 'st scheduler \<Rightarrow> job_answer list \<times> 'st scheduler" where
  "serve_jobs env tx [] s = ([], s)"
| "serve_jobs env tx ((now, r) # rs) s =
     (let (a, s1) = job_route env tx now r s; (as, s2) = serve_jobs env tx rs s1 in (a # as, s2))"

lemma job_doing_state [simp]: "snd (job_doing m err reply s) = snd (m s)"
  by (simp add: job_doing_def split: prod.split sum.split)

lemma route_step: "snd (job_route env tx now r s) = s \<or> job_step env s (snd (job_route env tx now r s))"
  by (cases r) (auto intro: job_step.intros)

lemma route_reachable:
  "reachable scheduler_init (job_step env) s \<Longrightarrow> reachable scheduler_init (job_step env) (snd (job_route env tx now r s))"
  using route_step [of env tx now r s] by (metis reachable.intros(2))

lemma serve_reachable:
  "reachable scheduler_init (job_step env) s \<Longrightarrow> reachable scheduler_init (job_step env) (snd (serve_jobs env tx rs s))"
proof (induction rs arbitrary: s)
  case (Cons x rs)
  obtain now r where x: "x = (now, r)" by fastforce
  from Cons.IH [OF route_reachable [OF Cons.prems, of tx now r]] show ?case
    by (simp add: x case_prod_beta Let_def)
qed simp

section \<open>Unknown jobs\<close>

text \<open>Actions that never say that the job is unknown.\<close>

definition finds :: "(job_error, 'a, 's) act \<Rightarrow> bool" where
  "finds m \<longleftrightarrow> (\<forall>s i t. m s \<noteq> (Inl (Job_not_found i), t))"

lemma finds_andThen: "finds m \<Longrightarrow> (\<And>x. finds (f x)) \<Longrightarrow> finds (andThen m f)"
  unfolding finds_def andThen_def by (auto split: prod.splits sum.splits)

lemma finds_pure:
  "finds (ret x)" "finds (modify f)" "finds (reads g)" "finds (update_with h)"
  by (simp_all add: finds_def act_defs case_prod_beta)

lemma finds_guard: "(\<And>i. e \<noteq> Job_not_found i) \<Longrightarrow> finds (guard b e)"
  by (simp add: finds_def guard_def)

lemma finds_when: "(\<And>x. finds (f x)) \<Longrightarrow> finds (when_given v f)"
  by (simp add: when_given_def finds_pure split: option.split)

lemma finds_lift: "(\<And>i. r \<noteq> Inl (Job_not_found i)) \<Longrightarrow> finds (lift r)"
  by (auto simp: finds_def lift_def)

lemma finds_reads_err: "(\<And>s i. f s \<noteq> Inl (Job_not_found i)) \<Longrightarrow> finds (reads_err f)"
  by (auto simp: finds_def reads_err_def)

lemmas finds_intros = finds_andThen finds_pure finds_guard finds_when finds_lift finds_reads_err

lemma finds_check_interval: "finds (check_interval v)"
  by (auto simp: check_interval_def interval_of_def finds_def act_defs split: option.splits)

lemma finds_validate: "validate_max_concurrent_runs v \<noteq> Inl (Job_not_found i)"
  by (auto simp: validate_max_concurrent_runs_def split: json.splits)

lemma finds_schedule: "finds (schedule_next env running now run_now after_fire fired_at)"
  by (auto simp: finds_def schedule_next_def interval_of_def next_cron_def cron_of_def Let_def
      split: option.splits sum.splits if_splits prod.splits)

lemma finds_changes: "finds (apply_changes env ch)"
  by (auto simp: apply_changes_def change_schedule_def change_retries_def change_limits_def set_opts_def
      intro!: finds_intros finds_check_interval simp: finds_validate)

lemma finds_reschedule: "finds (reschedule env running now)"
  using finds_schedule [of env running now False False None] by (auto simp: finds_def reschedule_def)

lemma finds_admit: "finds (job_admit manual)"
  by (auto simp: finds_def job_admit_def Let_def split: if_splits prod.splits list.splits)

text \<open>Actions of the scheduler on a registered job, and on one that is not.\<close>

definition knows :: "string \<Rightarrow> (job_error, 'a, 'st scheduler) act \<Rightarrow> bool" where
  "knows i m \<longleftrightarrow> (\<forall>s r t. dget (sd_regs s) i \<noteq> None \<longrightarrow> m s = (r, t) \<longrightarrow>
     dget (sd_regs t) i \<noteq> None \<and> (\<forall>x. r \<noteq> Inl (Job_not_found x)))"

definition misses :: "string \<Rightarrow> (job_error, 'a, 'st scheduler) act \<Rightarrow> bool" where
  "misses i m \<longleftrightarrow> (\<forall>s. dget (sd_regs s) i = None \<longrightarrow> m s = (Inl (Job_not_found i), s))"

lemma knows_andThen: "knows i m \<Longrightarrow> (\<And>x. knows i (f x)) \<Longrightarrow> knows i (andThen m f)"
  unfolding knows_def andThen_def
proof (intro allI impI)
  fix s r t
  assume m: "\<forall>s r t. dget (sd_regs s) i \<noteq> None \<longrightarrow> m s = (r, t) \<longrightarrow>
      dget (sd_regs t) i \<noteq> None \<and> (\<forall>x. r \<noteq> Inl (Job_not_found x))"
    and f: "\<And>x. \<forall>s r t. dget (sd_regs s) i \<noteq> None \<longrightarrow> f x s = (r, t) \<longrightarrow>
      dget (sd_regs t) i \<noteq> None \<and> (\<forall>x. r \<noteq> Inl (Job_not_found x))"
    and s: "dget (sd_regs s) i \<noteq> None"
    and e: "(case m s of (Inl e, s') \<Rightarrow> (Inl e, s') | (Inr x, s') \<Rightarrow> f x s') = (r, t)"
  obtain r1 s1 where one: "m s = (r1, s1)" by fastforce
  with m s have "dget (sd_regs s1) i \<noteq> None" "\<forall>x. r1 \<noteq> Inl (Job_not_found x)" by blast+
  with e one f show "dget (sd_regs t) i \<noteq> None \<and> (\<forall>x. r \<noteq> Inl (Job_not_found x))" by (cases r1) auto
qed

lemma knows_in_reg: "finds f \<Longrightarrow> knows i (in_reg i f)"
  unfolding knows_def in_reg_def finds_def by (auto simp: update_conv' split: option.splits prod.splits)

lemma knows_pure:
  "knows i (ret x)" "knows i (modify (job_broadcast ty evdata))" "knows i (reads g)" "knows i (registered i)"
  "knows i (persist_state env now i)" "knows i (delete_in_store env k)" "knows i (delete_all_in_store env ks)"
  by (auto simp: knows_def act_defs registered_def persist_state_def delete_in_store_def delete_all_in_store_def
      job_broadcast_def split: option.splits sum.splits prod.splits)

lemma knows_checks:
  "knows i (ensure_storage_deletes env)" "knows i (reads_err (deletable env i k))" "knows i (guard b (Execution_not_found k))"
  "knows i (reads_err (finished_ids env i status))"
  by (auto simp: knows_def ensure_storage_deletes_def deletable_def finished_ids_def act_defs split: option.splits if_splits)

lemma misses_andThen: "misses i m \<Longrightarrow> misses i (andThen m f)"
  by (simp add: misses_def andThen_def)

lemma misses_first: "misses i (in_reg i f)" "misses i (registered i)"
  by (simp_all add: misses_def in_reg_def registered_def reads_err_def)

lemma misses_reads: "(\<And>x. misses i (f x)) \<Longrightarrow> misses i (andThen (reads g) f)"
  by (simp add: misses_def andThen_def reads_def)

lemmas knows_ops = job_trigger_def job_pause_def job_resume_def job_stop_job_def job_cancel_current_def
  job_update_options_def job_delete_execution_def job_delete_executions_def

lemma ops_know:
  "knows i (job_trigger i)" "knows i (job_pause env now i)" "knows i (job_resume env now i)" "knows i (job_stop_job env now i)"
  "knows i (job_cancel_current i)" "knows i (job_update_options env now i ch)" "knows i (job_delete_execution env i k)"
  "knows i (job_delete_executions env i status)"
  unfolding knows_ops
  by (auto intro!: knows_andThen knows_in_reg knows_pure knows_checks finds_intros finds_admit finds_schedule
      finds_changes finds_reschedule split: if_splits)

lemma ops_miss:
  "misses i (job_trigger i)" "misses i (job_pause env now i)" "misses i (job_resume env now i)" "misses i (job_stop_job env now i)"
  "misses i (job_cancel_current i)" "misses i (job_update_options env now i ch)" "misses i (job_delete_execution env i k)"
  "misses i (job_delete_executions env i status)"
  unfolding knows_ops by (intro misses_reads misses_andThen misses_first)+

text \<open>The job a request names; \<open>Get_execution\<close> looks for the execution only.\<close>

fun job_named :: "job_request \<Rightarrow> string option" where
  "job_named (Get_job i) = Some i"
| "job_named (Trigger_job i) = Some i"
| "job_named (Pause_job i) = Some i"
| "job_named (Resume_job i) = Some i"
| "job_named (Stop_job i) = Some i"
| "job_named (Cancel_job i) = Some i"
| "job_named (Update_job i ch) = Some i"
| "job_named (Get_history i limit offset status) = Some i"
| "job_named (Delete_execution i k) = Some i"
| "job_named (Delete_executions i status) = Some i"
| "job_named _ = None"

lemma doing_known:
  assumes "knows i m" "misses i m" "\<And>e. err e = job_not_found \<longleftrightarrow> (\<exists>x. e = Job_not_found x)"
    and "\<And>x. reply x \<noteq> job_not_found"
  shows "fst (job_doing m err reply s) = job_not_found \<longleftrightarrow> dget (sd_regs s) i = None"
    and "dget (sd_regs s) i = None \<Longrightarrow> snd (job_doing m err reply s) = s"
proof -
  show "fst (job_doing m err reply s) = job_not_found \<longleftrightarrow> dget (sd_regs s) i = None"
  proof (cases "dget (sd_regs s) i")
    case None
    with assms(2,3) show ?thesis by (simp add: job_doing_def misses_def)
  next
    case (Some reg)
    obtain r t where m: "m s = (r, t)" by fastforce
    with assms(1) Some have "\<forall>x. r \<noteq> Inl (Job_not_found x)" unfolding knows_def by blast
    with m Some assms(3,4) show ?thesis by (cases r) (auto simp: job_doing_def)
  qed
  show "dget (sd_regs s) i = None \<Longrightarrow> snd (job_doing m err reply s) = s"
    using assms(2) by (simp add: misses_def)
qed

lemma replies_differ [simp]:
  "job_message m \<noteq> job_not_found" "Job_reply 200 v \<noteq> job_not_found" "page_dict tx items n limit offset \<noteq> job_not_found"
  "Job_escapes \<noteq> job_not_found" "execution_not_found \<noteq> job_not_found" "job_refusal 409 m c \<noteq> job_not_found"
  "job_refusal 400 m c \<noteq> job_not_found" "job_refusal 501 m c \<noteq> job_not_found"
  by (auto simp: job_message_def job_not_found_def job_refusal_def page_dict_def execution_not_found_def)

lemma errors_unknown:
  "control_error c e = job_not_found \<longleftrightarrow> (\<exists>x. e = Job_not_found x)"
  "update_error env tx ch e = job_not_found \<longleftrightarrow> (\<exists>x. e = Job_not_found x)"
  "delete_error e = job_not_found \<longleftrightarrow> (\<exists>x. e = Job_not_found x)"
  "delete_all_error e = job_not_found \<longleftrightarrow> (\<exists>x. e = Job_not_found x)"
  "(case e of Job_not_found _ \<Rightarrow> job_not_found | _ \<Rightarrow> Job_escapes) = job_not_found \<longleftrightarrow> (\<exists>x. e = Job_not_found x)"
  by (cases e; simp)+

lemma misses_state: "misses i m \<Longrightarrow> dget (sd_regs s) i = None \<Longrightarrow> snd (m s) = s"
  by (simp add: misses_def)

lemma registered_keys: "i \<in> set (dkeys d) \<longleftrightarrow> dget d i \<noteq> None"
  by (simp add: dkeys_def map_of_eq_None_iff)

text \<open>
  A request about a job is answered with \<open>JOB_NOT_FOUND\<close> exactly when no job is registered under its
  id, and then it changes nothing.
\<close>

theorem unknown_job_answered:
  assumes "job_named r = Some i"
  shows "(fst (job_route env tx now r s) = job_not_found \<longleftrightarrow> dget (sd_regs s) i = None)
    \<and> (dget (sd_regs s) i = None \<longrightarrow> snd (job_route env tx now r s) = s)"
  using assms
  by (cases r) (auto simp: doing_known(1) [where i = i] ops_know ops_miss errors_unknown registered_keys case_prod_beta Let_def
      misses_state [OF ops_miss(1)] misses_state [OF ops_miss(2)] misses_state [OF ops_miss(3)] misses_state [OF ops_miss(4)]
      misses_state [OF ops_miss(5)] misses_state [OF ops_miss(6)] misses_state [OF ops_miss(7)] misses_state [OF ops_miss(8)]
      split: option.splits)

section \<open>Listing the runs\<close>

text \<open>The runs a listing is about.\<close>

definition in_listing :: "string list option \<Rightarrow> string option \<Rightarrow> int option \<Rightarrow> job_execution \<Rightarrow> bool" where
  "in_listing ids status since e \<longleftrightarrow>
     (case ids of None \<Rightarrow> True | Some is \<Rightarrow> je_job_id e \<in> set is)
   \<and> (given status \<longrightarrow> Some (py_lower (je_status e)) = map_option py_lower status)
   \<and> (case since of None \<Rightarrow> True | Some t \<Rightarrow> t \<le> je_started_at e)"

lemma executions_query_matches:
  "query_matches (executions_query ids status since limit offset) e = in_listing ids status since e"
  by (auto simp: query_matches_def executions_query_def in_listing_def given_def split: option.splits)

lemma history_values:
  assumes "storage_ok s"
  shows "e \<in> set (dvalues (st_by_id s)) \<longleftrightarrow> history s (je_id e) = Some e"
    and "distinct (map je_id (dvalues (st_by_id s)))"
proof -
  have d: "distinct (map fst (st_by_id s))" and ids: "\<forall>p \<in> set (st_by_id s). je_id (snd p) = fst p"
    using assms by (auto simp: storage_ok_def dict_ok_def dget_in)
  then have "map je_id (dvalues (st_by_id s)) = map fst (st_by_id s)" by (simp add: dvalues_def)
  with d show "distinct (map je_id (dvalues (st_by_id s)))" by simp
  show "e \<in> set (dvalues (st_by_id s)) \<longleftrightarrow> history s (je_id e) = Some e"
    using d ids by (force simp: history_def get_execution_def dvalues_def)
qed

lemma newest_started_props:
  "set (newest_started xs) = set xs" "length (newest_started xs) = length xs"
  "distinct (map je_id (newest_started xs)) = distinct (map je_id xs)"
  "sorted_wrt (\<lambda>a b. je_started_at b \<le> je_started_at a) (newest_started xs)"
proof -
  have m: "mset (newest_started xs) = mset xs" by (simp add: newest_started_def)
  then show "set (newest_started xs) = set xs" "length (newest_started xs) = length xs"
    by (metis set_mset_mset, metis size_mset)
  from m have "mset (map je_id (newest_started xs)) = mset (map je_id xs)" by simp
  then show "distinct (map je_id (newest_started xs)) = distinct (map je_id xs)"
    by (metis mset_eq_imp_distinct_iff)
  have "sorted (map (\<lambda>e. - je_started_at e) (newest_started xs))" by (simp add: newest_started_def)
  then show "sorted_wrt (\<lambda>a b. je_started_at b \<le> je_started_at a) (newest_started xs)"
    by (simp add: sorted_map)
qed


text \<open>The jobs of a group, and of names and a group.\<close>

lemma group_filter:
  assumes "py_strip g \<noteq> []"
  shows "\<exists>is. resolve_job_ids job (Some g) regs = Some is
    \<and> (\<forall>i. i \<in> set is \<longleftrightarrow> i \<in> set (jobs_in_group g regs)
         \<and> (case map_option named_jobs job of None \<Rightarrow> True | Some js \<Rightarrow> js = [] \<or> i \<in> set js))"
  using assms by (cases job) (auto simp: resolve_job_ids_def Let_def split: list.splits)


theorem unknown_job_answered_witness:
  "fst (job_route mem_env \<lparr>jt_iso = (\<lambda>_. []), jt_from_iso = (\<lambda>_. None), jt_cron_error = (\<lambda>v. v)\<rparr> 0 (Pause_job ''nobody'') sample_history_sched) = job_not_found"
proof -
  have "dget (sd_regs sample_history_sched) ''nobody'' = None" by (simp add: sample_history_sched_def)
  with unknown_job_answered [of "Pause_job ''nobody''" "''nobody''" mem_env _ 0 sample_history_sched] show ?thesis
    by (simp del: job_route.simps)
qed

end
