(* ===== verification/Events.thy ===== *)
theory Events
  imports AuthService "HOL-Library.Sublist"
begin

text \<open>
  Server events (\<open>events.py\<close> of the abstractions, \<open>cli_event_bus.py\<close>), the sockets that receive them
  (\<open>cli_event_socket_manager.py\<close>), the sockets that receive log lines (\<open>cli_log_socket_manager.py\<close>) and
  their common base that closes a socket when its session ends (\<open>session_bound_sockets.py\<close>).  A WebSocket
  is a number; what is handed to it and how it is closed is kept as a log.
\<close>

section \<open>Events and the bus\<close>

definition RESERVED_EVENT_FIELDS :: "string list" where
  "RESERVED_EVENT_FIELDS = [''type'', ''timestamp'']"

record event_audience =
  au_permission :: "string option"
  au_user_id :: "string option"

definition everyone :: event_audience where
  "everyone = \<lparr>au_permission = None, au_user_id = None\<rparr>"

definition with_permission :: "string \<Rightarrow> event_audience" where
  "with_permission p = everyone\<lparr>au_permission := Some p\<rparr>"

definition audience_user :: "string \<Rightarrow> event_audience" where
  "audience_user i = everyone\<lparr>au_user_id := Some i\<rparr>"

definition is_everyone :: "event_audience \<Rightarrow> bool" where
  "is_everyone a \<longleftrightarrow> au_permission a = None \<and> au_user_id a = None"

record cli_event =
  ce_type :: string
  ce_timestamp :: string
  ce_data :: "(string, json) dict"
  ce_audience :: event_audience

definition to_message :: "cli_event \<Rightarrow> (string, json) dict" where
  "to_message ev =
     [(''type'', JStr (ce_type ev)), (''timestamp'', JStr (ce_timestamp ev))]
     @ filter (\<lambda>(k, v). k \<notin> set RESERVED_EVENT_FIELDS) (ce_data ev)"

definition event_pattern_matches :: "string \<Rightarrow> string \<Rightarrow> bool" where
  "event_pattern_matches type pattern =
     (if pattern = ''*'' then True
      else if suffix '':*'' pattern then py_startswith type (butlast pattern)
      else type = pattern)"

text \<open>
  A handler changes the state of its component; \<open>False\<close> means that it raised, which the bus logs.  A
  subscription has an identity of its own: the same handler may be subscribed twice.
\<close>

type_synonym 's handler = "cli_event \<Rightarrow> 's \<Rightarrow> bool \<times> 's"

record 's event_bus =
  eb_subscriptions :: "(nat \<times> string \<times> 's handler) list"
  eb_next :: nat

definition new_bus :: "'s event_bus" where
  "new_bus = \<lparr>eb_subscriptions = [], eb_next = 0\<rparr>"

definition subscribe :: "string \<Rightarrow> 's handler \<Rightarrow> 's event_bus \<Rightarrow> nat \<times> 's event_bus" where
  "subscribe pattern h b =
     (eb_next b, b\<lparr>eb_subscriptions := eb_subscriptions b @ [(eb_next b, pattern, h)], eb_next := Suc (eb_next b)\<rparr>)"

definition unsubscribe :: "nat \<Rightarrow> 's event_bus \<Rightarrow> 's event_bus" where
  "unsubscribe i b = b\<lparr>eb_subscriptions := dpop i (eb_subscriptions b)\<rparr>"

text \<open>The event that \<open>publish\<close> makes: the publisher may date it, with a text that is not empty.\<close>

definition make_event :: "string \<Rightarrow> string \<Rightarrow> (string, json) dict \<Rightarrow> event_audience \<Rightarrow> cli_event" where
  "make_event now type data audience =
     (let stamp = (case dget data ''timestamp'' of Some (JStr t) \<Rightarrow> if t = [] then now else t | _ \<Rightarrow> now)
      in \<lparr>ce_type = type, ce_timestamp = stamp, ce_data = dpop ''timestamp'' (dpop ''type'' data), ce_audience = audience\<rparr>)"

fun run_handlers :: "cli_event \<Rightarrow> (nat \<times> string \<times> 's handler) list \<Rightarrow> 's \<Rightarrow> 's" where
  "run_handlers ev [] s = s"
| "run_handlers ev ((i, pattern, h) # subs) s =
     run_handlers ev subs (if event_pattern_matches (ce_type ev) pattern then snd (h ev s) else s)"

definition bus_publish ::
    "string \<Rightarrow> string \<Rightarrow> (string, json) dict \<Rightarrow> event_audience \<Rightarrow> 's event_bus \<Rightarrow> 's \<Rightarrow> 's" where
  "bus_publish now type data audience b s =
     run_handlers (make_event now type data audience) (eb_subscriptions b) s"

section \<open>Sockets bound to sessions\<close>

text \<open>
  What the base class needs of a manager: its bound sockets and how to change them, the hook that stops
  delivery and the close of the socket.  \<open>alive\<close> is the installed check (\<open>False\<close> also when it raises).
\<close>

record 's socket_ops =
  so_bound :: "'s \<Rightarrow> (nat, auth_context) dict"
  so_set_bound :: "(nat, auth_context) dict \<Rightarrow> 's \<Rightarrow> 's"
  so_session_ended :: "nat \<Rightarrow> 's \<Rightarrow> 's"
  so_close :: "nat \<Rightarrow> int \<Rightarrow> string \<Rightarrow> 's \<Rightarrow> 's"

definition CLOSE_SESSION_ENDED :: int where "CLOSE_SESSION_ENDED = 4401"
definition REASON_SESSION_ENDED :: string where "REASON_SESSION_ENDED = ''session ended''"

definition bind_socket :: "'s socket_ops \<Rightarrow> nat \<Rightarrow> auth_context option \<Rightarrow> 's \<Rightarrow> 's" where
  "bind_socket ops w identity s =
     (case identity of None \<Rightarrow> s | Some c \<Rightarrow> so_set_bound ops (dset w c (so_bound ops s)) s)"

definition unbind_socket :: "'s socket_ops \<Rightarrow> nat \<Rightarrow> 's \<Rightarrow> 's" where
  "unbind_socket ops w s = so_set_bound ops (dpop w (so_bound ops s)) s"

definition check_socket :: "'s socket_ops \<Rightarrow> bool \<Rightarrow> nat \<Rightarrow> 's \<Rightarrow> 's" where
  "check_socket ops alive w s =
     (if alive \<or> dget (so_bound ops s) w = None then s
      else so_close ops w CLOSE_SESSION_ENDED REASON_SESSION_ENDED
             (so_session_ended ops w (unbind_socket ops w s)))"

fun check_sockets :: "'s socket_ops \<Rightarrow> (auth_context \<Rightarrow> bool) \<Rightarrow> (nat \<times> auth_context) list \<Rightarrow> 's \<Rightarrow> 's" where
  "check_sockets ops alive [] s = s"
| "check_sockets ops alive ((w, c) # ws) s = check_sockets ops alive ws (check_socket ops (alive c) w s)"

text \<open>\<open>request_recheck\<close> with an installed check, and \<open>close_ended_sessions\<close>: every bound socket, once.\<close>

definition request_recheck :: "'s socket_ops \<Rightarrow> (auth_context \<Rightarrow> bool) option \<Rightarrow> 's \<Rightarrow> 's" where
  "request_recheck ops check s =
     (case check of None \<Rightarrow> s | Some alive \<Rightarrow> check_sockets ops alive (so_bound ops s) s)"

definition close_ended_sessions :: "'s socket_ops \<Rightarrow> (auth_context \<Rightarrow> bool) \<Rightarrow> 's \<Rightarrow> 's" where
  "close_ended_sessions ops alive s = check_sockets ops alive (so_bound ops s) s"

text \<open>What every manager promises: its own bookkeeping does not touch the bound sockets.\<close>

locale session_sockets =
  fixes ops :: "'s socket_ops"
    and serves :: "'s \<Rightarrow> nat \<Rightarrow> bool"
    and closes :: "'s \<Rightarrow> (nat \<times> int \<times> string) list"
  assumes set_bound [simp]: "so_bound ops (so_set_bound ops d s) = d"
    and ended_bound [simp]: "so_bound ops (so_session_ended ops w s) = so_bound ops s"
    and close_bound [simp]: "so_bound ops (so_close ops w c r s) = so_bound ops s"
    and set_bound_serves [simp]: "serves (so_set_bound ops d s) v = serves s v"
    and ended_serves [simp]: "serves (so_session_ended ops w s) v \<longleftrightarrow> v \<noteq> w \<and> serves s v"
    and close_serves [simp]: "serves (so_close ops w c r s) v = serves s v"
    and set_bound_closes [simp]: "closes (so_set_bound ops d s) = closes s"
    and ended_closes [simp]: "closes (so_session_ended ops w s) = closes s"
    and close_closes [simp]: "closes (so_close ops w c r s) = closes s @ [(w, c, r)]"
begin

lemma check_socket_effect:
  "so_bound ops (check_socket ops alive w s) = (if alive then so_bound ops s else dpop w (so_bound ops s))"
  "serves (check_socket ops alive w s) v \<longleftrightarrow>
     serves s v \<and> (alive \<or> v \<noteq> w \<or> dget (so_bound ops s) w = None)"
  "closes (check_socket ops alive w s) =
     closes s @ (if alive \<or> dget (so_bound ops s) w = None then [] else [(w, CLOSE_SESSION_ENDED, REASON_SESSION_ENDED)])"
  by (auto simp: check_socket_def unbind_socket_def dpop_absent)

lemma check_sockets_effect:
  assumes "dict_ok ws" "\<forall>(w, c) \<in> set ws. dget (so_bound ops s) w = Some c"
  shows "so_bound ops (check_sockets ops alive ws s) =
      filter (\<lambda>(w, c). \<not> (\<exists>d. (w, d) \<in> set ws \<and> \<not> alive d)) (so_bound ops s)
    \<and> (\<forall>v. serves (check_sockets ops alive ws s) v \<longleftrightarrow> serves s v \<and> \<not> (\<exists>d. (v, d) \<in> set ws \<and> \<not> alive d))
    \<and> closes (check_sockets ops alive ws s) =
        closes s @ map (\<lambda>(w, c). (w, CLOSE_SESSION_ENDED, REASON_SESSION_ENDED)) (filter (\<lambda>(w, c). \<not> alive c) ws)"
  using assms
proof (induction ws arbitrary: s)
  case (Cons x ws)
  obtain w c where x: "x = (w, c)" by fastforce
  let ?s = "check_socket ops (alive c) w s"
  have w: "w \<notin> fst ` set ws" and ws: "dict_ok ws" using Cons.prems(1) x by (auto simp: dict_ok_def)
  have bound: "dget (so_bound ops s) w = Some c" using Cons.prems(2) x by simp
  have "\<forall>(v, d) \<in> set ws. dget (so_bound ops ?s) v = Some d"
    using Cons.prems(2) w by (force simp: check_socket_effect dget_dpop)
  note IH = Cons.IH [OF ws this]
  have mem: "(\<exists>d. (v, d) \<in> set (x # ws) \<and> \<not> alive d) \<longleftrightarrow> (v = w \<and> \<not> alive c) \<or> (\<exists>d. (v, d) \<in> set ws \<and> \<not> alive d)" for v
    using x by auto
  have "so_bound ops (check_sockets ops alive ws ?s) =
      filter (\<lambda>(v, d). \<not> (\<exists>d. (v, d) \<in> set (x # ws) \<and> \<not> alive d)) (so_bound ops s)"
    unfolding mem using IH by (auto simp: check_socket_effect dpop_filter intro!: filter_cong)
  moreover have "serves (check_sockets ops alive ws ?s) v \<longleftrightarrow> serves s v \<and> \<not> (\<exists>d. (v, d) \<in> set (x # ws) \<and> \<not> alive d)" for v
    unfolding mem using IH bound by (auto simp: check_socket_effect)
  moreover have "closes (check_sockets ops alive ws ?s) =
      closes s @ map (\<lambda>(w, c). (w, CLOSE_SESSION_ENDED, REASON_SESSION_ENDED)) (filter (\<lambda>(w, c). \<not> alive c) (x # ws))"
    using IH bound x by (simp add: check_socket_effect)
  ultimately show ?case by (simp add: x)
qed simp

lemma recheck_effect:
  assumes "dict_ok (so_bound ops s)"
  shows "so_bound ops (request_recheck ops (Some alive) s) = filter (\<lambda>(w, c). alive c) (so_bound ops s)"
    and "serves (request_recheck ops (Some alive) s) v \<longleftrightarrow>
      serves s v \<and> (\<forall>c. dget (so_bound ops s) v = Some c \<longrightarrow> alive c)"
    and "closes (request_recheck ops (Some alive) s) =
      closes s @ map (\<lambda>(w, c). (w, CLOSE_SESSION_ENDED, REASON_SESSION_ENDED)) (filter (\<lambda>(w, c). \<not> alive c) (so_bound ops s))"
proof -
  have all: "\<forall>(w, c) \<in> set (so_bound ops s). dget (so_bound ops s) w = Some c"
    using assms by (auto simp: dget_in)
  note eff = check_sockets_effect [OF assms all, of alive]
  have "(\<exists>d. (w, d) \<in> set (so_bound ops s) \<and> \<not> alive d) \<longleftrightarrow> \<not> alive c" if "(w, c) \<in> set (so_bound ops s)" for w c
    using that assms by (metis dget_in option.inject)
  then show "so_bound ops (request_recheck ops (Some alive) s) = filter (\<lambda>(w, c). alive c) (so_bound ops s)"
    using eff by (auto simp: request_recheck_def intro!: filter_cong)
  show "serves (request_recheck ops (Some alive) s) v \<longleftrightarrow>
      serves s v \<and> (\<forall>c. dget (so_bound ops s) v = Some c \<longrightarrow> alive c)"
    using eff by (auto simp: request_recheck_def dget_in [OF assms])
  show "closes (request_recheck ops (Some alive) s) =
      closes s @ map (\<lambda>(w, c). (w, CLOSE_SESSION_ENDED, REASON_SESSION_ENDED)) (filter (\<lambda>(w, c). \<not> alive c) (so_bound ops s))"
    using eff by (simp add: request_recheck_def)
qed

end

end
