(* ===== verification/AuditRoutes.thy ===== *)
theory AuditRoutes
  imports Events JobStats
begin

text \<open>
  The routes of the audit plugin (\<open>cli_audit_controller.py\<close>) and what the plugin does when an entry is recorded
  (\<open>CliAuditPlugin.log\<close> of \<open>cli_audit_builder.py\<close>), over the in-memory store.  The state is the store and that of
  the components that listen on the bus; the parser of ISO times, the text of a time, and the id and time of a
  new entry are parameters.
\<close>

section \<open>The plugin\<close>

definition DEFAULT_AUDIT_LIMIT :: int where "DEFAULT_AUDIT_LIMIT = 100"
definition MAX_AUDIT_LIMIT :: int where "MAX_AUDIT_LIMIT = 1000"
definition AUDIT_CLEARED_EVENT :: string where "AUDIT_CLEARED_EVENT = ''audit_cleared''"
definition AUDIT_READ :: string where "AUDIT_READ = ''audit:read''"
definition AUDIT_CLEAR :: string where "AUDIT_CLEAR = ''audit:clear''"
definition BAD_PAGING :: string where "BAD_PAGING = ''limit and offset must be integers >= 0''"

text \<open>
  \<open>ap_authorize\<close> is the check that a host installs: the caller, or the status and detail of an
  \<open>HTTPException\<close>.
\<close>

record 'b audit_plugin =
  ap_authorize :: "(string \<Rightarrow> (int \<times> string) + auth_context option) option"
  ap_event_bus :: "'b event_bus option"

record audit_texts =
  ax_from_iso :: "string \<Rightarrow> int option"
  ax_iso :: "int \<Rightarrow> string"

definition recorded_data :: "audit_texts \<Rightarrow> audit_entry \<Rightarrow> (string, json) dict" where
  "recorded_data tx e =
     dpop ''timestamp'' (audit_entry_to_dict e) @ [(''timestamp'', JStr (ax_iso tx (ae_timestamp e)))]"

definition publish_recorded :: "audit_texts \<Rightarrow> string \<Rightarrow> 'b audit_plugin \<Rightarrow> audit_entry \<Rightarrow> 'b \<Rightarrow> 'b" where
  "publish_recorded tx stamp p e b =
     (case ap_event_bus p of
        None \<Rightarrow> b
      | Some bus \<Rightarrow> bus_publish stamp ''audit:recorded'' (recorded_data tx e) (with_permission AUDIT_READ) bus b)"

definition plugin_log ::
    "audit_texts \<Rightarrow> string \<Rightarrow> 'b audit_plugin \<Rightarrow> audit_entry \<Rightarrow> audit_store \<times> 'b \<Rightarrow> audit_store \<times> 'b" where
  "plugin_log tx stamp p e sb = (audit_log e (fst sb), publish_recorded tx stamp p e (snd sb))"

section \<open>Requests\<close>

text \<open>A request: its query parameters, the caller that protection left, the peer's address.\<close>

record audit_request =
  ar_query :: "(string, string) dict"
  ar_caller :: "auth_context option"
  ar_host :: "string option"

datatype audit_answer = Audit_reply int json | Audit_cleared

definition audit_error :: "int \<Rightarrow> string \<Rightarrow> audit_answer" where
  "audit_error status message = Audit_reply status (JObj [(''error'', JStr message)])"

definition query_paging :: "audit_request \<Rightarrow> string \<Rightarrow> int option option" where
  "query_paging rq name =
     (case dget (ar_query rq) name of
        None \<Rightarrow> Some None
      | Some raw \<Rightarrow>
          if raw = [] then Some None
          else case py_int (py_strip raw) of None \<Rightarrow> None | Some n \<Rightarrow> if n < 0 then None else Some (Some n))"

definition query_time :: "audit_texts \<Rightarrow> audit_request \<Rightarrow> string \<Rightarrow> string + int option" where
  "query_time tx rq name =
     (let raw = py_strip (or_else (dget (ar_query rq) name) []);
          t = (if raw \<noteq> [] \<and> last raw \<in> {CHR ''Z'', CHR ''z''} then butlast raw @ ''+00:00'' else raw)
      in if raw = [] then Inr None
         else case py_int raw of
                Some n \<Rightarrow> Inr (Some n)
              | None \<Rightarrow>
                  (case ax_from_iso tx t of
                     Some n \<Rightarrow> Inr (Some n)
                   | None \<Rightarrow> Inl (quoted name @ '' must be an ISO 8601 time or epoch milliseconds, got '' @ quoted raw)))"

definition caller_of :: "'b audit_plugin \<Rightarrow> audit_request \<Rightarrow> string \<Rightarrow> (int \<times> string) + auth_context option" where
  "caller_of p rq permission =
     (case ap_authorize p of
        Some authorize \<Rightarrow> authorize permission
      | None \<Rightarrow>
          (case ar_caller rq of
             Some c \<Rightarrow> if ctx_can c permission then Inr (Some c) else Inl (403, ''missing permission: '' @ permission)
           | None \<Rightarrow> Inr None))"

definition query_text :: "audit_request \<Rightarrow> string \<Rightarrow> string option" where
  "query_text rq name = (case dget (ar_query rq) name of None \<Rightarrow> None | Some v \<Rightarrow> or_none v)"

section \<open>The routes\<close>

definition listing_query :: "audit_request \<Rightarrow> int option \<Rightarrow> int option \<Rightarrow> int option \<Rightarrow> int option \<Rightarrow> audit_query" where
  "listing_query rq limit offset b e =
     \<lparr>aq_limit = Some (case limit of None \<Rightarrow> DEFAULT_AUDIT_LIMIT | Some n \<Rightarrow> min n MAX_AUDIT_LIMIT),
      aq_event = query_text rq ''event'', aq_username = query_text rq ''username'', aq_actor = query_text rq ''actor'',
      aq_offset = (if offset = Some 0 then None else offset), aq_from = b, aq_to = e\<rparr>"

definition list_entries :: "audit_texts \<Rightarrow> 'b audit_plugin \<Rightarrow> audit_request \<Rightarrow> audit_store \<Rightarrow> audit_answer" where
  "list_entries tx p rq s =
     (case caller_of p rq AUDIT_READ of
        Inl (status, message) \<Rightarrow> audit_error status message
      | Inr _ \<Rightarrow>
          (case (query_paging rq ''limit'', query_paging rq ''offset'') of
             (Some limit, Some offset) \<Rightarrow>
               (case query_time tx rq ''from'' of
                  Inl m \<Rightarrow> audit_error 400 m
                | Inr b \<Rightarrow>
                    (case query_time tx rq ''to'' of
                       Inl m \<Rightarrow> audit_error 400 m
                     | Inr e \<Rightarrow>
                         Audit_reply 200 (JArr (map (\<lambda>x. JObj (audit_entry_to_dict x))
                           (audit_get_entries (Some (listing_query rq limit offset b e)) s)))))
           | _ \<Rightarrow> audit_error 400 BAD_PAGING))"

definition cleared_entry :: "string \<Rightarrow> int \<Rightarrow> auth_context option \<Rightarrow> string option \<Rightarrow> audit_entry" where
  "cleared_entry i now caller host =
     (let name = map_option (\<lambda>c. u_name (cx_user c)) caller; user_id = map_option (\<lambda>c. u_id (cx_user c)) caller
      in \<lparr>ae_id = i, ae_timestamp = now, ae_event = AUDIT_CLEARED_EVENT, ae_username = or_else name [],
          ae_details = Some ''audit log cleared'', ae_actor = name,
          ae_metadata = Some [(''remoteAddress'', case host of None \<Rightarrow> JNull | Some h \<Rightarrow> JStr h)],
          ae_user_id = user_id, ae_actor_id = user_id, ae_target = None, ae_properties = None\<rparr>)"

definition clear_entries ::
    "audit_texts \<Rightarrow> string \<Rightarrow> string \<Rightarrow> int \<Rightarrow> 'b audit_plugin \<Rightarrow> audit_request \<Rightarrow> audit_store \<times> 'b
       \<Rightarrow> audit_answer \<times> audit_store \<times> 'b" where
  "clear_entries tx stamp i now p rq sb =
     (case caller_of p rq AUDIT_CLEAR of
        Inl (status, message) \<Rightarrow> (audit_error status message, sb)
      | Inr caller \<Rightarrow>
          (Audit_cleared, plugin_log tx stamp p (cleared_entry i now caller (ar_host rq)) (audit_clear (fst sb), snd sb)))"

section \<open>What the routes guarantee\<close>

text \<open>One request never returns more entries than the maximum.\<close>

lemma audit_listing_bounded:
  assumes "list_entries tx p rq s = Audit_reply 200 (JArr xs)"
  shows "int (length xs) \<le> MAX_AUDIT_LIMIT"
proof -
  have page: "int (length (audit_get_entries (Some (listing_query rq limit offset b e)) s)) \<le> MAX_AUDIT_LIMIT"
    if "query_paging rq ''limit'' = Some limit" for limit offset b e
    using that by (auto simp: audit_get_entries_def audit_page_def listing_query_def query_paging_def Let_def
        DEFAULT_AUDIT_LIMIT_def MAX_AUDIT_LIMIT_def split: option.splits if_splits)
  from assms show ?thesis
    by (auto simp: list_entries_def audit_error_def intro!: page split: sum.splits prod.splits option.splits)
qed

text \<open>An entry stays on record while fewer ordinary entries follow than the store keeps.\<close>

lemma logged_stays:
  assumes "entries s = xs @ (k, e) # ys" "length ys + length es < nat (max_entries s)"
  shows "\<exists>xs ys. entries (fold audit_log es s) = xs @ (k, e) # ys"
  using assms
proof (induction es arbitrary: s xs ys)
  case (Cons x es)
  show ?case
  proof (cases "ae_event x = FAILED_LOGIN_EVENT")
    case True
    then have "entries (audit_log x s) = entries s" by (simp add: audit_log_def)
    with Cons.prems Cons.IH [of "audit_log x s" xs ys] show ?thesis by (simp add: audit_log_frame)
  next
    case False
    let ?all = "xs @ (k, e) # ys @ [(next_seq s, x)]"
    let ?n = "length ?all - nat (max_entries s)"
    have "?n \<le> length xs" using Cons.prems(2) by auto
    with False Cons.prems(1) have "entries (audit_log x s) = drop ?n xs @ (k, e) # (ys @ [(next_seq s, x)])"
      by (simp add: audit_log_def last_n_def)
    with Cons.prems(2) Cons.IH [of "audit_log x s" "drop ?n xs" "ys @ [(next_seq s, x)]"] show ?thesis
      by (simp add: audit_log_frame)
  qed
qed auto

text \<open>
  C12.  Clearing the audit log leaves a trace.  Without the permission nothing changes.  With it the log then
  holds exactly one entry, which says that it was cleared and by whom, those who may read the log hear of it, and
  the entry stays on record while fewer entries follow than the store keeps.
\<close>

theorem audit_clear_leaves_trace:
  assumes "audit_inv s" and "ap_authorize p = None" and "ar_caller rq = Some c"
    and "clear_entries tx stamp i now p rq (s, b) = (a, (s', b'))"
  shows "if ctx_can c AUDIT_CLEAR
    then \<exists>e. a = Audit_cleared \<and> ae_event e = ''audit_cleared'' \<and> ae_actor_id e = Some (u_id (cx_user c))
      \<and> audit_get_entries None s' = [e] \<and> b' = publish_recorded tx stamp p e b
      \<and> (\<forall>es. int (length es) < max_entries s \<longrightarrow> e \<in> set (audit_get_entries None (fold audit_log es s')))
    else a = audit_error 403 ''missing permission: audit:clear'' \<and> s' = s \<and> b' = b"
proof (cases "ctx_can c AUDIT_CLEAR")
  case False
  with assms show ?thesis by (auto simp: clear_entries_def caller_of_def AUDIT_CLEAR_def)
next
  case True
  define e where "e = cleared_entry i now (Some c) (ar_host rq)"
  have m: "0 < max_entries s" using assms(1) by (simp add: audit_inv_def queue_ok_def)
  have e: "ae_event e = ''audit_cleared''" "ae_actor_id e = Some (u_id (cx_user c))"
    by (simp_all add: e_def cleared_entry_def Let_def AUDIT_CLEARED_EVENT_def)
  have s': "a = Audit_cleared" "s' = audit_log e (audit_clear s)" "b' = publish_recorded tx stamp p e b"
    using True assms(2-4) by (auto simp: clear_entries_def caller_of_def plugin_log_def e_def)
  have one: "entries s' = [] @ (next_seq s, e) # []" "failed s' = []" "max_entries s' = max_entries s"
    using e(1) m by (auto simp: s'(2) audit_log_def audit_clear_def FAILED_LOGIN_EVENT_def last_n_def)
  have "e \<in> set (audit_get_entries None (fold audit_log es s'))" if few: "int (length es) < max_entries s" for es
  proof -
    obtain xs ys where "entries (fold audit_log es s') = xs @ (next_seq s, e) # ys"
      using logged_stays [OF one(1), of es] few by (auto simp: one(3) zless_nat_eq_int_zless)
    then show ?thesis by (simp add: audit_get_entries_def newest_first_set)
  qed
  moreover have "audit_get_entries None s' = [e]"
    using one(1,2) by (simp add: audit_get_entries_def newest_first_def)
  ultimately show ?thesis using True e s' by auto
qed

text \<open>An administrator clears a log, and nobody listens.\<close>

definition demo_clearer :: auth_context where
  "demo_clearer = \<lparr>cx_user = \<lparr>u_id = ''u1'', u_name = ''ann'', u_email = [], u_groups = [], u_disabled = False,
     u_must_change_password = False, u_home_dir = None, u_data = None, u_last_login_at = None, u_created_at = 0, u_updated_at = 0\<rparr>,
     cx_groups = [], cx_permissions = [''audit:*''], cx_session = None, cx_token = None, cx_external = False, cx_api_token = None\<rparr>"

definition demo_plugin :: "unit audit_plugin" where
  "demo_plugin = \<lparr>ap_authorize = None, ap_event_bus = None\<rparr>"

definition demo_clear_request :: audit_request where
  "demo_clear_request = \<lparr>ar_query = [], ar_caller = Some demo_clearer, ar_host = None\<rparr>"

theorem audit_clear_leaves_trace_witness:
  "\<exists>e. ae_event e = ''audit_cleared'' \<and> ae_actor_id e = Some ''u1''
    \<and> audit_get_entries None (fst (snd (clear_entries \<lparr>ax_from_iso = (\<lambda>_. None), ax_iso = (\<lambda>_. [])\<rparr> ''t'' ''e1'' 5
          demo_plugin demo_clear_request (new_audit_store 3 2, ())))) = [e]"
proof -
  let ?tx = "\<lparr>ax_from_iso = (\<lambda>_. None), ax_iso = (\<lambda>_. [])\<rparr>"
  obtain a s' b' where r: "clear_entries ?tx ''t'' ''e1'' 5 demo_plugin demo_clear_request (new_audit_store 3 2, ()) = (a, (s', b'))"
    by (metis prod.exhaust)
  have inv: "audit_inv (new_audit_store 3 2)" by (rule audit.inv_init [OF audit_init_new])
  have can: "ctx_can demo_clearer AUDIT_CLEAR" by code_simp
  have p: "ap_authorize demo_plugin = None" "ar_caller demo_clear_request = Some demo_clearer" "u_id (cx_user demo_clearer) = ''u1''"
    by (simp_all add: demo_plugin_def demo_clear_request_def demo_clearer_def)
  from audit_clear_leaves_trace [OF inv p(1,2) r] can p(3) r show ?thesis by auto
qed

end
