(* ===== verification/FileTree.thy ===== *)
theory FileTree
  imports Prelude "HOL-Library.Sublist"
begin

text \<open>
  Path normalisation and the tree of nodes that the in-memory and the JSON file providers keep
  (\<open>filesystem/qodalis_cli_filesystem/providers/in_memory_provider.py\<close>).  A node's children are a list
  in insertion order; the in-memory provider's dictionary is keyed by the name the child itself has,
  so assigning to a key is \<open>put_child\<close>.  Nodes are values: where the code changes a node it holds by
  reference, the tree is changed at that node's path.
\<close>

section \<open>Errors and paths\<close>

datatype fs_error =
    Fs_not_found string
  | Fs_permission string
  | Fs_exists string
  | Fs_not_a_directory string
  | Fs_is_a_directory string
  | Fs_name_error string
  | Fs_key_error string
  | Fs_bad_document string

definition SLASH :: char where
  "SLASH = CHR ''/''"

definition path_step :: "string list \<Rightarrow> string \<Rightarrow> string list" where
  "path_step parts segment =
     (if segment = [] \<or> segment = ''.'' then parts
      else if segment = ''..'' then butlast parts
      else parts @ [segment])"

definition path_parts :: "string \<Rightarrow> string list" where
  "path_parts path =
     (let p = py_strip (py_strip_chars (\<lambda>c. c = SLASH) path)
      in if p = [] \<or> p = ''.'' then [] else foldl path_step [] (py_split SLASH p))"

definition normalize_path :: "string \<Rightarrow> string" where
  "normalize_path path = py_join [SLASH] (path_parts path)"

text \<open>The providers split the normalised path again: that gives the parts back.\<close>

definition part_ok :: "string \<Rightarrow> bool" where
  "part_ok w \<longleftrightarrow> w \<noteq> [] \<and> w \<noteq> ''.'' \<and> w \<noteq> ''..'' \<and> SLASH \<notin> set w"

lemma path_step_ok: "\<forall>w \<in> set ps. part_ok w \<Longrightarrow> SLASH \<notin> set s \<Longrightarrow> \<forall>w \<in> set (path_step ps s). part_ok w"
  by (auto simp: path_step_def part_ok_def dest: in_set_butlastD)

lemma foldl_path_ok:
  "\<forall>s \<in> set segs. SLASH \<notin> set s \<Longrightarrow> \<forall>w \<in> set ps. part_ok w \<Longrightarrow>
     \<forall>w \<in> set (foldl path_step ps segs). part_ok w"
proof (induction segs arbitrary: ps)
  case (Cons s segs)
  then have "\<forall>w \<in> set (path_step ps s). part_ok w" by (intro path_step_ok) simp_all
  with Cons show ?case by simp
qed simp

lemma path_parts_ok: "w \<in> set (path_parts path) \<Longrightarrow> part_ok w"
  using foldl_path_ok [of "py_split SLASH p" "[]" for p] py_split_free
  by (fastforce simp: path_parts_def Let_def split: if_splits)

lemma join_Nil: "py_join sep ws = [] \<Longrightarrow> \<forall>w \<in> set ws. w \<noteq> [] \<Longrightarrow> ws = []"
  by (induction sep ws rule: py_join.induct) auto

lemma normalize_empty: "normalize_path path = [] \<longleftrightarrow> path_parts path = []"
  using join_Nil [of "[SLASH]" "path_parts path"] path_parts_ok
  by (auto simp: normalize_path_def part_ok_def)

lemma split_normalize: "path_parts path \<noteq> [] \<Longrightarrow> py_split SLASH (normalize_path path) = path_parts path"
  unfolding normalize_path_def using path_parts_ok
  by (intro py_split_join) (auto simp: part_ok_def)

text \<open>A normalised path never leaves the root and has no blank, \<open>.\<close> or \<open>..\<close> part.\<close>

lemma path_parts_clean: "\<forall>w \<in> set (path_parts path). part_ok w"
  using path_parts_ok by blast

section \<open>Nodes\<close>

record fmeta =
  fm_name :: string
  fm_type :: string
  fm_created :: string
  fm_modified :: string
  fm_size :: nat
  fm_permissions :: string

datatype 'c fnode = FNode (node_meta: fmeta) (node_content: 'c) (node_children: "'c fnode list")

text \<open>
  The constructor with \<open>__post_init__\<close>: without a creation time both times are the current one; the
  permissions always follow the type.
\<close>

definition make_node :: "string \<Rightarrow> string \<Rightarrow> string \<Rightarrow> 'c \<Rightarrow> string \<Rightarrow> string \<Rightarrow> nat \<Rightarrow> 'c fnode" where
  "make_node now name type content created modified sz =
     FNode \<lparr>fm_name = name, fm_type = type,
            fm_created = (if created = [] then now else created),
            fm_modified = (if created = [] then now else modified), fm_size = sz,
            fm_permissions = (if type = ''directory'' then ''drwxr-xr-x'' else ''-rw-r--r--'')\<rparr> content []"

definition new_dir :: "'c \<Rightarrow> string \<Rightarrow> string \<Rightarrow> 'c fnode" where
  "new_dir blank now name = make_node now name ''directory'' blank [] [] 0"

definition node_name :: "'c fnode \<Rightarrow> string" where
  "node_name n = fm_name (node_meta n)"

definition is_dir :: "'c fnode \<Rightarrow> bool" where
  "is_dir n = (fm_type (node_meta n) = ''directory'')"

definition with_children :: "'c fnode list \<Rightarrow> 'c fnode \<Rightarrow> 'c fnode" where
  "with_children cs n = FNode (node_meta n) (node_content n) cs"

definition get_child :: "string \<Rightarrow> 'c fnode \<Rightarrow> 'c fnode option" where
  "get_child name n = List.find (\<lambda>c. node_name c = name) (node_children n)"

fun put_in :: "'c fnode \<Rightarrow> 'c fnode list \<Rightarrow> 'c fnode list" where
  "put_in c [] = [c]"
| "put_in c (x # xs) = (if node_name x = node_name c then c # xs else x # put_in c xs)"

definition put_child :: "'c fnode \<Rightarrow> 'c fnode \<Rightarrow> 'c fnode" where
  "put_child c n = with_children (put_in c (node_children n)) n"

definition add_child :: "'c fnode \<Rightarrow> 'c fnode \<Rightarrow> 'c fnode" where
  "add_child c n = with_children (node_children n @ [c]) n"

definition remove_child :: "string \<Rightarrow> 'c fnode \<Rightarrow> 'c fnode" where
  "remove_child name n = with_children (filter (\<lambda>c. node_name c \<noteq> name) (node_children n)) n"

fun walk :: "string list \<Rightarrow> 'c fnode \<Rightarrow> 'c fnode option" where
  "walk [] n = Some n"
| "walk (p # ps) n =
     (if \<not> is_dir n then None
      else (case get_child p n of None \<Rightarrow> None | Some c \<Rightarrow> walk ps c))"

definition resolve :: "'c fnode \<Rightarrow> string \<Rightarrow> 'c fnode option" where
  "resolve root norm = (if norm = [] then Some root else walk (py_split SLASH norm) root)"

text \<open>
  \<open>_ensure_parents\<close>: nothing is created before an error, since below a missing directory everything is
  missing.
\<close>

fun ensure_parents ::
    "'c \<Rightarrow> bool \<Rightarrow> string \<Rightarrow> string \<Rightarrow> string list \<Rightarrow> 'c fnode \<Rightarrow> fs_error + 'c fnode" where
  "ensure_parents blank create now path [] n = Inr n"
| "ensure_parents blank create now path (p # ps) n =
     (case get_child p n of
        None \<Rightarrow>
          if \<not> create then Inl (Fs_not_found path)
          else (case ensure_parents blank create now path ps (new_dir blank now p) of
                  Inl e \<Rightarrow> Inl e | Inr c \<Rightarrow> Inr (put_child c n))
      | Some c \<Rightarrow>
          if \<not> is_dir c then Inl (Fs_not_a_directory path)
          else (case ensure_parents blank create now path ps c of
                  Inl e \<Rightarrow> Inl e | Inr c' \<Rightarrow> Inr (put_child c' n)))"

text \<open>A change of the node at a path.\<close>

fun update_at :: "string list \<Rightarrow> ('c fnode \<Rightarrow> 'c fnode) \<Rightarrow> 'c fnode \<Rightarrow> 'c fnode" where
  "update_at [] f n = f n"
| "update_at (p # ps) f n =
     (case get_child p n of None \<Rightarrow> n | Some c \<Rightarrow> put_child (update_at ps f c) n)"

text \<open>\<open>_deep_copy\<close>: the copy and everything below it is new; only the root of the copy is renamed.\<close>

fun deep_copy :: "string \<Rightarrow> 'c fnode \<Rightarrow> string \<Rightarrow> 'c fnode" where
  "deep_copy now (FNode m c cs) name =
     with_children (map (\<lambda>x. deep_copy now x (node_name x)) cs)
       (make_node now name (fm_type m) c now now (fm_size m))"

section \<open>What is at a path\<close>

definition info_at :: "'c fnode \<Rightarrow> string list \<Rightarrow> (fmeta \<times> 'c) option" where
  "info_at n ps = map_option (\<lambda>x. (node_meta x, node_content x)) (walk ps n)"

definition files_at :: "'c fnode \<Rightarrow> string list \<Rightarrow> 'c option" where
  "files_at n ps = (case info_at n ps of None \<Rightarrow> None
     | Some (m, c) \<Rightarrow> if fm_type m = ''directory'' then None else Some c)"

definition dir_at :: "'c fnode \<Rightarrow> string list \<Rightarrow> bool" where
  "dir_at n ps = (case info_at n ps of None \<Rightarrow> False | Some (m, _) \<Rightarrow> fm_type m = ''directory'')"

lemma node_simps [simp]:
  "node_meta (with_children cs n) = node_meta n" "node_content (with_children cs n) = node_content n"
  "node_children (with_children cs n) = cs"
  "node_meta (put_child c n) = node_meta n" "node_content (put_child c n) = node_content n"
  "node_meta (add_child c n) = node_meta n" "node_content (add_child c n) = node_content n"
  "node_meta (remove_child p n) = node_meta n" "node_content (remove_child p n) = node_content n"
  "is_dir (put_child c n) = is_dir n" "is_dir (remove_child p n) = is_dir n" "is_dir (add_child c n) = is_dir n"
  "node_name (put_child c n) = node_name n" "node_name (remove_child p n) = node_name n"
  "node_name (add_child c n) = node_name n"
  by (simp_all add: with_children_def put_child_def add_child_def remove_child_def is_dir_def node_name_def)

lemma get_put_child: "get_child p (put_child c n) = (if p = node_name c then Some c else get_child p n)"
proof -
  have "List.find (\<lambda>c. node_name c = p) (put_in c xs)
      = (if p = node_name c then Some c else List.find (\<lambda>c. node_name c = p) xs)" for xs
    by (induction xs) auto
  then show ?thesis by (simp add: get_child_def put_child_def)
qed

lemma find_append: "List.find P (xs @ ys) = (case List.find P xs of None \<Rightarrow> List.find P ys | r \<Rightarrow> r)"
  by (induction xs) auto

lemma get_remove_child: "get_child p (remove_child q n) = (if p = q then None else get_child p n)"
proof -
  have "List.find (\<lambda>c. node_name c = p) (filter (\<lambda>c. node_name c \<noteq> q) xs)
      = (if p = q then None else List.find (\<lambda>c. node_name c = p) xs)" for xs
    by (induction xs) auto
  from this [of "node_children n"] show ?thesis by (simp add: get_child_def remove_child_def)
qed

lemma get_add_child:
  "get_child p (add_child c n) = (case get_child p n of
     None \<Rightarrow> if node_name c = p then Some c else None | Some x \<Rightarrow> Some x)"
  by (simp add: get_child_def add_child_def find_append split: option.split)

lemma get_child_name: "get_child p n = Some c \<Longrightarrow> node_name c = p"
  by (auto simp: get_child_def find_Some_iff)

lemma new_dir_simps [simp]:
  "is_dir (new_dir e now p)" "node_name (new_dir e now p) = p" "node_children (new_dir e now p) = []"
  "get_child q (new_dir e now p) = None"
  by (simp_all add: new_dir_def make_node_def is_dir_def node_name_def get_child_def)

lemma info_Nil [simp]: "info_at n [] = Some (node_meta n, node_content n)"
  by (simp add: info_at_def)

lemma info_Cons:
  "info_at n (p # ps) = (if is_dir n then (case get_child p n of None \<Rightarrow> None | Some c \<Rightarrow> info_at c ps) else None)"
  by (simp add: info_at_def split: option.split)

lemma ensure_parents_name:
  "ensure_parents e cr now path ps n = Inr n' \<Longrightarrow>
     node_meta n' = node_meta n \<and> node_content n' = node_content n"
  by (cases ps) (auto split: option.splits if_splits sum.splits)

lemma ensure_parents_names: "ensure_parents e cr now path ps n = Inr n' \<Longrightarrow> node_name n' = node_name n"
  by (drule ensure_parents_name) (simp add: node_name_def)

lemma ensure_parents_dir: "ensure_parents e cr now path ps n = Inr n' \<Longrightarrow> is_dir n' = is_dir n"
  by (drule ensure_parents_name) (simp add: is_dir_def)

text \<open>Making parents adds the missing directories on the way and nothing else.\<close>

lemma ensure_parents_info:
  assumes "ensure_parents e cr now path ps n = Inr n'" "is_dir n"
  shows "info_at n' qs =
    (if info_at n qs = None \<and> prefix qs ps
     then Some (node_meta (new_dir e now (last qs)), e) else info_at n qs)"
  using assms
proof (induction ps arbitrary: n n' qs)
  case Nil
  then show ?case by (cases qs) auto
next
  case (Cons p ps)
  let ?c = "case get_child p n of None \<Rightarrow> new_dir e now p | Some c \<Rightarrow> c"
  obtain c' where c': "ensure_parents e cr now path ps ?c = Inr c'" "n' = put_child c' n" "is_dir ?c"
    using Cons.prems by (auto split: option.splits if_splits sum.splits)
  have name: "node_name c' = p"
    using ensure_parents_names [OF c'(1)] get_child_name [of p n] by (auto split: option.splits)
  show ?case
  proof (cases qs)
    case Nil
    with c'(2) show ?thesis by simp
  next
    case (Cons q qs')
    show ?thesis
    proof (cases "q = p")
      case False
      with Cons c'(2) name \<open>is_dir n\<close> show ?thesis by (simp add: info_Cons get_put_child)
    next
      case True
      have i: "info_at n' qs = info_at c' qs'"
        using True Cons c'(2) name \<open>is_dir n\<close> by (simp add: info_Cons get_put_child)
      note ih = Cons.IH [OF c'(1,3), of qs']
      show ?thesis
      proof (cases "get_child p n")
        case None
        have "node_content (new_dir e now p) = e" by (simp add: new_dir_def make_node_def)
        with None True Cons i ih \<open>is_dir n\<close> show ?thesis
          by (cases qs') (auto simp: info_Cons)
      next
        case (Some c)
        with True Cons i ih \<open>is_dir n\<close> show ?thesis
          by (cases qs') (auto simp: info_Cons)
      qed
    qed
  qed
qed

lemma ensure_parents_walk:
  assumes "ensure_parents e cr now path ps n = Inr n'" "is_dir n"
  shows "\<exists>m. walk ps n' = Some m \<and> is_dir m"
  using assms
proof (induction ps arbitrary: n n')
  case (Cons p ps)
  let ?c = "case get_child p n of None \<Rightarrow> new_dir e now p | Some c \<Rightarrow> c"
  obtain c' where c': "ensure_parents e cr now path ps ?c = Inr c'" "n' = put_child c' n" "is_dir ?c"
    using Cons.prems by (auto split: option.splits if_splits sum.splits)
  have "node_name c' = p"
    using ensure_parents_names [OF c'(1)] get_child_name [of p n] by (auto split: option.splits)
  with Cons.IH [OF c'(1,3)] c'(2) Cons.prems(2) show ?case by (simp add: get_put_child)
qed simp

text \<open>A change below a directory is seen at the paths through the changed child only.\<close>

lemma update_at_meta: "(\<And>x. node_meta (f x) = node_meta x \<and> node_content (f x) = node_content x) \<Longrightarrow>
    node_meta (update_at ps f n) = node_meta n \<and> node_content (update_at ps f n) = node_content n"
  by (induction ps arbitrary: n) (auto split: option.split)

lemma update_at_info:
  assumes "walk ps n = Some m"
    and f: "\<And>x. node_meta (f x) = node_meta x \<and> node_content (f x) = node_content x"
  shows "info_at (update_at ps f n) qs =
    (if prefix ps qs then info_at (f m) (drop (length ps) qs) else info_at n qs)"
  using assms(1)
proof (induction ps arbitrary: n qs)
  case (Cons p ps)
  then obtain c where c: "is_dir n" "get_child p n = Some c" "walk ps c = Some m"
    by (auto split: if_splits option.splits)
  have name: "node_name (update_at ps f c) = p"
    using update_at_meta [OF f] get_child_name [OF c(2)] by (simp add: node_name_def)
  show ?case
  proof (cases qs)
    case Nil
    with c(2) show ?thesis by simp
  next
    case (Cons q qs')
    with c name Cons.IH [OF c(3), of qs'] show ?thesis
      by (cases "q = p") (auto simp: info_Cons get_put_child)
  qed
qed simp

text \<open>A deep copy has the same contents at the same places.\<close>

lemma deep_copy_simps [simp]:
  "node_name (deep_copy now n name) = name" "is_dir (deep_copy now n name) = is_dir n"
  "node_content (deep_copy now n name) = node_content n"
  "fm_type (node_meta (deep_copy now n name)) = fm_type (node_meta n)"
  by (cases n; simp add: node_name_def make_node_def is_dir_def)+

lemma get_deep_copy:
  "get_child p (deep_copy now n name) = map_option (\<lambda>c. deep_copy now c p) (get_child p n)"
proof -
  have "List.find (\<lambda>c. node_name c = p) (map (\<lambda>x. deep_copy now x (node_name x)) cs)
      = map_option (\<lambda>c. deep_copy now c p) (List.find (\<lambda>c. node_name c = p) cs)" for cs :: "'a fnode list"
    by (induction cs) auto
  then show ?thesis by (cases n) (simp add: get_child_def)
qed

lemma deep_copy_files: "files_at (deep_copy now n name) qs = files_at n qs \<and> dir_at (deep_copy now n name) qs = dir_at n qs"
proof (induction qs arbitrary: n name)
  case Nil
  then show ?case by (simp add: files_at_def dir_at_def)
next
  case (Cons q qs)
  then show ?case
    by (auto simp: files_at_def dir_at_def info_Cons get_deep_copy split: option.split)
qed

section \<open>Changes of a tree, seen from its paths\<close>

lemma walk_append: "walk (ps @ qs) n = (case walk ps n of None \<Rightarrow> None | Some m \<Rightarrow> walk qs m)"
  by (induction ps arbitrary: n) (auto split: option.split)

lemma info_append: "walk ps n = Some m \<Longrightarrow> info_at n (ps @ qs) = info_at m qs"
  by (simp add: info_at_def walk_append)

lemma resolve_normalize: "resolve root (normalize_path p) = walk (path_parts p) root"
  using normalize_empty [of p] split_normalize [of p]
  by (cases "path_parts p = []") (simp_all add: resolve_def)

lemma resolve_join: "\<forall>w \<in> set ps. part_ok w \<Longrightarrow> resolve root (py_join [SLASH] ps) = walk ps root"
proof (cases "ps = []")
  case False
  assume ok: "\<forall>w \<in> set ps. part_ok w"
  then have "py_join [SLASH] ps \<noteq> []"
    using False join_Nil [of "[SLASH]" ps] by (auto simp: part_ok_def)
  moreover have "py_split SLASH (py_join [SLASH] ps) = ps"
    using False ok by (intro py_split_join) (auto simp: part_ok_def)
  ultimately show ?thesis by (simp add: resolve_def)
qed (simp add: resolve_def)

text \<open>
  How a provider puts a node under its name: in place of the old child (a dictionary), or after removing
  that (a list).
\<close>

definition replace_child :: "'c fnode \<Rightarrow> 'c fnode \<Rightarrow> 'c fnode" where
  "replace_child c n = add_child c (remove_child (node_name c) n)"

definition places :: "'c fnode \<Rightarrow> ('c fnode \<Rightarrow> 'c fnode) \<Rightarrow> bool" where
  "places c f \<longleftrightarrow> (\<forall>x. node_meta (f x) = node_meta x \<and> node_content (f x) = node_content x
     \<and> (\<forall>q. get_child q (f x) = (if q = node_name c then Some c else get_child q x)))"

lemma places_put [simp]: "places c (put_child c)"
  by (simp add: places_def get_put_child)

lemma places_replace [simp]: "places c (replace_child c)"
  by (auto simp: places_def replace_child_def get_add_child get_remove_child split: option.split)

lemma places_same: "places c f \<Longrightarrow> node_meta (f x) = node_meta x \<and> node_content (f x) = node_content x"
  by (simp add: places_def)

lemma put_info:
  "places c f \<Longrightarrow> is_dir m \<Longrightarrow>
     info_at (f m) (q # qs) = (if q = node_name c then info_at c qs else info_at m (q # qs))"
  by (auto simp: info_Cons places_def is_dir_def)

lemma remove_info:
  "is_dir m \<Longrightarrow> info_at (remove_child p m) (q # qs) = (if q = p then None else info_at m (q # qs))"
  by (simp add: info_Cons get_remove_child)

lemma prefix_snoc_split: "prefix ps qs \<Longrightarrow> \<exists>rest. qs = ps @ rest"
  by (auto simp: prefix_def)

lemma place_info:
  assumes "walk dirs n = Some m" "is_dir m" and f: "places c f"
  shows "info_at (update_at dirs f n) qs =
    (if prefix (dirs @ [node_name c]) qs then info_at c (drop (Suc (length dirs)) qs) else info_at n qs)"
proof (cases "prefix dirs qs")
  case True
  then obtain rest where qs: "qs = dirs @ rest" by (auto simp: prefix_def)
  show ?thesis
    using update_at_info [OF assms(1) places_same [OF f], of qs] assms(2) info_append [OF assms(1), of "[]"]
      places_same [OF f, of m]
    by (cases rest) (auto simp: qs info_append [OF assms(1)] put_info [OF f])
next
  case False
  then have "\<not> prefix (dirs @ [node_name c]) qs" using append_prefixD by blast
  with False show ?thesis using update_at_info [OF assms(1) places_same [OF f], of qs] by simp
qed

lemma unplace_info:
  assumes "walk dirs n = Some m" "is_dir m"
  shows "info_at (update_at dirs (remove_child p) n) qs =
    (if prefix (dirs @ [p]) qs then None else info_at n qs)"
proof (cases "prefix dirs qs")
  case True
  then obtain rest where qs: "qs = dirs @ rest" by (auto simp: prefix_def)
  show ?thesis
    using update_at_info [OF assms(1), of "remove_child p" qs] assms(2) info_append [OF assms(1), of "[]"]
    by (cases rest) (auto simp: qs info_append [OF assms(1)] remove_info)
next
  case False
  then have "\<not> prefix (dirs @ [p]) qs" using append_prefixD by blast
  with False show ?thesis using update_at_info [OF assms(1), of "remove_child p" qs] by simp
qed

lemma info_dir_node: "info_at n ps = Some (m, c) \<Longrightarrow> \<exists>x. walk ps n = Some x \<and> node_meta x = m \<and> node_content x = c"
  by (auto simp: info_at_def)

lemma new_dir_type [simp]: "fm_type (node_meta (new_dir b now p)) = ''directory''"
  by (simp add: new_dir_def make_node_def)

text \<open>Making the parents of a place changes no file and adds the directories on the way.\<close>

lemma ensure_parents_files:
  assumes "ensure_parents b cr now path ps n = Inr n'" "is_dir n"
  shows "files_at n' = files_at n" "dir_at n' qs \<longleftrightarrow> dir_at n qs \<or> (info_at n qs = None \<and> prefix qs ps)"
  using ensure_parents_info [OF assms]
  by (auto simp: fun_eq_iff files_at_def dir_at_def split: option.splits)

text \<open>A place in the tree: its parents are there (made if necessary) and it holds the given node.\<close>

lemma place_files:
  assumes ens: "ensure_parents b cr now path dirs root = Inr root1" and dir: "is_dir root" and f: "places c f"
  shows "files_at (update_at dirs f root1) qs =
      (if prefix (dirs @ [node_name c]) qs then files_at c (drop (Suc (length dirs)) qs) else files_at root qs)"
    and "dir_at (update_at dirs f root1) qs =
      (if prefix (dirs @ [node_name c]) qs then dir_at c (drop (Suc (length dirs)) qs)
       else dir_at root qs \<or> (info_at root qs = None \<and> prefix qs dirs))"
    and "is_dir (update_at dirs f root1)"
proof -
  obtain m where m: "walk dirs root1 = Some m" "is_dir m"
    using ensure_parents_walk [OF ens dir] by blast
  note i = place_info [OF m f]
  show "files_at (update_at dirs f root1) qs =
      (if prefix (dirs @ [node_name c]) qs then files_at c (drop (Suc (length dirs)) qs) else files_at root qs)"
    using ensure_parents_files(1) [OF ens dir] by (simp add: files_at_def i fun_eq_iff)
  show "dir_at (update_at dirs f root1) qs =
      (if prefix (dirs @ [node_name c]) qs then dir_at c (drop (Suc (length dirs)) qs)
       else dir_at root qs \<or> (info_at root qs = None \<and> prefix qs dirs))"
    using ensure_parents_files(2) [OF ens dir, of qs] by (simp add: dir_at_def i)
  have "node_meta (update_at dirs f root1) = node_meta root1"
    using update_at_meta [OF places_same [OF f], of dirs root1] by simp
  then show "is_dir (update_at dirs f root1)"
    using ensure_parents_dir [OF ens] dir by (simp add: is_dir_def)
qed

lemma files_below_file:
  "\<not> is_dir n \<Longrightarrow> files_at n qs = (if qs = [] then Some (node_content n) else None)"
  by (cases qs) (simp_all add: files_at_def info_Cons is_dir_def)

lemma files_walk: "walk ps n = Some m \<Longrightarrow> files_at n (ps @ qs) = files_at m qs"
  by (simp add: files_at_def info_append)

lemma files_new_dir [simp]: "files_at (new_dir b now p) qs = None"
  by (cases qs) (simp_all add: files_at_def info_Cons)

lemma files_none: "walk ps n = None \<Longrightarrow> files_at n (ps @ qs) = None"
  by (simp add: files_at_def info_at_def walk_append)

lemma walk_snoc: "walk (ps @ [p]) n = (case walk ps n of None \<Rightarrow> None | Some m \<Rightarrow> if is_dir m then get_child p m else None)"
  by (simp add: walk_append split: option.split)

section \<open>Well-formed trees\<close>

text \<open>Only directories have children.\<close>

fun tree_ok :: "'c fnode \<Rightarrow> bool" where
  "tree_ok (FNode m c cs) = ((fm_type m \<noteq> ''directory'' \<longrightarrow> cs = []) \<and> list_all tree_ok cs)"

lemma tree_ok_iff: "tree_ok n \<longleftrightarrow> (\<not> is_dir n \<longrightarrow> node_children n = []) \<and> (\<forall>c \<in> set (node_children n). tree_ok c)"
  by (cases n) (simp add: is_dir_def list_all_iff)

lemma tree_ok_child: "tree_ok n \<Longrightarrow> get_child p n = Some c \<Longrightarrow> tree_ok c \<and> is_dir n"
proof -
  assume n: "tree_ok n" and c: "get_child p n = Some c"
  then have "c \<in> set (node_children n)" by (auto simp: get_child_def find_Some_iff)
  with n show ?thesis by (cases "node_children n") (auto simp: tree_ok_iff [of n])
qed

lemma tree_ok_make [simp]: "tree_ok (make_node now p ty c t1 t2 k)"
  by (simp add: make_node_def)

lemma tree_ok_new_dir [simp]: "tree_ok (new_dir b now p)"
  by (simp add: new_dir_def)

lemma node_children_simps:
  "node_children (put_child c n) = put_in c (node_children n)"
  "node_children (add_child c n) = node_children n @ [c]"
  "node_children (remove_child p n) = filter (\<lambda>x. node_name x \<noteq> p) (node_children n)"
  by (simp_all add: put_child_def add_child_def remove_child_def)

lemma put_in_set: "set (put_in c xs) \<subseteq> insert c (set xs)"
  by (induction xs) auto

lemma tree_ok_put: "tree_ok n \<Longrightarrow> is_dir n \<Longrightarrow> tree_ok c \<Longrightarrow> tree_ok (put_child c n)"
  using put_in_set [of c "node_children n"]
  by (auto simp: tree_ok_iff [of n] tree_ok_iff [of "put_child c n"] node_children_simps)

lemma tree_ok_add: "tree_ok n \<Longrightarrow> is_dir n \<Longrightarrow> tree_ok c \<Longrightarrow> tree_ok (add_child c n)"
  by (auto simp: tree_ok_iff [of n] tree_ok_iff [of "add_child c n"] node_children_simps)

lemma tree_ok_remove: "tree_ok n \<Longrightarrow> tree_ok (remove_child p n)"
  by (auto simp: tree_ok_iff [of n] tree_ok_iff [of "remove_child p n"] node_children_simps)

lemma tree_ok_ensure:
  "tree_ok n \<Longrightarrow> is_dir n \<Longrightarrow> ensure_parents b cr now path ps n = Inr n' \<Longrightarrow> tree_ok n'"
proof (induction ps arbitrary: n n')
  case (Cons p ps)
  let ?c = "case get_child p n of None \<Rightarrow> new_dir b now p | Some c \<Rightarrow> c"
  obtain c' where c': "ensure_parents b cr now path ps ?c = Inr c'" "n' = put_child c' n" "is_dir ?c"
    using Cons.prems(3) by (auto split: option.splits if_splits sum.splits)
  have "tree_ok ?c" using tree_ok_child [OF Cons.prems(1), of p] by (auto split: option.split)
  with Cons.IH [OF this c'(3,1)] c'(2) Cons.prems(1,2) show ?case by (simp add: tree_ok_put)
qed simp

lemma tree_ok_update:
  "tree_ok n \<Longrightarrow> walk ps n = Some m \<Longrightarrow> tree_ok (f m) \<Longrightarrow> tree_ok (update_at ps f n)"
proof (induction ps arbitrary: n)
  case (Cons p ps)
  then obtain c where c: "is_dir n" "get_child p n = Some c" "walk ps c = Some m"
    by (auto split: if_splits option.splits)
  with Cons.IH [of c] tree_ok_child [OF Cons.prems(1) c(2)] Cons.prems show ?case
    by (simp add: tree_ok_put)
qed simp

lemma deep_copy_children:
  "node_children (deep_copy now n name) = map (\<lambda>x. deep_copy now x (node_name x)) (node_children n)"
  by (cases n) simp

lemma tree_ok_copy: "tree_ok n \<Longrightarrow> tree_ok (deep_copy now n name)"
proof (induction n arbitrary: name)
  case (FNode m c cs)
  then have "\<forall>x \<in> set cs. tree_ok (deep_copy now x (node_name x))" by (simp add: list_all_iff)
  with FNode.prems show ?case
    unfolding tree_ok_iff [of "deep_copy now (FNode m c cs) name"] deep_copy_children deep_copy_simps
    by (simp add: is_dir_def)
qed

lemma tree_ok_walk: "tree_ok n \<Longrightarrow> walk ps n = Some m \<Longrightarrow> tree_ok m"
  by (induction ps arbitrary: n) (auto dest: tree_ok_child split: if_splits option.splits)

end
