(* ===== verification/TreeOps.thy ===== *)
theory TreeOps
  imports FileTree
begin

text \<open>
  The changes of a file tree that the providers share, in the form their proofs need, and their effect
  on the files at every path.  \<open>MemFiles\<close> and \<open>JsonFiles\<close> translate the two providers as they are
  written and show that their operations are these.
\<close>

section \<open>Splitting a path\<close>

lemma parts_split:
  assumes "normalize_path path \<noteq> []"
  shows "py_split SLASH (normalize_path path) = path_parts path"
    "butlast (path_parts path) @ [last (path_parts path)] = path_parts path"
    "\<forall>w \<in> set (butlast (path_parts path)). part_ok w"
  using assms split_normalize [of path] normalize_empty [of path] path_parts_ok [of _ path]
  by (auto dest: in_set_butlastD)

lemma resolve_parent: "resolve root (py_join [SLASH] (butlast (path_parts path))) = walk (butlast (path_parts path)) root"
  by (rule resolve_join) (auto dest: in_set_butlastD path_parts_ok)

section \<open>The shared operations\<close>

definition rewritten :: "string \<Rightarrow> 'c \<Rightarrow> nat \<Rightarrow> 'c fnode \<Rightarrow> 'c fnode" where
  "rewritten now content sz n =
     FNode ((node_meta n)\<lparr>fm_size := sz, fm_modified := now\<rparr>) content (node_children n)"

definition tree_store ::
    "'c \<Rightarrow> string \<Rightarrow> string \<Rightarrow> 'c \<Rightarrow> nat \<Rightarrow> (fs_error, unit, 'c fnode) act" where
  "tree_store blank now path content sz root =
     (let parts = path_parts path; dirs = butlast parts; p = last parts
      in if parts = [] then (Inl (Fs_is_a_directory path), root)
         else case ensure_parents blank True now path dirs root of
                Inl e \<Rightarrow> (Inl e, root)
              | Inr root1 \<Rightarrow>
                  (case get_child p (the (walk dirs root1)) of
                     Some x \<Rightarrow>
                       if is_dir x then (Inl (Fs_is_a_directory path), root1)
                       else (Inr (), update_at dirs (put_child (rewritten now content sz x)) root1)
                   | None \<Rightarrow>
                       (Inr (), update_at dirs (put_child (make_node now p ''file'' content now now sz)) root1)))"

definition tree_mkdir :: "'c \<Rightarrow> string \<Rightarrow> string \<Rightarrow> bool \<Rightarrow> (fs_error, unit, 'c fnode) act" where
  "tree_mkdir blank now path recursive root =
     (let parts = path_parts path; dirs = butlast parts; p = last parts
      in if parts = [] then (Inr (), root)
         else if recursive then
           (case ensure_parents blank True now path parts root of
              Inl e \<Rightarrow> (Inl e, root) | Inr root1 \<Rightarrow> (Inr (), root1))
         else
           (case ensure_parents blank False now path dirs root of
              Inl e \<Rightarrow> (Inl e, root)
            | Inr root1 \<Rightarrow>
                (case get_child p (the (walk dirs root1)) of
                   Some x \<Rightarrow> if \<not> is_dir x then (Inl (Fs_exists path), root1) else (Inr (), root1)
                 | None \<Rightarrow> (Inr (), update_at dirs (put_child (new_dir blank now p)) root1))))"

definition tree_remove :: "fs_error \<Rightarrow> string \<Rightarrow> bool \<Rightarrow> (fs_error, unit, 'c fnode) act" where
  "tree_remove at_root path recursive root =
     (let parts = path_parts path; dirs = butlast parts; p = last parts
      in if parts = [] then (Inl at_root, root)
         else case Option.bind (walk dirs root) (get_child p) of
                None \<Rightarrow> (Inl (Fs_not_found path), root)
              | Some n \<Rightarrow>
                  if is_dir n \<and> node_children n \<noteq> [] \<and> \<not> recursive
                  then (Inl (Fs_not_a_directory path), root)
                  else (Inr (), update_at dirs (remove_child p) root))"

text \<open>
  The node to copy is held by reference, so it includes the parents made for the destination; a provider
  that \<open>clears\<close> the destination before it copies does not see the old destination in the source.
\<close>

definition copied_node :: "bool \<Rightarrow> string list \<Rightarrow> string list \<Rightarrow> 'c fnode \<Rightarrow> 'c fnode" where
  "copied_node clears sparts parts root1 =
     the (walk sparts (if clears \<and> prefix sparts (butlast parts)
                       then update_at (butlast parts) (remove_child (last parts)) root1 else root1))"

definition tree_copy ::
    "bool \<Rightarrow> 'c \<Rightarrow> string \<Rightarrow> string \<Rightarrow> string \<Rightarrow> (fs_error, unit, 'c fnode) act" where
  "tree_copy clears blank now src dest root =
     (let sparts = path_parts src; parts = path_parts dest; dirs = butlast parts
      in case walk sparts root of
           None \<Rightarrow> (Inl (Fs_not_found src), root)
         | Some _ \<Rightarrow>
             if parts = [] then (Inl (Fs_is_a_directory dest), root)
             else (case ensure_parents blank True now dest dirs root of
                     Inl e \<Rightarrow> (Inl e, root)
                   | Inr root1 \<Rightarrow>
                       (let c = deep_copy now (copied_node clears sparts parts root1) (last parts)
                        in (Inr (), update_at dirs (if clears then replace_child c else put_child c) root1))))"

text \<open>\<open>strict\<close>: the old place must still be there when it is removed.\<close>

definition tree_move ::
    "fs_error \<Rightarrow> bool \<Rightarrow> bool \<Rightarrow> 'c \<Rightarrow> string \<Rightarrow> string \<Rightarrow> string \<Rightarrow> (fs_error, unit, 'c fnode) act" where
  "tree_move at_root strict clears blank now src dest root =
     (let sparts = path_parts src
      in if sparts = [] then (Inl at_root, root)
         else case tree_copy clears blank now src dest root of
                (Inl e, root1) \<Rightarrow> (Inl e, root1)
              | (Inr _, root2) \<Rightarrow>
                  (case walk (butlast sparts) root2 of
                     None \<Rightarrow> (Inr (), root2)
                   | Some src_parent \<Rightarrow>
                       if strict \<and> get_child (last sparts) src_parent = None
                       then (Inl (Fs_key_error (last sparts)), root2)
                       else (Inr (), update_at (butlast sparts) (remove_child (last sparts)) root2)))"

section \<open>Storing a file and making a directory\<close>

lemma rewritten_simps [simp]:
  "node_name (rewritten now c k n) = node_name n" "is_dir (rewritten now c k n) = is_dir n"
  "node_content (rewritten now c k n) = c" "tree_ok (rewritten now c k n) = tree_ok n"
  by (simp_all add: rewritten_def node_name_def is_dir_def tree_ok_iff [of n] list_all_iff)

lemma make_file_simps [simp]:
  "node_name (make_node now p ty c t1 t2 k) = p" "is_dir (make_node now p ty c t1 t2 k) \<longleftrightarrow> ty = ''directory''"
  "node_content (make_node now p ty c t1 t2 k) = c"
  by (simp_all add: make_node_def node_name_def is_dir_def)

lemma parts_snoc: "path_parts path \<noteq> [] \<Longrightarrow> butlast (path_parts path) @ [last (path_parts path)] = path_parts path"
  by simp

lemma store_file:
  assumes dir: "is_dir root" and ens: "ensure_parents b cr now path dirs root = Inr root1"
    and c: "node_name c = p" "\<not> is_dir c"
    and old: "\<And>x. get_child p (the (walk dirs root1)) = Some x \<Longrightarrow> \<not> is_dir x"
  shows "files_at (update_at dirs (put_child c) root1) = (files_at root)(dirs @ [p] \<mapsto> node_content c)"
proof
  fix qs
  obtain m where m: "walk dirs root1 = Some m" "is_dir m"
    using ensure_parents_walk [OF ens dir] by blast
  note placed = place_files(1) [OF ens dir places_put, of c qs]
  have below: "files_at root1 (dirs @ p # rest) = None" if "rest \<noteq> []" for rest
    using old that files_walk [OF m(1), of "p # rest"] m
    by (cases "get_child p m") (auto simp: files_at_def info_Cons neq_Nil_conv)
  show "files_at (update_at dirs (put_child c) root1) qs = ((files_at root)(dirs @ [p] \<mapsto> node_content c)) qs"
  proof (cases "prefix (dirs @ [p]) qs")
    case True
    then obtain rest where "qs = dirs @ p # rest" by (auto simp: prefix_def)
    with below [of rest] show ?thesis
      using placed c ensure_parents_files(1) [OF ens dir]
      by (cases rest) (auto simp: files_below_file)
  next
    case False
    then show ?thesis using placed c by auto
  qed
qed

text \<open>Placing a sound node keeps the tree sound.\<close>

lemma place_ok:
  assumes "is_dir root" "tree_ok root" "ensure_parents b cr now path dirs root = Inr root1"
    and "tree_ok c" "f = put_child c \<or> f = replace_child c"
  shows "is_dir (update_at dirs f root1) \<and> tree_ok (update_at dirs f root1)"
proof -
  obtain m where m: "walk dirs root1 = Some m" "is_dir m"
    using ensure_parents_walk [OF assms(3,1)] by blast
  have "tree_ok (f x)" if "tree_ok x" "is_dir x" for x
    using assms(4,5) that by (auto simp: tree_ok_put tree_ok_add tree_ok_remove replace_child_def)
  then have "tree_ok (update_at dirs f root1)"
    using tree_ok_update [OF tree_ok_ensure [OF assms(2,1,3)] m(1), of f] tree_ok_walk [OF _ m(1)] m(2)
      tree_ok_ensure [OF assms(2,1,3)] by blast
  moreover have "places c f" using assms(5) by auto
  ultimately show ?thesis using place_files(3) [OF assms(3,1)] by blast
qed

definition sound_tree :: "'c fnode \<Rightarrow> bool" where
  "sound_tree root \<longleftrightarrow> is_dir root \<and> tree_ok root"

lemma ensure_sound:
  assumes "sound_tree root" "ensure_parents b cr now path dirs root = Inr root1"
  shows "sound_tree root1 \<and> files_at root1 = files_at root"
  using assms ensure_parents_dir tree_ok_ensure ensure_parents_files(1) unfolding sound_tree_def by metis

lemma store_effect:
  assumes ok: "sound_tree root" and w: "tree_store b now path c k root = (r, root')"
  shows "sound_tree root' \<and> files_at root' = (if r = Inr () then (files_at root)(path_parts path \<mapsto> c) else files_at root)"
proof (cases "path_parts path = []")
  case True
  with w ok show ?thesis by (auto simp: tree_store_def Let_def)
next
  case False
  let ?dirs = "butlast (path_parts path)" and ?p = "last (path_parts path)"
  show ?thesis
  proof (cases "ensure_parents b True now path ?dirs root")
    case (Inl e)
    with w ok False show ?thesis by (auto simp: tree_store_def Let_def)
  next
    case (Inr root1)
    obtain m where m: "walk ?dirs root1 = Some m" "is_dir m"
      using ensure_parents_walk [OF Inr] ok by (auto simp: sound_tree_def)
    have "tree_ok m" using tree_ok_walk [OF _ m(1)] ensure_sound [OF ok Inr] by (simp add: sound_tree_def)
    note child = tree_ok_child [OF this, of ?p]
    have stored: "sound_tree root' \<and> files_at root' = (files_at root)(path_parts path \<mapsto> c)"
      if "root' = update_at ?dirs (put_child n) root1" "node_name n = ?p" "\<not> is_dir n" "node_content n = c" "tree_ok n"
        "\<And>x. get_child ?p m = Some x \<Longrightarrow> \<not> is_dir x" for n
      using that store_file [OF _ Inr, of n ?p] place_ok [OF _ _ Inr, of n "put_child n"] ok m False
      by (simp add: sound_tree_def)
    show ?thesis
    proof (cases "get_child ?p m")
      case None
      with w False Inr m stored [of "make_node now ?p ''file'' c now now k"] show ?thesis
        by (simp add: tree_store_def Let_def)
    next
      case (Some x)
      with w False Inr m stored [of "rewritten now c k x"] child get_child_name [OF Some] ensure_sound [OF ok Inr]
      show ?thesis by (cases "is_dir x") (auto simp: tree_store_def Let_def)
    qed
  qed
qed

lemma dir_at_walk: "walk ps n = Some m \<Longrightarrow> dir_at n ps = is_dir m"
  by (simp add: dir_at_def info_at_def is_dir_def)

lemma mkdir_effect:
  assumes ok: "sound_tree root" and w: "tree_mkdir b now path recursive root = (r, root')"
  shows "sound_tree root' \<and> files_at root' = files_at root \<and> (r = Inr () \<longrightarrow> dir_at root' (path_parts path))"
proof (cases "path_parts path = []")
  case True
  with w ok show ?thesis by (auto simp: tree_mkdir_def Let_def dir_at_walk sound_tree_def)
next
  case False
  let ?dirs = "butlast (path_parts path)" and ?p = "last (path_parts path)"
  define ps cr where "ps = (if recursive then path_parts path else ?dirs)" and "cr = recursive"
  show ?thesis
  proof (cases "ensure_parents b cr now path ps root")
    case (Inl e)
    with w ok False show ?thesis by (auto simp: tree_mkdir_def Let_def ps_def cr_def split: if_splits)
  next
    case (Inr root1)
    note ens = ensure_sound [OF ok Inr]
    obtain m where m: "walk ps root1 = Some m" "is_dir m"
      using ensure_parents_walk [OF Inr] ok by (auto simp: sound_tree_def)
    consider "recursive" | x where "\<not> recursive" "get_child ?p m = Some x" | "\<not> recursive" "get_child ?p m = None"
      by blast
    then show ?thesis
    proof cases
      case 1
      with w False Inr m ens show ?thesis by (auto simp: tree_mkdir_def Let_def ps_def cr_def dir_at_walk)
    next
      case 2
      then have "walk (path_parts path) root1 = Some x"
        using m walk_snoc [of ?dirs ?p root1] False by (simp add: ps_def)
      with 2 w False Inr m ens show ?thesis
        by (auto simp: tree_mkdir_def Let_def ps_def cr_def dir_at_walk split: if_splits)
    next
      case 3
      let ?c = "new_dir b now ?p"
      have eq: "r = Inr ()" "root' = update_at ?dirs (put_child ?c) root1"
        using 3 w False Inr m by (simp_all add: tree_mkdir_def Let_def ps_def cr_def)
      have "files_at root1 (?dirs @ ?p # rest) = None" for rest
        using files_walk [of ?dirs root1 m "?p # rest"] 3 m by (simp add: files_at_def info_Cons ps_def)
      then have "files_at root (path_parts path @ rest) = None" for rest
        using ens parts_snoc [OF False] by (metis append_Cons append_Nil append_assoc)
      then have "files_at root' = files_at root"
        using place_files(1) [OF Inr _ places_put, of ?c] 3 ok False eq(2)
        by (auto simp: fun_eq_iff prefix_def sound_tree_def ps_def)
      moreover have "dir_at root' (path_parts path)"
        using place_files(2) [OF Inr _ places_put, of ?c "path_parts path"] 3 ok False eq(2)
        by (simp add: sound_tree_def ps_def dir_at_def)
      ultimately show ?thesis
        using place_ok [OF _ _ Inr, of ?c "put_child ?c"] 3 ok eq by (simp add: sound_tree_def ps_def)
    qed
  qed
qed

section \<open>Removing, copying and moving\<close>

lemma remove_at_sound:
  assumes ok: "sound_tree root" and m: "walk dirs root = Some m"
  shows "sound_tree (update_at dirs (remove_child p) root)"
    and "files_at (update_at dirs (remove_child p) root) = (\<lambda>qs. if prefix (dirs @ [p]) qs then None else files_at root qs)"
proof -
  have "tree_ok m" using ok tree_ok_walk [OF _ m] by (simp add: sound_tree_def)
  then have "tree_ok (update_at dirs (remove_child p) root)"
    using ok tree_ok_update [OF _ m, of "remove_child p"] by (simp add: sound_tree_def tree_ok_remove)
  then show "sound_tree (update_at dirs (remove_child p) root)"
    using ok update_at_meta [of "remove_child p" dirs root] by (simp add: sound_tree_def is_dir_def)
  have "info_at (update_at dirs (remove_child p) root) qs = (if prefix (dirs @ [p]) qs then None else info_at root qs)" for qs
  proof (cases "is_dir m")
    case True
    then show ?thesis by (rule unplace_info [OF m])
  next
    case False
    then have "info_at (remove_child p m) rest = info_at m rest" "info_at m (q # rest) = None" for q rest
      by (cases rest; simp add: info_Cons)+
    then show ?thesis
      using update_at_info [OF m, of "remove_child p" qs] info_append [OF m]
      by (auto simp: prefix_def)
  qed
  then show "files_at (update_at dirs (remove_child p) root) = (\<lambda>qs. if prefix (dirs @ [p]) qs then None else files_at root qs)"
    by (auto simp: files_at_def)
qed

lemma sound_child:
  assumes "sound_tree root" "walk dirs root = Some m" "get_child p m = Some x"
  shows "is_dir m" "walk (dirs @ [p]) root = Some x" "tree_ok x"
  using assms tree_ok_child [OF tree_ok_walk [OF _ assms(2)] assms(3)] by (simp_all add: sound_tree_def walk_snoc)

lemma remove_effect:
  assumes ok: "sound_tree root" and w: "tree_remove e path recursive root = (r, root')"
  shows "sound_tree root' \<and> (r \<noteq> Inr () \<longrightarrow> root' = root)
    \<and> (r = Inr () \<longrightarrow> files_at root' = (\<lambda>qs. if prefix (path_parts path) qs then None else files_at root qs)
         \<and> (\<not> recursive \<longrightarrow> (\<forall>qs. strict_prefix (path_parts path) qs \<longrightarrow> files_at root qs = None)))"
proof (cases "r = Inr ()")
  case False
  with w ok show ?thesis by (auto simp: tree_remove_def Let_def split: option.splits if_splits)
next
  case True
  let ?dirs = "butlast (path_parts path)" and ?p = "last (path_parts path)"
  from True w obtain m x where ne: "path_parts path \<noteq> []" and m: "walk ?dirs root = Some m" and x: "get_child ?p m = Some x"
    and r: "root' = update_at ?dirs (remove_child ?p) root" and nr: "is_dir x \<and> node_children x \<noteq> [] \<longrightarrow> recursive"
    by (auto simp: tree_remove_def Let_def bind_eq_Some_conv split: option.splits if_splits)
  note c = sound_child [OF ok m x]
  have "files_at root qs = None" if rec: "\<not> recursive" and sub: "strict_prefix (path_parts path) qs" for qs
  proof -
    obtain q rest where "qs = (?dirs @ [?p]) @ q # rest"
      using sub ne by (auto elim!: strict_prefixE')
    moreover have "node_children x = []" using nr rec c(3) by (auto simp: tree_ok_iff [of x])
    ultimately show ?thesis
      using files_walk [OF c(2), of "q # rest"] by (simp add: files_at_def info_Cons get_child_def)
  qed
  with True remove_at_sound [OF ok m, of ?p] r ne show ?thesis by simp
qed

lemma copied_node_files:
  fixes clears :: bool
  assumes ok: "sound_tree root" and ens: "ensure_parents b True now dest (butlast parts) root = Inr root1"
    and s: "walk sparts root = Some s" and ne: "parts \<noteq> []"
  defines "n \<equiv> copied_node clears sparts parts root1"
  shows "tree_ok n" and "files_at n rest =
    (if clears \<and> strict_prefix sparts parts \<and> prefix parts (sparts @ rest) then None else files_at root (sparts @ rest))"
proof -
  let ?dirs = "butlast parts" and ?p = "last parts"
  let ?root = "if clears \<and> prefix sparts ?dirs then update_at ?dirs (remove_child ?p) root1 else root1"
  note ens1 = ensure_sound [OF ok ens]
  obtain m where m: "walk ?dirs root1 = Some m" "is_dir m"
    using ensure_parents_walk [OF ens] ok by (auto simp: sound_tree_def)
  have pre: "strict_prefix sparts parts \<longleftrightarrow> prefix sparts ?dirs"
    using ne prefix_snoc [of sparts ?dirs ?p] prefix_length_le [of parts ?dirs]
    by (cases parts rule: rev_cases) (auto simp: strict_prefix_def)
  have "info_at root1 sparts \<noteq> None"
    using ensure_parents_info [OF ens, of sparts] ok s by (auto simp: sound_tree_def info_at_def)
  moreover have "\<not> prefix parts sparts" if "prefix sparts ?dirs"
    using that pre by (auto dest: prefix_order.antisym)
  ultimately have "info_at ?root sparts \<noteq> None"
    using unplace_info [OF m, of ?p sparts] ne by auto
  then obtain x where x: "walk sparts ?root = Some x" by (auto simp: info_at_def)
  have root: "sound_tree ?root" "files_at ?root = (\<lambda>qs. if clears \<and> strict_prefix sparts parts \<and> prefix parts qs then None else files_at root qs)"
    using remove_at_sound [OF conjunct1 [OF ens1] m(1), of ?p] ens1 ne pre by (auto simp: fun_eq_iff)
  have n: "n = x" using x by (simp add: n_def copied_node_def)
  show "tree_ok n" using tree_ok_walk [OF _ x] root(1) n by (simp add: sound_tree_def)
  show "files_at n rest =
    (if clears \<and> strict_prefix sparts parts \<and> prefix parts (sparts @ rest) then None else files_at root (sparts @ rest))"
    using files_walk [OF x, of rest] root(2) n by simp
qed

text \<open>What is at a path after a copy.\<close>

definition copied_files :: "bool \<Rightarrow> string list \<Rightarrow> string list \<Rightarrow> (string list \<Rightarrow> 'c option) \<Rightarrow> string list \<Rightarrow> 'c option" where
  "copied_files clears sparts parts files qs =
     (if prefix parts qs
      then (let q = sparts @ drop (length parts) qs
            in if clears \<and> strict_prefix sparts parts \<and> prefix parts q then None else files q)
      else files qs)"

lemma copy_effect:
  assumes ok: "sound_tree root" and w: "tree_copy clears b now src dest root = (r, root')"
  shows "sound_tree root' \<and> (r \<noteq> Inr () \<longrightarrow> root' = root)
    \<and> (r = Inr () \<longrightarrow> path_parts dest \<noteq> [] \<and> files_at root' = copied_files clears (path_parts src) (path_parts dest) (files_at root)
         \<and> (\<not> strict_prefix (path_parts dest) (path_parts src) \<longrightarrow> walk (path_parts src) root' \<noteq> None))"
proof (cases "r = Inr ()")
  case False
  with w ok show ?thesis by (auto simp: tree_copy_def Let_def split: option.splits if_splits sum.splits)
next
  case True
  let ?s = "path_parts src" and ?d = "path_parts dest"
  from True w obtain s root1 where s: "walk ?s root = Some s" and ne: "?d \<noteq> []"
    and ens: "ensure_parents b True now dest (butlast ?d) root = Inr root1"
    and r: "root' = (let c = deep_copy now (copied_node clears ?s ?d root1) (last ?d)
                     in update_at (butlast ?d) (if clears then replace_child c else put_child c) root1)"
    by (auto simp: tree_copy_def Let_def split: option.splits if_splits sum.splits)
  define c where "c = deep_copy now (copied_node clears ?s ?d root1) (last ?d)"
  define f where "f = (if clears then replace_child c else put_child c)"
  note cn = copied_node_files [OF ok ens s ne, of clears]
  have f: "places c f" "f = put_child c \<or> f = replace_child c" by (simp_all add: f_def)
  have len: "Suc (length (butlast ?d)) = length ?d" using ne by simp
  have name: "butlast ?d @ [node_name c] = ?d" using ne by (simp add: c_def)
  have "tree_ok c" using cn(1) by (simp add: c_def tree_ok_copy)
  then have "sound_tree (update_at (butlast ?d) f root1)"
    using place_ok [OF _ _ ens _ f(2)] ok by (simp add: sound_tree_def)
  moreover have "files_at c rest =
      (if clears \<and> strict_prefix ?s ?d \<and> prefix ?d (?s @ rest) then None else files_at root (?s @ rest))" for rest
    by (simp add: c_def deep_copy_files cn(2))
  then have "files_at (update_at (butlast ?d) f root1) = copied_files clears ?s ?d (files_at root)"
    using place_files(1) [OF ens _ f(1)] ok unfolding name len
    by (auto simp: fun_eq_iff copied_files_def sound_tree_def Let_def)
  moreover have "walk ?s (update_at (butlast ?d) f root1) \<noteq> None" if "\<not> strict_prefix ?d ?s"
  proof -
    obtain m where m: "walk (butlast ?d) root1 = Some m" "is_dir m"
      using ensure_parents_walk [OF ens] ok by (auto simp: sound_tree_def)
    have "info_at root1 ?s \<noteq> None"
      using ensure_parents_info [OF ens, of ?s] ok s by (auto simp: sound_tree_def info_at_def)
    then have "info_at (update_at (butlast ?d) f root1) ?s \<noteq> None"
      using place_info [OF m f(1), of ?s] that unfolding name len by (auto simp: strict_prefix_def)
    then show ?thesis by (auto simp: info_at_def)
  qed
  moreover have "root' = update_at (butlast ?d) f root1" using r by (simp add: Let_def f_def c_def)
  ultimately show ?thesis using True ne by blast
qed

text \<open>
  A move removes everything that is at the old place after the copy: for a destination at or below the
  source that is the copy itself.  A strict provider may fail between the two steps.
\<close>

definition moved_files :: "bool \<Rightarrow> string list \<Rightarrow> string list \<Rightarrow> (string list \<Rightarrow> 'c option) \<Rightarrow> string list \<Rightarrow> 'c option" where
  "moved_files clears sparts parts files qs =
     (if prefix sparts qs then None else copied_files clears sparts parts files qs)"

definition is_key_error :: "fs_error + unit \<Rightarrow> bool" where
  "is_key_error r = (case r of Inl (Fs_key_error _) \<Rightarrow> True | _ \<Rightarrow> False)"

lemma ensure_parents_error:
  "ensure_parents b cr now path ps n = Inl e \<Longrightarrow> e = Fs_not_found path \<or> e = Fs_not_a_directory path"
  by (induction ps arbitrary: n) (auto split: option.splits if_splits sum.splits)

lemma copy_no_key_error: "tree_copy clears b now src dest root = (r, root') \<Longrightarrow> \<not> is_key_error r"
  by (auto simp: tree_copy_def Let_def is_key_error_def dest: ensure_parents_error split: option.splits if_splits sum.splits)

lemma move_effect:
  assumes ok: "sound_tree root" and e: "\<not> is_key_error (Inl e)"
    and w: "tree_move e strict clears b now src dest root = (r, root')"
  shows "sound_tree root' \<and> files_at root' =
      (if r = Inr () then moved_files clears (path_parts src) (path_parts dest) (files_at root)
       else if is_key_error r then copied_files clears (path_parts src) (path_parts dest) (files_at root)
       else files_at root)
    \<and> (r \<noteq> Inr () \<longrightarrow> \<not> is_key_error r \<longrightarrow> root' = root)"
proof -
  let ?s = "path_parts src" and ?d = "path_parts dest"
  obtain r2 root2 where copy: "tree_copy clears b now src dest root = (r2, root2)" by fastforce
  note eff = copy_effect [OF ok copy]
  consider (same) "?s = [] \<or> r2 \<noteq> Inr ()"
    | (gone) "?s \<noteq> []" "r2 = Inr ()" "walk (butlast ?s) root2 = None"
    | (key) m where "?s \<noteq> []" "r2 = Inr ()" "walk (butlast ?s) root2 = Some m" "strict" "get_child (last ?s) m = None"
    | (moved) m where "?s \<noteq> []" "r2 = Inr ()" "walk (butlast ?s) root2 = Some m" "strict \<longrightarrow> get_child (last ?s) m \<noteq> None"
    by blast
  then show ?thesis
  proof cases
    case same
    with w copy eff ok e copy_no_key_error [OF copy] show ?thesis
      by (cases r2) (auto simp: tree_move_def Let_def split: if_splits)
  next
    case gone
    then have "r = Inr ()" "root' = root2" using w copy by (simp_all add: tree_move_def Let_def)
    moreover have "files_at root2 qs = None" if pre: "prefix ?s qs" for qs
    proof -
      obtain rest where "qs = butlast ?s @ last ?s # rest"
        using pre gone(1) by (auto simp: prefix_def) (metis append_butlast_last_id append_Cons append_Nil append_assoc)
      then show ?thesis using files_none [OF gone(3)] by simp
    qed
    ultimately show ?thesis using eff gone(2) by (auto simp: fun_eq_iff moved_files_def)
  next
    case key
    then have "r = Inl (Fs_key_error (last ?s))" "root' = root2" using w copy by (simp_all add: tree_move_def Let_def)
    with eff key(2) show ?thesis by (simp add: is_key_error_def)
  next
    case moved
    then have "r = Inr ()" "root' = update_at (butlast ?s) (remove_child (last ?s)) root2"
      using w copy by (auto simp: tree_move_def Let_def split: if_splits)
    with remove_at_sound [OF _ moved(3), of "last ?s"] eff moved(1,2) show ?thesis
      by (auto simp: moved_files_def fun_eq_iff)
  qed
qed

section \<open>When the operations succeed\<close>

lemma ensure_parents_succeeds:
  "is_dir n \<Longrightarrow> (\<exists>n'. ensure_parents b True now path ps n = Inr n') \<longleftrightarrow> (\<forall>qs. prefix qs ps \<longrightarrow> files_at n qs = None)"
proof (induction ps arbitrary: n)
  case Nil
  then show ?case by (simp add: files_at_def is_dir_def)
next
  case (Cons p ps)
  let ?c = "case get_child p n of None \<Rightarrow> new_dir b now p | Some c \<Rightarrow> c"
  have "(\<exists>n'. ensure_parents b True now path (p # ps) n = Inr n') \<longleftrightarrow>
      is_dir ?c \<and> (\<exists>n'. ensure_parents b True now path ps ?c = Inr n')"
    by (auto split: option.split sum.splits)
  also have "\<dots> \<longleftrightarrow> (\<forall>qs. prefix qs ps \<longrightarrow> files_at ?c qs = None)"
  proof (cases "is_dir ?c")
    case False
    then have "\<not> (\<forall>qs. prefix qs ps \<longrightarrow> files_at ?c qs = None)"
      by (auto simp: files_below_file intro!: exI [of _ "[]"])
    with False show ?thesis by (simp only: simp_thms)
  qed (use Cons.IH [of ?c] in simp)
  also have "\<dots> \<longleftrightarrow> (\<forall>qs. prefix qs ps \<longrightarrow> files_at n (p # qs) = None)"
  proof -
    have "files_at ?c qs = files_at n (p # qs)" for qs
    proof (cases "get_child p n")
      case None
      with Cons.prems show ?thesis using files_new_dir [of b now p qs] by (simp add: files_at_def [of n] info_Cons)
    qed (use Cons.prems in \<open>simp add: files_at_def info_Cons\<close>)
    then show ?thesis by (simp only:)
  qed
  also have "\<dots> \<longleftrightarrow> (\<forall>qs. prefix qs (p # ps) \<longrightarrow> files_at n qs = None)"
  proof -
    have "files_at n [] = None" using Cons.prems by (simp add: files_at_def is_dir_def)
    then show ?thesis by (auto simp: prefix_Cons)
  qed
  finally show ?case .
qed

definition clear_way :: "'c fnode \<Rightarrow> string list \<Rightarrow> bool" where
  "clear_way root parts \<longleftrightarrow> list_all (\<lambda>i. files_at root (take i parts) = None) [0 ..< length parts]"

lemma clear_way_iff: "clear_way root parts \<longleftrightarrow> (\<forall>qs. strict_prefix qs parts \<longrightarrow> files_at root qs = None)"
proof -
  have "strict_prefix qs parts \<longleftrightarrow> (\<exists>i < length parts. qs = take i parts)" for qs
    by (metis append_eq_conv_conj order_less_imp_le prefix_def prefix_length_less strict_prefix_def take_is_prefix
        nat_less_le length_take min.absorb2)
  then show ?thesis unfolding clear_way_def list_all_iff by (metis atLeastLessThan_iff le0 set_upt)
qed

lemma clear_way_parents:
  assumes "is_dir root" "parts \<noteq> []"
  shows "(\<exists>n'. ensure_parents b True now path (butlast parts) root = Inr n') \<longleftrightarrow> clear_way root parts"
proof -
  have "strict_prefix qs parts \<longleftrightarrow> prefix qs (butlast parts)" for qs
    using assms(2) prefix_snoc [of qs "butlast parts" "last parts"] prefix_length_le [of parts "butlast parts"]
    by (cases parts rule: rev_cases) (auto simp: strict_prefix_def)
  then show ?thesis using ensure_parents_succeeds [OF assms(1)] by (simp add: clear_way_iff)
qed

lemma store_succeeds:
  assumes "sound_tree root"
  shows "fst (tree_store b now path c k root) = Inr () \<longleftrightarrow>
     path_parts path \<noteq> [] \<and> clear_way root (path_parts path) \<and> \<not> dir_at root (path_parts path)"
proof (cases "path_parts path = []")
  case False
  let ?dirs = "butlast (path_parts path)" and ?p = "last (path_parts path)"
  have dir: "is_dir root" using assms by (simp add: sound_tree_def)
  show ?thesis
  proof (cases "ensure_parents b True now path ?dirs root")
    case (Inl e)
    with False clear_way_parents [OF dir False, of b now path] show ?thesis by (simp add: tree_store_def Let_def)
  next
    case (Inr root1)
    obtain m where m: "walk ?dirs root1 = Some m" "is_dir m" using ensure_parents_walk [OF Inr dir] by blast
    have "\<not> prefix (path_parts path) ?dirs"
      using False prefix_length_le [of "path_parts path" ?dirs] by (cases "path_parts path" rule: rev_cases) auto
    then have "dir_at root (path_parts path) = dir_at root1 (path_parts path)"
      using ensure_parents_files(2) [OF Inr dir, of "path_parts path"] by simp
    also have "\<dots> = (case get_child ?p m of None \<Rightarrow> False | Some x \<Rightarrow> is_dir x)"
      using walk_snoc [of ?dirs ?p root1] m False
      by (auto simp: dir_at_def info_at_def is_dir_def split: option.split)
    finally show ?thesis
      using False Inr m clear_way_parents [OF dir False, of b now path]
      by (auto simp: tree_store_def Let_def split: option.split)
  qed
qed (simp add: tree_store_def Let_def)

lemma copy_succeeds:
  assumes "sound_tree root"
  shows "fst (tree_copy clears b now src dest root) = Inr () \<longleftrightarrow>
     walk (path_parts src) root \<noteq> None \<and> path_parts dest \<noteq> [] \<and> clear_way root (path_parts dest)"
  using assms clear_way_parents [of root "path_parts dest" b now dest]
  by (auto simp: tree_copy_def Let_def sound_tree_def split: option.split sum.split)

lemma move_succeeds:
  assumes "sound_tree root" "\<not> strict_prefix (path_parts dest) (path_parts src)"
  shows "fst (tree_move e strict clears b now src dest root) = Inr () \<longleftrightarrow>
     path_parts src \<noteq> [] \<and> walk (path_parts src) root \<noteq> None \<and> path_parts dest \<noteq> [] \<and> clear_way root (path_parts dest)"
proof -
  let ?s = "path_parts src"
  obtain r2 root2 where copy: "tree_copy clears b now src dest root = (r2, root2)" by fastforce
  have "r2 = Inr () \<longleftrightarrow> fst (tree_move e strict clears b now src dest root) = Inr ()" if ne: "?s \<noteq> []"
  proof (cases r2)
    case (Inr u)
    then have "walk ?s root2 \<noteq> None" using copy_effect [OF assms(1) copy] assms(2) by simp
    then obtain m x where "walk (butlast ?s) root2 = Some m" "get_child (last ?s) m = Some x"
      using walk_snoc [of "butlast ?s" "last ?s" root2] ne by (auto split: option.splits if_splits)
    with Inr copy ne show ?thesis by (simp add: tree_move_def Let_def)
  qed (use copy ne in \<open>simp add: tree_move_def Let_def\<close>)
  then show ?thesis
    using copy_succeeds [OF assms(1), of clears b now src dest] copy
    by (cases "?s = []") (auto simp: tree_move_def Let_def)
qed

lemma move_key_error:
  assumes "sound_tree root" "\<not> is_key_error (Inl e)"
    and "tree_move e strict clears b now src dest root = (r, root')" "is_key_error r"
  shows "strict_prefix (path_parts dest) (path_parts src)"
proof (rule ccontr)
  assume not: "\<not> strict_prefix (path_parts dest) (path_parts src)"
  let ?s = "path_parts src"
  obtain r2 root2 where copy: "tree_copy clears b now src dest root = (r2, root2)" by fastforce
  from assms(2-4) copy copy_no_key_error [OF copy] obtain m
    where m: "?s \<noteq> []" "r2 = Inr ()" "walk (butlast ?s) root2 = Some m" "get_child (last ?s) m = None"
    by (cases r2) (auto simp: tree_move_def Let_def is_key_error_def split: if_splits option.splits)
  then have "walk ?s root2 = None" using walk_snoc [of "butlast ?s" "last ?s" root2] by simp
  with copy_effect [OF assms(1) copy] m(2) not show False by simp
qed

section \<open>Failed operations leave the tree alone\<close>

lemma put_same: "get_child (node_name c) n = Some c \<Longrightarrow> put_child c n = n"
proof -
  have "List.find (\<lambda>x. node_name x = node_name c) xs = Some c \<Longrightarrow> put_in c xs = xs" for xs
    by (induction xs) (auto split: if_splits)
  then show "get_child (node_name c) n = Some c \<Longrightarrow> put_child c n = n"
    by (cases n) (simp add: get_child_def put_child_def with_children_def)
qed

lemma put_new: "get_child (node_name c) n = None \<Longrightarrow> put_child c n = add_child c n"
proof -
  have "List.find (\<lambda>x. node_name x = node_name c) xs = None \<Longrightarrow> put_in c xs = xs @ [c]" for xs
    by (induction xs) (auto split: if_splits)
  then show "get_child (node_name c) n = None \<Longrightarrow> put_child c n = add_child c n"
    by (simp add: get_child_def put_child_def add_child_def)
qed

lemma ensure_parents_present:
  "(\<not> cr \<or> walk ps n \<noteq> None) \<Longrightarrow> ensure_parents b cr now path ps n = Inr n' \<Longrightarrow> n' = n"
proof (induction ps arbitrary: n n')
  case (Cons p ps)
  then obtain c c' where c: "get_child p n = Some c" "ensure_parents b cr now path ps c = Inr c'" "n' = put_child c' n"
    by (auto split: option.splits if_splits sum.splits)
  have "c' = c" using Cons.IH [OF _ c(2)] Cons.prems(1) c(1) by (auto split: if_splits)
  then show ?case using c put_same get_child_name [OF c(1)] by metis
qed simp

lemma ensure_child_present:
  assumes "is_dir root" "ensure_parents b True now path dirs root = Inr root1"
    and "get_child p (the (walk dirs root1)) = Some x"
  shows "root1 = root"
proof -
  obtain m where m: "walk dirs root1 = Some m" "is_dir m" using ensure_parents_walk [OF assms(2,1)] by blast
  then have "walk (dirs @ [p]) root1 \<noteq> None" using assms(3) by (simp add: walk_snoc)
  moreover have "\<not> prefix (dirs @ [p]) dirs" using prefix_length_le by fastforce
  ultimately have "walk (dirs @ [p]) root \<noteq> None"
    using ensure_parents_info [OF assms(2,1), of "dirs @ [p]"] by (cases "walk (dirs @ [p]) root") (auto simp: info_at_def)
  then have "walk dirs root \<noteq> None" by (auto simp: walk_snoc split: option.splits)
  then show ?thesis using ensure_parents_present [OF _ assms(2)] by blast
qed

lemma store_error:
  assumes "is_dir root" "tree_store b now path c k root = (Inl e, root')"
  shows "root' = root"
  using assms ensure_child_present [OF assms(1)]
  by (auto simp: tree_store_def Let_def split: if_splits sum.splits option.splits)

lemma update_at_cong: "walk ps n = Some m \<Longrightarrow> f m = g m \<Longrightarrow> update_at ps f n = update_at ps g n"
  by (induction ps arbitrary: n) (auto split: option.split if_splits)

lemma put_in_twice: "node_name c = node_name d \<Longrightarrow> put_in c (put_in d xs) = put_in c xs"
  by (induction xs) auto

lemma put_put: "node_name c = node_name d \<Longrightarrow> put_child c (put_child d n) = put_child c n"
  by (simp add: put_child_def with_children_def put_in_twice)

lemma update_at_twice:
  assumes g: "\<And>x. node_meta (g x) = node_meta x \<and> node_content (g x) = node_content x"
    and f: "\<And>x. node_meta (f x) = node_meta x \<and> node_content (f x) = node_content x"
  shows "update_at ps f (update_at ps g n) = update_at ps (\<lambda>x. f (g x)) n"
proof (induction ps arbitrary: n)
  case (Cons p ps)
  have fg: "\<And>x. node_meta (f (g x)) = node_meta x \<and> node_content (f (g x)) = node_content x"
    using f g by simp
  have "node_name (update_at ps g c) = p" "node_name (update_at ps (\<lambda>x. f (g x)) c) = p" if "get_child p n = Some c" for c
    using update_at_meta [OF g, of ps c] update_at_meta [OF fg, of ps c] get_child_name [OF that]
    by (simp_all add: node_name_def)
  with Cons show ?case by (auto simp: get_put_child put_put split: option.split)
qed simp

section \<open>Facts about every node\<close>

fun all_meta :: "(fmeta \<Rightarrow> bool) \<Rightarrow> 'c fnode \<Rightarrow> bool" where
  "all_meta Q (FNode m c cs) = (Q m \<and> list_all (all_meta Q) cs)"

lemma all_meta_iff: "all_meta Q n \<longleftrightarrow> Q (node_meta n) \<and> (\<forall>c \<in> set (node_children n). all_meta Q c)"
  by (cases n) (simp add: list_all_iff)

lemma all_meta_child: "all_meta Q n \<Longrightarrow> get_child p n = Some c \<Longrightarrow> all_meta Q c"
  by (auto simp: all_meta_iff [of Q n] get_child_def find_Some_iff)

lemma all_meta_walk: "all_meta Q n \<Longrightarrow> walk ps n = Some m \<Longrightarrow> all_meta Q m"
  by (induction ps arbitrary: n) (auto dest: all_meta_child split: if_splits option.splits)

lemma all_meta_put: "all_meta Q n \<Longrightarrow> all_meta Q c \<Longrightarrow> all_meta Q (put_child c n)"
  using put_in_set [of c "node_children n"]
  by (auto simp: all_meta_iff [of Q n] all_meta_iff [of Q "put_child c n"] node_children_simps)

lemma all_meta_remove: "all_meta Q n \<Longrightarrow> all_meta Q (remove_child p n)"
  by (auto simp: all_meta_iff [of Q n] all_meta_iff [of Q "remove_child p n"] node_children_simps)

lemma all_meta_replace: "all_meta Q n \<Longrightarrow> all_meta Q c \<Longrightarrow> all_meta Q (replace_child c n)"
  unfolding replace_child_def
  by (auto simp: all_meta_iff [of Q n] all_meta_iff [of Q "add_child c (remove_child (node_name c) n)"] node_children_simps)

lemma all_meta_update:
  "all_meta Q n \<Longrightarrow> (\<And>x. all_meta Q x \<Longrightarrow> all_meta Q (f x)) \<Longrightarrow> all_meta Q (update_at ps f n)"
  by (induction ps arbitrary: n) (auto intro: all_meta_put dest: all_meta_child split: option.split)

lemma all_meta_ensure:
  assumes "\<And>p. Q (node_meta (new_dir b now p))"
  shows "all_meta Q n \<Longrightarrow> ensure_parents b cr now path ps n = Inr n' \<Longrightarrow> all_meta Q n'"
proof (induction ps arbitrary: n n')
  case (Cons p ps)
  let ?c = "case get_child p n of None \<Rightarrow> new_dir b now p | Some c \<Rightarrow> c"
  obtain c' where c': "ensure_parents b cr now path ps ?c = Inr c'" "n' = put_child c' n"
    using Cons.prems(2) by (auto split: option.splits if_splits sum.splits)
  have "all_meta Q ?c"
    using all_meta_child [OF Cons.prems(1), of p] assms [of p] by (auto simp: all_meta_iff [of Q "new_dir b now p"] split: option.split)
  with Cons.IH [OF this c'(1)] c'(2) Cons.prems(1) show ?case by (simp add: all_meta_put)
qed simp

lemma all_meta_copy:
  assumes "\<And>name type (c :: 'c) k. Q (node_meta (make_node now name type c now now k))"
  shows "all_meta Q (deep_copy now (n :: 'c fnode) name)"
proof (induction n arbitrary: name)
  case (FNode m c cs)
  then show ?case
    using assms [of name "fm_type m" c "fm_size m"]
    by (simp add: with_children_def list_all_iff)
qed

end
