(* ===== verification/FileStore.thy ===== *)
theory FileStore
  imports TreeOps
begin

text \<open>
  The interface \<open>IFileStorageProvider\<close> (\<open>filesystem/qodalis_cli_filesystem/i_file_storage_provider.py\<close>,
  \<open>models.py\<close>): what callers pass and get, the operations that change a store as data, and the contract of
  a store as the locale \<open>file_storage\<close>: the files at every path are a function of the operations and
  their results.  The providers interpret it.
\<close>

section \<open>Requests and answers\<close>

text \<open>The UTF-8 codec: \<open>str.encode\<close> and \<open>bytes.decode(errors="replace")\<close>.\<close>

record codec =
  cd_encode :: "string \<Rightarrow> string"
  cd_decode :: "string \<Rightarrow> string"

datatype file_data = Text string | Bytes string

record file_entry =
  fe_name :: string
  fe_type :: string
  fe_size :: nat
  fe_modified :: string
  fe_permissions :: string

record file_stat =
  fst_name :: string
  fst_type :: string
  fst_size :: nat
  fst_created :: string
  fst_modified :: string
  fst_permissions :: string

datatype fs_op =
    Op_write string file_data
  | Op_mkdir string bool
  | Op_remove string bool
  | Op_copy string string
  | Op_move string string

section \<open>The abstract store\<close>

text \<open>
  A store is a partial function from paths to contents.  \<open>spec_step\<close> is what an operation with a given
  result does to it; \<open>enc\<close> is how the store keeps what is written.
\<close>

type_synonym 'c file_map = "string list \<Rightarrow> 'c option"

fun spec_step :: "bool \<Rightarrow> (file_data \<Rightarrow> 'c) \<Rightarrow> fs_op \<Rightarrow> fs_error + unit \<Rightarrow> 'c file_map \<Rightarrow> 'c file_map" where
  "spec_step clears enc (Op_write p d) r m = (if r = Inr () then m(path_parts p \<mapsto> enc d) else m)"
| "spec_step clears enc (Op_mkdir p rec) r m = m"
| "spec_step clears enc (Op_remove p rec) r m =
     (if r = Inr () then (\<lambda>qs. if prefix (path_parts p) qs then None else m qs) else m)"
| "spec_step clears enc (Op_copy s d) r m =
     (if r = Inr () then copied_files clears (path_parts s) (path_parts d) m else m)"
| "spec_step clears enc (Op_move s d) r m =
     (if r = Inr () then moved_files clears (path_parts s) (path_parts d) m
      else if is_key_error r then copied_files clears (path_parts s) (path_parts d) m else m)"

fun run_ops :: "('o \<Rightarrow> (fs_error, unit, 's) act) \<Rightarrow> 'o list \<Rightarrow> 's \<Rightarrow> (fs_error + unit) list \<times> 's" where
  "run_ops step [] s = ([], s)"
| "run_ops step (x # xs) s =
     (let (r, s1) = step x s; (rs, s2) = run_ops step xs s1 in (r # rs, s2))"

fun spec_run :: "bool \<Rightarrow> (file_data \<Rightarrow> 'c) \<Rightarrow> fs_op list \<Rightarrow> (fs_error + unit) list \<Rightarrow> 'c file_map \<Rightarrow> 'c file_map" where
  "spec_run clears enc (x # xs) (r # rs) m = spec_run clears enc xs rs (spec_step clears enc x r m)"
| "spec_run clears enc _ _ m = m"

text \<open>The places an operation may change.\<close>

fun touches :: "fs_op \<Rightarrow> string list \<Rightarrow> bool" where
  "touches (Op_write p d) qs = (path_parts p = qs)"
| "touches (Op_mkdir p rec) qs = False"
| "touches (Op_remove p rec) qs = prefix (path_parts p) qs"
| "touches (Op_copy s d) qs = prefix (path_parts d) qs"
| "touches (Op_move s d) qs = (prefix (path_parts s) qs \<or> prefix (path_parts d) qs)"

lemma untouched_step: "\<not> touches x qs \<Longrightarrow> spec_step clears enc x r m qs = m qs"
  by (cases x) (auto simp: copied_files_def moved_files_def)

locale file_storage =
  fixes apply_op :: "string \<Rightarrow> fs_op \<Rightarrow> (fs_error, unit, 's) act"
    and read :: "string \<Rightarrow> 's \<Rightarrow> fs_error + string"
    and files :: "'s \<Rightarrow> 'c file_map"
    and ok :: "'s \<Rightarrow> bool"
    and clears :: bool
    and enc :: "file_data \<Rightarrow> 'c"
    and dec :: "'c \<Rightarrow> string"
  assumes step: "ok s \<Longrightarrow> apply_op now x s = (r, s') \<Longrightarrow> ok s' \<and> files s' = spec_step clears enc x r (files s)"
    and read_files: "read p s = Inr t \<longleftrightarrow> map_option dec (files s (path_parts p)) = Some t"
begin

lemma run_files:
  "ok s \<Longrightarrow> run_ops (\<lambda>(now, x). apply_op now x) xs s = (rs, s') \<Longrightarrow>
     ok s' \<and> files s' = spec_run clears enc (map snd xs) rs (files s)"
proof (induction xs arbitrary: s rs)
  case (Cons y xs)
  obtain now x where y: "y = (now, x)" by fastforce
  obtain r s1 where one: "apply_op now x s = (r, s1)" by fastforce
  obtain rs' where rest: "run_ops (\<lambda>(now, x). apply_op now x) xs s1 = (rs', s')" "rs = r # rs'"
    using Cons.prems(2) one y by (auto split: prod.splits)
  note s1 = step [OF Cons.prems(1) one]
  show ?case using Cons.IH [OF conjunct1 [OF s1] rest(1)] s1 rest(2) y by simp
qed simp

lemma read_after_write:
  assumes "ok s" "apply_op now (Op_write p d) s = (Inr (), s')"
    and "run_ops (\<lambda>(now, x). apply_op now x) xs s' = (rs, s'')"
    and "\<forall>x \<in> set xs. \<not> touches (snd x) (path_parts p)"
  shows "read p s'' = Inr (dec (enc d))"
proof -
  have s': "ok s'" "files s' (path_parts p) = Some (enc d)" using step [OF assms(1,2)] by simp_all
  have "spec_run clears enc (map snd ys) qs m (path_parts p) = m (path_parts p)"
    if "\<forall>x \<in> set ys. \<not> touches (snd x) (path_parts p)" for ys :: "(string \<times> fs_op) list" and qs m
    using that by (induction ys arbitrary: qs m) (case_tac qs; simp add: untouched_step)+
  with run_files [OF s'(1) assms(3)] s'(2) assms(4) show ?thesis by (simp add: read_files)
qed

end

end
