(* ===== verification/MemFiles.thy ===== *)
theory MemFiles
  imports FileStore
begin

text \<open>
  The in-memory file storage provider (\<open>InMemoryFileStorageProvider\<close>): every operation of
  \<open>IFileStorageProvider\<close> on the tree of \<open>FileTree\<close>.  The state is the root node; contents are bytes.
  The UTF-8 codec is the argument \<open>cd\<close>; times are the ISO text that \<open>_now_iso\<close> gives.  The contract of
  a file store is the locale \<open>file_storage\<close>, interpreted here and for the JSON provider.
\<close>

section \<open>The state and its views\<close>

type_synonym bytes_node = "string fnode"

definition new_mem_files :: "string \<Rightarrow> bytes_node" where
  "new_mem_files now = new_dir [] now []"

definition entry_of :: "'c fnode \<Rightarrow> file_entry" where
  "entry_of n =
     (let m = node_meta n
      in \<lparr>fe_name = fm_name m, fe_type = fm_type m, fe_size = fm_size m,
          fe_modified = fm_modified m, fe_permissions = fm_permissions m\<rparr>)"

definition stat_of :: "'c fnode \<Rightarrow> file_stat" where
  "stat_of n =
     (let m = node_meta n
      in \<lparr>fst_name = fm_name m, fst_type = fm_type m, fst_size = fm_size m, fst_created = fm_created m,
          fst_modified = fm_modified m, fst_permissions = fm_permissions m\<rparr>)"

section \<open>Reading\<close>

definition mfs_list :: "string \<Rightarrow> 'c fnode \<Rightarrow> fs_error + file_entry list" where
  "mfs_list path root =
     (case resolve root (normalize_path path) of
        None \<Rightarrow> Inl (Fs_not_found path)
      | Some n \<Rightarrow> if \<not> is_dir n then Inl (Fs_not_a_directory path)
                  else Inr (map entry_of (sort_key node_name (node_children n))))"

definition mfs_read_file :: "codec \<Rightarrow> string \<Rightarrow> bytes_node \<Rightarrow> fs_error + string" where
  "mfs_read_file cd path root =
     (case resolve root (normalize_path path) of
        None \<Rightarrow> Inl (Fs_not_found path)
      | Some n \<Rightarrow> if is_dir n then Inl (Fs_is_a_directory path) else Inr (cd_decode cd (node_content n)))"

definition mfs_stat :: "string \<Rightarrow> 'c fnode \<Rightarrow> fs_error + file_stat" where
  "mfs_stat path root =
     (case resolve root (normalize_path path) of
        None \<Rightarrow> Inl (Fs_not_found path) | Some n \<Rightarrow> Inr (stat_of n))"

definition mfs_exists :: "string \<Rightarrow> 'c fnode \<Rightarrow> bool" where
  "mfs_exists path root = (resolve root (normalize_path path) \<noteq> None)"

definition mfs_download :: "string \<Rightarrow> bytes_node \<Rightarrow> fs_error + string" where
  "mfs_download path root =
     (case resolve root (normalize_path path) of
        None \<Rightarrow> Inl (Fs_not_found path)
      | Some n \<Rightarrow> if is_dir n then Inl (Fs_is_a_directory path) else Inr (node_content n))"

section \<open>Writing\<close>

definition raw_of :: "codec \<Rightarrow> file_data \<Rightarrow> string" where
  "raw_of cd data = (case data of Text t \<Rightarrow> cd_encode cd t | Bytes b \<Rightarrow> b)"

text \<open>The parent that \<open>_ensure_parents\<close> returns is at its path in the new tree.\<close>

definition mfs_write_file :: "codec \<Rightarrow> string \<Rightarrow> string \<Rightarrow> file_data \<Rightarrow> (fs_error, unit, bytes_node) act" where
  "mfs_write_file cd now path data root =
     (let norm = normalize_path path; parts = py_split SLASH norm; dirs = butlast parts;
          file_name = last parts; raw = raw_of cd data
      in if norm = [] then (Inl (Fs_is_a_directory path), root)
         else case ensure_parents [] True now path dirs root of
                Inl e \<Rightarrow> (Inl e, root)
              | Inr root1 \<Rightarrow>
                  (case get_child file_name (the (walk dirs root1)) of
                     Some x \<Rightarrow>
                       if is_dir x then (Inl (Fs_is_a_directory path), root1)
                       else (Inr (), update_at dirs (put_child (rewritten now raw (length raw) x)) root1)
                   | None \<Rightarrow>
                       (Inr (), update_at dirs
                          (put_child (make_node now file_name ''file'' raw now now (length raw))) root1)))"

definition mfs_upload_file :: "codec \<Rightarrow> string \<Rightarrow> string \<Rightarrow> string \<Rightarrow> (fs_error, unit, bytes_node) act" where
  "mfs_upload_file cd now path content = mfs_write_file cd now path (Bytes content)"

definition mfs_mkdir :: "string \<Rightarrow> string \<Rightarrow> bool \<Rightarrow> (fs_error, unit, bytes_node) act" where
  "mfs_mkdir now path recursive root =
     (let norm = normalize_path path; parts = py_split SLASH norm; dirs = butlast parts; dir_name = last parts
      in if norm = [] then (Inr (), root)
         else if recursive then
           (case ensure_parents [] True now path parts root of
              Inl e \<Rightarrow> (Inl e, root) | Inr root1 \<Rightarrow> (Inr (), root1))
         else
           (case ensure_parents [] False now path dirs root of
              Inl e \<Rightarrow> (Inl e, root)
            | Inr root1 \<Rightarrow>
                (case get_child dir_name (the (walk dirs root1)) of
                   Some x \<Rightarrow> if \<not> is_dir x then (Inl (Fs_exists path), root1) else (Inr (), root1)
                 | None \<Rightarrow> (Inr (), update_at dirs (put_child (new_dir [] now dir_name)) root1))))"

text \<open>
  \<open>FileStoragePermissionError\<close> is not imported by the in-memory provider: naming it raises
  \<open>NameError\<close>.
\<close>

definition mfs_remove :: "string \<Rightarrow> bool \<Rightarrow> (fs_error, unit, bytes_node) act" where
  "mfs_remove path recursive root =
     (let norm = normalize_path path; parts = py_split SLASH norm
      in if norm = [] then (Inl (Fs_name_error ''FileStoragePermissionError''), root)
         else case resolve root (py_join [SLASH] (butlast parts)) of
                None \<Rightarrow> (Inl (Fs_not_found path), root)
              | Some parent \<Rightarrow>
                  (case get_child (last parts) parent of
                     None \<Rightarrow> (Inl (Fs_not_found path), root)
                   | Some n \<Rightarrow>
                       if is_dir n \<and> node_children n \<noteq> [] \<and> \<not> recursive
                       then (Inl (Fs_not_a_directory path), root)
                       else (Inr (), update_at (butlast parts) (remove_child (last parts)) root)))"

text \<open>The node to copy is held by reference: it includes the parents made for the destination.\<close>

definition mfs_copy :: "string \<Rightarrow> string \<Rightarrow> string \<Rightarrow> (fs_error, unit, bytes_node) act" where
  "mfs_copy now src dest root =
     (let dnorm = normalize_path dest; parts = py_split SLASH dnorm; dirs = butlast parts
      in case resolve root (normalize_path src) of
           None \<Rightarrow> (Inl (Fs_not_found src), root)
         | Some _ \<Rightarrow>
             if dnorm = [] then (Inl (Fs_is_a_directory dest), root)
             else (case ensure_parents [] True now dest dirs root of
                     Inl e \<Rightarrow> (Inl e, root)
                   | Inr root1 \<Rightarrow>
                       (let src_node = the (resolve root1 (normalize_path src))
                        in (Inr (), update_at dirs (put_child (deep_copy now src_node (last parts))) root1))))"

definition mfs_move :: "string \<Rightarrow> string \<Rightarrow> string \<Rightarrow> (fs_error, unit, bytes_node) act" where
  "mfs_move now src dest root =
     (let snorm = normalize_path src; dnorm = normalize_path dest; sparts = py_split SLASH snorm;
          parts = py_split SLASH dnorm; dirs = butlast parts
      in if snorm = [] then (Inl (Fs_name_error ''FileStoragePermissionError''), root)
         else case resolve root snorm of
                None \<Rightarrow> (Inl (Fs_not_found src), root)
              | Some _ \<Rightarrow>
                  if dnorm = [] then (Inl (Fs_is_a_directory dest), root)
                  else (case ensure_parents [] True now dest dirs root of
                          Inl e \<Rightarrow> (Inl e, root)
                        | Inr root1 \<Rightarrow>
                            (let src_node = the (resolve root1 snorm);
                                 root2 = update_at dirs (put_child (deep_copy now src_node (last parts))) root1
                             in case resolve root2 (py_join [SLASH] (butlast sparts)) of
                                  None \<Rightarrow> (Inr (), root2)
                                | Some src_parent \<Rightarrow>
                                    if get_child (last sparts) src_parent = None
                                    then (Inl (Fs_key_error (last sparts)), root2)
                                    else (Inr (), update_at (butlast sparts) (remove_child (last sparts)) root2))))"

definition mem_apply :: "codec \<Rightarrow> string \<Rightarrow> fs_op \<Rightarrow> (fs_error, unit, bytes_node) act" where
  "mem_apply cd now x =
     (case x of
        Op_write p d \<Rightarrow> mfs_write_file cd now p d
      | Op_mkdir p rec \<Rightarrow> mfs_mkdir now p rec
      | Op_remove p rec \<Rightarrow> mfs_remove p rec
      | Op_copy src dest \<Rightarrow> mfs_copy now src dest
      | Op_move src dest \<Rightarrow> mfs_move now src dest)"

section \<open>The operations are those of the shared tree\<close>

abbreviation no_permission_error :: fs_error where
  "no_permission_error \<equiv> Fs_name_error ''FileStoragePermissionError''"

lemma mem_write_is: "mfs_write_file cd now path data = tree_store [] now path (raw_of cd data) (length (raw_of cd data))"
  by (rule ext, cases "normalize_path path = []")
    (simp_all add: mfs_write_file_def tree_store_def Let_def normalize_empty split_normalize
      cong: option.case_cong sum.case_cong if_cong)

lemma mem_mkdir_is: "mfs_mkdir now path recursive = tree_mkdir [] now path recursive"
  by (rule ext, cases "normalize_path path = []")
    (simp_all add: mfs_mkdir_def tree_mkdir_def Let_def normalize_empty split_normalize
      cong: option.case_cong sum.case_cong if_cong)

lemma mem_remove_is: "mfs_remove path recursive = tree_remove no_permission_error path recursive"
proof
  fix root :: bytes_node
  show "mfs_remove path recursive root = tree_remove no_permission_error path recursive root"
    by (cases "normalize_path path = []"; cases "walk (butlast (path_parts path)) root")
      (simp_all add: resolve_parent mfs_remove_def tree_remove_def Let_def normalize_empty split_normalize
      cong: option.case_cong sum.case_cong if_cong)
qed

lemma mem_copy_is: "mfs_copy now src dest = tree_copy False [] now src dest"
  by (rule ext, cases "normalize_path dest = []")
    (simp_all add: mfs_copy_def tree_copy_def Let_def copied_node_def normalize_empty split_normalize
      resolve_normalize cong: option.case_cong sum.case_cong if_cong)

lemma mem_move_is: "mfs_move now src dest = tree_move no_permission_error True False [] now src dest"
proof
  fix root :: bytes_node
  show "mfs_move now src dest root = tree_move no_permission_error True False [] now src dest root"
  proof (cases "normalize_path src = []")
    case False
    then show ?thesis
      by (auto simp: resolve_parent mfs_move_def tree_move_def tree_copy_def Let_def copied_node_def normalize_empty split_normalize
          resolve_normalize split: option.split sum.split)
  qed (simp add: mfs_move_def tree_move_def Let_def normalize_empty)
qed

lemmas mem_ops_are = mem_write_is mem_mkdir_is mem_remove_is mem_copy_is mem_move_is

lemma mem_read_iff:
  "mfs_read_file cd path root = Inr t \<longleftrightarrow> map_option (cd_decode cd) (files_at root (path_parts path)) = Some t"
  by (auto simp: mfs_read_file_def resolve_normalize files_at_def info_at_def is_dir_def split: option.split)

lemma mem_step:
  assumes "sound_tree root" "mem_apply cd now x root = (r, root')"
  shows "sound_tree root' \<and> files_at root' = spec_step False (raw_of cd) x r (files_at root)"
  using assms
proof (cases x)
  case (Op_move s d)
  with assms show ?thesis
    using move_effect [OF assms(1), of no_permission_error True False "[]" now s d r root']
    by (simp add: mem_apply_def mem_ops_are is_key_error_def)
qed (auto simp: mem_apply_def mem_ops_are
    dest!: store_effect [OF assms(1)] mkdir_effect [OF assms(1)] remove_effect [OF assms(1)] copy_effect [OF assms(1)])

lemma new_mem_sound: "sound_tree (new_mem_files now)" "files_at (new_mem_files now) = (\<lambda>_. None)"
  by (auto simp: new_mem_files_def sound_tree_def)

interpretation mem_fs: file_storage "mem_apply cd" "mfs_read_file cd" files_at sound_tree False "raw_of cd" "cd_decode cd" for cd
  by unfold_locales (simp_all add: mem_step mem_read_iff)

end
