(* ===== verification/JsonFiles.thy ===== *)
theory JsonFiles
  imports MemFiles
begin

text \<open>
  The JSON file storage provider (\<open>filesystem-json/qodalis_cli_filesystem_json/json_file_provider.py\<close>): the
  same tree with text contents, written to a JSON file after every change.  The file is the document that
  \<open>json.dump\<close> writes and \<open>json.load\<close> gives back, \<open>None\<close> while there is none.  A document whose entries
  have other types than \<open>to_dict\<close> gives them is outside the model (\<open>Fs_bad_document\<close>): Python would keep
  the value unseen.
\<close>

section \<open>Documents\<close>

type_synonym text_node = "string fnode"

fun to_dict :: "text_node \<Rightarrow> json" where
  "to_dict (FNode m c cs) =
     JObj [(''name'', JStr (fm_name m)), (''type'', JStr (fm_type m)), (''content'', JStr c),
           (''children'', JArr (map to_dict cs)), (''created_at'', JStr (fm_created m)),
           (''modified_at'', JStr (fm_modified m)), (''size'', JInt (int (fm_size m))),
           (''permissions'', JStr (fm_permissions m))]"

fun collect_all :: "('e + 'a) list \<Rightarrow> 'e + 'a list" where
  "collect_all [] = Inr []"
| "collect_all (x # xs) =
     (case x of Inl e \<Rightarrow> Inl e
      | Inr a \<Rightarrow> (case collect_all xs of Inl e \<Rightarrow> Inl e | Inr as \<Rightarrow> Inr (a # as)))"

text \<open>\<open>data[key]\<close> and \<open>data.get(key, default)\<close> for text.\<close>

definition need_str :: "string \<Rightarrow> (string \<times> json) list \<Rightarrow> fs_error + string" where
  "need_str key kvs =
     (case map_of kvs key of None \<Rightarrow> Inl (Fs_key_error key) | Some (JStr v) \<Rightarrow> Inr v
      | Some _ \<Rightarrow> Inl (Fs_bad_document key))"

definition get_str :: "string \<Rightarrow> (string \<times> json) list \<Rightarrow> fs_error + string" where
  "get_str key kvs =
     (case map_of kvs key of None \<Rightarrow> Inr [] | Some (JStr v) \<Rightarrow> Inr v | Some _ \<Rightarrow> Inl (Fs_bad_document key))"

definition get_size :: "(string \<times> json) list \<Rightarrow> fs_error + nat" where
  "get_size kvs =
     (case map_of kvs ''size'' of None \<Rightarrow> Inr 0
      | Some (JInt k) \<Rightarrow> if 0 \<le> k then Inr (nat k) else Inl (Fs_bad_document ''size'')
      | Some _ \<Rightarrow> Inl (Fs_bad_document ''size''))"

definition node_head :: "string \<Rightarrow> (string \<times> json) list \<Rightarrow> fs_error + text_node" where
  "node_head now kvs =
     (case need_str ''name'' kvs of Inl e \<Rightarrow> Inl e | Inr name \<Rightarrow>
      case need_str ''type'' kvs of Inl e \<Rightarrow> Inl e | Inr type \<Rightarrow>
      case get_str ''content'' kvs of Inl e \<Rightarrow> Inl e | Inr content \<Rightarrow>
      case get_str ''created_at'' kvs of Inl e \<Rightarrow> Inl e | Inr created \<Rightarrow>
      case get_str ''modified_at'' kvs of Inl e \<Rightarrow> Inl e | Inr modified \<Rightarrow>
      case get_size kvs of Inl e \<Rightarrow> Inl e | Inr sz \<Rightarrow>
      Inr (make_node now name type content created modified sz))"

lemma child_size: "map_of kvs k = Some (JArr cs) \<Longrightarrow> x \<in> set cs \<Longrightarrow> size x < size (JObj kvs)"
proof -
  assume a: "map_of kvs k = Some (JArr cs)" and x: "x \<in> set cs"
  have "size x < size (JArr cs)" using x by (induction cs) auto
  also have "size (JArr cs) < size (JObj kvs)"
    using map_of_SomeD [OF a] by (induction kvs) (auto simp: size_prod_simp)
  finally show ?thesis .
qed

function from_dict :: "string \<Rightarrow> json \<Rightarrow> fs_error + text_node" where
  "from_dict now data =
     (case data of
        JObj kvs \<Rightarrow>
          (case node_head now kvs of Inl e \<Rightarrow> Inl e | Inr n \<Rightarrow>
           (case map_of kvs ''children'' of
              None \<Rightarrow> Inr n
            | Some (JArr cs) \<Rightarrow>
                (case collect_all (map (from_dict now) cs) of
                   Inl e \<Rightarrow> Inl e | Inr children \<Rightarrow> Inr (with_children children n))
            | Some _ \<Rightarrow> Inl (Fs_bad_document ''children'')))
      | _ \<Rightarrow> Inl (Fs_bad_document []))"
  by pat_completeness auto
termination
  by (relation "measure (size \<circ> snd)") (auto dest: child_size)

section \<open>The provider\<close>

record json_fs =
  jp_root :: text_node
  jp_file :: "json option"

definition jfs_load :: "string \<Rightarrow> json option \<Rightarrow> fs_error + text_node" where
  "jfs_load now file = (case file of None \<Rightarrow> Inr (new_dir [] now []) | Some data \<Rightarrow> from_dict now data)"

definition jfs_save :: "json_fs \<Rightarrow> json_fs" where
  "jfs_save s = s\<lparr>jp_file := Some (to_dict (jp_root s))\<rparr>"

definition jfs_open :: "string \<Rightarrow> json option \<Rightarrow> fs_error + json_fs" where
  "jfs_open now file =
     (case jfs_load now file of Inl e \<Rightarrow> Inl e | Inr root \<Rightarrow> Inr \<lparr>jp_root = root, jp_file = file\<rparr>)"

definition jfs_list :: "string \<Rightarrow> json_fs \<Rightarrow> fs_error + file_entry list" where
  "jfs_list path s =
     (case resolve (jp_root s) (normalize_path path) of
        None \<Rightarrow> Inl (Fs_not_found path)
      | Some n \<Rightarrow> if \<not> is_dir n then Inl (Fs_not_a_directory path)
                  else Inr (map entry_of (sort_key node_name (node_children n))))"

definition jfs_read_file :: "string \<Rightarrow> json_fs \<Rightarrow> fs_error + string" where
  "jfs_read_file path s =
     (case resolve (jp_root s) (normalize_path path) of
        None \<Rightarrow> Inl (Fs_not_found path)
      | Some n \<Rightarrow> if is_dir n then Inl (Fs_is_a_directory path) else Inr (node_content n))"

definition jfs_stat :: "string \<Rightarrow> json_fs \<Rightarrow> fs_error + file_stat" where
  "jfs_stat path s =
     (case resolve (jp_root s) (normalize_path path) of
        None \<Rightarrow> Inl (Fs_not_found path) | Some n \<Rightarrow> Inr (stat_of n))"

definition jfs_exists :: "string \<Rightarrow> json_fs \<Rightarrow> bool" where
  "jfs_exists path s = (resolve (jp_root s) (normalize_path path) \<noteq> None)"

definition jfs_download :: "codec \<Rightarrow> string \<Rightarrow> json_fs \<Rightarrow> fs_error + string" where
  "jfs_download cd path s =
     (case resolve (jp_root s) (normalize_path path) of
        None \<Rightarrow> Inl (Fs_not_found path)
      | Some n \<Rightarrow> if is_dir n then Inl (Fs_is_a_directory path) else Inr (cd_encode cd (node_content n)))"

definition text_of :: "codec \<Rightarrow> file_data \<Rightarrow> string" where
  "text_of cd data = (case data of Text t \<Rightarrow> t | Bytes b \<Rightarrow> cd_decode cd b)"

text \<open>A child added under a new name is the last one; changing a child is \<open>put_child\<close>.\<close>

definition jfs_write_file :: "codec \<Rightarrow> string \<Rightarrow> string \<Rightarrow> file_data \<Rightarrow> (fs_error, unit, json_fs) act" where
  "jfs_write_file cd now path data s =
     (let norm = normalize_path path; parts = py_split SLASH norm; dirs = butlast parts; file_name = last parts;
          txt = text_of cd data; sz = length (cd_encode cd txt)
      in if norm = [] then (Inl (Fs_is_a_directory path), s)
         else case ensure_parents [] True now path dirs (jp_root s) of
                Inl e \<Rightarrow> (Inl e, s)
              | Inr root1 \<Rightarrow>
                  (case get_child file_name (the (walk dirs root1)) of
                     Some x \<Rightarrow>
                       if is_dir x then (Inl (Fs_is_a_directory path), s\<lparr>jp_root := root1\<rparr>)
                       else (Inr (), jfs_save (s\<lparr>jp_root := update_at dirs (put_child (rewritten now txt sz x)) root1\<rparr>))
                   | None \<Rightarrow>
                       (Inr (), jfs_save (s\<lparr>jp_root := update_at dirs
                          (add_child (make_node now file_name ''file'' txt now now sz)) root1\<rparr>))))"

definition jfs_upload_file :: "codec \<Rightarrow> string \<Rightarrow> string \<Rightarrow> string \<Rightarrow> (fs_error, unit, json_fs) act" where
  "jfs_upload_file cd now path content = jfs_write_file cd now path (Bytes content)"

definition jfs_mkdir :: "string \<Rightarrow> string \<Rightarrow> bool \<Rightarrow> (fs_error, unit, json_fs) act" where
  "jfs_mkdir now path recursive s =
     (let norm = normalize_path path; parts = py_split SLASH norm; dirs = butlast parts; dir_name = last parts
      in if norm = [] then (Inr (), s)
         else if recursive then
           (case ensure_parents [] True now path parts (jp_root s) of
              Inl e \<Rightarrow> (Inl e, s) | Inr root1 \<Rightarrow> (Inr (), jfs_save (s\<lparr>jp_root := root1\<rparr>)))
         else
           (case ensure_parents [] False now path dirs (jp_root s) of
              Inl e \<Rightarrow> (Inl e, s)
            | Inr root1 \<Rightarrow>
                (case get_child dir_name (the (walk dirs root1)) of
                   Some x \<Rightarrow> if \<not> is_dir x then (Inl (Fs_exists path), s\<lparr>jp_root := root1\<rparr>)
                             else (Inr (), s\<lparr>jp_root := root1\<rparr>)
                 | None \<Rightarrow>
                     (Inr (), jfs_save (s\<lparr>jp_root := update_at dirs (add_child (new_dir [] now dir_name)) root1\<rparr>)))))"

definition jfs_remove :: "string \<Rightarrow> bool \<Rightarrow> (fs_error, unit, json_fs) act" where
  "jfs_remove path recursive s =
     (let norm = normalize_path path; parts = py_split SLASH norm
      in if norm = [] then (Inl (Fs_permission path), s)
         else case resolve (jp_root s) (py_join [SLASH] (butlast parts)) of
                None \<Rightarrow> (Inl (Fs_not_found path), s)
              | Some parent \<Rightarrow>
                  (case get_child (last parts) parent of
                     None \<Rightarrow> (Inl (Fs_not_found path), s)
                   | Some n \<Rightarrow>
                       if is_dir n \<and> node_children n \<noteq> [] \<and> \<not> recursive
                       then (Inl (Fs_not_a_directory path), s)
                       else (Inr (), jfs_save (s\<lparr>jp_root :=
                              update_at (butlast parts) (remove_child (last parts)) (jp_root s)\<rparr>))))"

text \<open>
  The old child at the destination is removed before the source, which is held by reference, is copied:
  \<open>copied_node True\<close>.
\<close>

definition jfs_place :: "string \<Rightarrow> string list \<Rightarrow> string list \<Rightarrow> text_node \<Rightarrow> text_node" where
  "jfs_place now sparts parts root1 =
     (let dirs = butlast parts; root2 = update_at dirs (remove_child (last parts)) root1
      in update_at dirs (add_child (deep_copy now (copied_node True sparts parts root1) (last parts))) root2)"

definition jfs_copy :: "string \<Rightarrow> string \<Rightarrow> string \<Rightarrow> (fs_error, unit, json_fs) act" where
  "jfs_copy now src dest s =
     (let dnorm = normalize_path dest; parts = py_split SLASH dnorm
      in case resolve (jp_root s) (normalize_path src) of
           None \<Rightarrow> (Inl (Fs_not_found src), s)
         | Some _ \<Rightarrow>
             if dnorm = [] then (Inl (Fs_is_a_directory dest), s)
             else (case ensure_parents [] True now dest (butlast parts) (jp_root s) of
                     Inl e \<Rightarrow> (Inl e, s)
                   | Inr root1 \<Rightarrow>
                       (Inr (), jfs_save (s\<lparr>jp_root := jfs_place now (path_parts src) parts root1\<rparr>))))"

definition jfs_move :: "string \<Rightarrow> string \<Rightarrow> string \<Rightarrow> (fs_error, unit, json_fs) act" where
  "jfs_move now src dest s =
     (let snorm = normalize_path src; dnorm = normalize_path dest; sparts = py_split SLASH snorm;
          parts = py_split SLASH dnorm
      in if snorm = [] then (Inl (Fs_permission src), s)
         else case resolve (jp_root s) snorm of
                None \<Rightarrow> (Inl (Fs_not_found src), s)
              | Some _ \<Rightarrow>
                  if dnorm = [] then (Inl (Fs_is_a_directory dest), s)
                  else (case ensure_parents [] True now dest (butlast parts) (jp_root s) of
                          Inl e \<Rightarrow> (Inl e, s)
                        | Inr root1 \<Rightarrow>
                            (let root2 = jfs_place now sparts parts root1
                             in (Inr (), jfs_save (s\<lparr>jp_root :=
                                  (if resolve root2 (py_join [SLASH] (butlast sparts)) = None then root2
                                   else update_at (butlast sparts) (remove_child (last sparts)) root2)\<rparr>)))))"

definition json_apply :: "codec \<Rightarrow> string \<Rightarrow> fs_op \<Rightarrow> (fs_error, unit, json_fs) act" where
  "json_apply cd now x =
     (case x of
        Op_write p d \<Rightarrow> jfs_write_file cd now p d
      | Op_mkdir p rec \<Rightarrow> jfs_mkdir now p rec
      | Op_remove p rec \<Rightarrow> jfs_remove p rec
      | Op_copy src dest \<Rightarrow> jfs_copy now src dest
      | Op_move src dest \<Rightarrow> jfs_move now src dest)"

declare from_dict.simps [simp del]

section \<open>The operations are those of the shared tree\<close>

definition saving :: "(fs_error, unit, text_node) act \<Rightarrow> (fs_error, unit, json_fs) act" where
  "saving f s =
     (case f (jp_root s) of
        (Inl e, _) \<Rightarrow> (Inl e, s)
      | (Inr _, root') \<Rightarrow> (Inr (), jfs_save (s\<lparr>jp_root := root'\<rparr>)))"

lemma add_at_new:
  assumes "is_dir root" "ensure_parents b cr now path dirs root = Inr root1"
    and "get_child (node_name c) (the (walk dirs root1)) = None"
  shows "update_at dirs (add_child c) root1 = update_at dirs (put_child c) root1"
  using ensure_parents_walk [OF assms(2,1)] assms(3) put_new [of c]
  by (metis option.sel update_at_cong)

lemma json_write_is:
  assumes "is_dir (jp_root s)"
  shows "jfs_write_file cd now path data s =
    saving (tree_store [] now path (text_of cd data) (length (cd_encode cd (text_of cd data)))) s"
proof (cases "normalize_path path = []")
  case True
  then show ?thesis by (simp add: jfs_write_file_def saving_def tree_store_def Let_def normalize_empty)
next
  case False
  then show ?thesis
    using ensure_child_present [OF assms] add_at_new [OF assms]
    by (auto simp: jfs_write_file_def saving_def tree_store_def Let_def normalize_empty split_normalize
        split: sum.splits option.splits)
qed

lemma json_mkdir_is:
  assumes "is_dir (jp_root s)" "jfs_mkdir now path recursive s = (r, s')"
  shows "(r, s') = saving (tree_mkdir [] now path recursive) s
    \<or> tree_mkdir [] now path recursive (jp_root s) = (r, jp_root s) \<and> s' = s"
proof (cases "normalize_path path = []")
  case True
  with assms show ?thesis by (auto simp: jfs_mkdir_def tree_mkdir_def Let_def normalize_empty)
next
  case False
  have same: "root1 = jp_root s"
    if "ensure_parents [] False now path (butlast (path_parts path)) (jp_root s) = Inr root1" for root1
    using ensure_parents_present [OF _ that] by simp
  from False show ?thesis
    using assms(2) same add_at_new [OF assms(1)]
    by (auto simp: jfs_mkdir_def saving_def tree_mkdir_def Let_def normalize_empty split_normalize
        split: sum.splits option.splits if_splits)
qed

lemma json_remove_is: "jfs_remove path recursive s = saving (tree_remove (Fs_permission path) path recursive) s"
  by (cases "normalize_path path = []"; cases "walk (butlast (path_parts path)) (jp_root s)")
    (auto simp: resolve_parent jfs_remove_def saving_def tree_remove_def Let_def normalize_empty split_normalize
      split: option.split)

lemma json_place_is:
  "jfs_place now sparts parts root1 = update_at (butlast parts)
     (replace_child (deep_copy now (copied_node True sparts parts root1) (last parts))) root1"
  by (simp add: jfs_place_def Let_def update_at_twice replace_child_def [abs_def])

lemma json_copy_is: "jfs_copy now src dest s = saving (tree_copy True [] now src dest) s"
  by (cases "normalize_path dest = []")
    (auto simp: jfs_copy_def saving_def tree_copy_def Let_def normalize_empty split_normalize resolve_normalize
      json_place_is split: option.split sum.split)

lemma json_move_is: "jfs_move now src dest s = saving (tree_move (Fs_permission src) False True [] now src dest) s"
proof (cases "normalize_path src = []")
  case False
  then show ?thesis
    by (auto simp: jfs_move_def saving_def tree_move_def tree_copy_def Let_def normalize_empty split_normalize
        resolve_normalize resolve_parent json_place_is split: option.split sum.split)
qed (simp add: jfs_move_def saving_def tree_move_def Let_def normalize_empty)

lemmas json_ops_are = json_write_is json_remove_is json_copy_is json_move_is

definition json_tree :: "codec \<Rightarrow> string \<Rightarrow> fs_op \<Rightarrow> (fs_error, unit, text_node) act" where
  "json_tree cd now x =
     (case x of
        Op_write p d \<Rightarrow> tree_store [] now p (text_of cd d) (length (cd_encode cd (text_of cd d)))
      | Op_mkdir p rec \<Rightarrow> tree_mkdir [] now p rec
      | Op_remove p rec \<Rightarrow> tree_remove (Fs_permission p) p rec
      | Op_copy src dest \<Rightarrow> tree_copy True [] now src dest
      | Op_move src dest \<Rightarrow> tree_move (Fs_permission src) False True [] now src dest)"

definition json_ok :: "json_fs \<Rightarrow> bool" where
  "json_ok s = sound_tree (jp_root s)"

text \<open>Every operation either saves the tree it leaves or leaves tree and file alone.\<close>

lemma saving_cases:
  "saving f s = (r, s') \<Longrightarrow>
     (r = Inr () \<and> f (jp_root s) = (Inr (), jp_root s') \<and> jp_file s' = Some (to_dict (jp_root s')))
     \<or> ((\<exists>e root'. r = Inl e \<and> f (jp_root s) = (Inl e, root')) \<and> s' = s)"
  by (auto simp: saving_def jfs_save_def split: prod.splits sum.splits)

lemma json_apply_cases:
  assumes "json_ok s" "json_apply cd now x s = (r, s')"
  shows "(r = Inr () \<and> json_tree cd now x (jp_root s) = (Inr (), jp_root s') \<and> jp_file s' = Some (to_dict (jp_root s')))
     \<or> ((\<exists>root'. json_tree cd now x (jp_root s) = (r, root') \<and> (r = Inr () \<longrightarrow> root' = jp_root s)) \<and> s' = s)"
proof (cases x)
  case (Op_mkdir p rec)
  with assms json_mkdir_is [of s now p rec r s'] saving_cases [of "tree_mkdir [] now p rec" s r s']
  show ?thesis by (auto simp: json_apply_def json_tree_def json_ok_def sound_tree_def)
qed (use assms in \<open>auto simp: json_apply_def json_tree_def json_ok_def sound_tree_def json_ops_are dest!: saving_cases\<close>)

section \<open>The provider implements the store\<close>

lemma move_no_key_error:
  "\<not> is_key_error (Inl e) \<Longrightarrow> tree_move e False clears b now src dest root = (r, root') \<Longrightarrow> \<not> is_key_error r"
  using copy_no_key_error [of clears b now src dest root]
  by (auto simp: tree_move_def Let_def is_key_error_def split: if_splits prod.splits sum.splits option.splits)

lemma json_tree_step:
  assumes "sound_tree root" "json_tree cd now x root = (r, root')"
  shows "sound_tree root' \<and> files_at root' = spec_step True (text_of cd) x r (files_at root)
    \<and> (r \<noteq> Inr () \<longrightarrow> spec_step True (text_of cd) x r (files_at root) = files_at root)"
proof (cases x)
  case (Op_move s d)
  with assms(2) have m: "tree_move (Fs_permission s) False True [] now s d root = (r, root')" by (simp add: json_tree_def)
  have "\<not> is_key_error (Inl (Fs_permission s))" by (simp add: is_key_error_def)
  from move_effect [OF assms(1) this m] move_no_key_error [OF this m] Op_move show ?thesis by simp
qed (use assms in \<open>auto simp: json_tree_def dest!: store_effect [OF assms(1)] mkdir_effect [OF assms(1)]
       remove_effect [OF assms(1)] copy_effect [OF assms(1)]\<close>)

lemma json_step:
  assumes "json_ok s" "json_apply cd now x s = (r, s')"
  shows "json_ok s' \<and> files_at (jp_root s') = spec_step True (text_of cd) x r (files_at (jp_root s))"
proof -
  obtain r1 root1 where t: "json_tree cd now x (jp_root s) = (r1, root1)" by fastforce
  from json_tree_step [OF _ t] assms(1) json_apply_cases [OF assms] show ?thesis by (auto simp: t json_ok_def)
qed

lemma json_read_iff:
  "jfs_read_file path s = Inr t \<longleftrightarrow> map_option (\<lambda>c. c) (files_at (jp_root s) (path_parts path)) = Some t"
  by (auto simp: jfs_read_file_def resolve_normalize files_at_def info_at_def is_dir_def split: option.split)

interpretation json_fs: file_storage "json_apply cd" jfs_read_file "\<lambda>s. files_at (jp_root s)" json_ok True "text_of cd" "\<lambda>c. c" for cd
  by unfold_locales (simp_all add: json_step json_read_iff)

section \<open>Saving and loading\<close>

text \<open>What every node of a provider satisfies: it has a creation time and the permissions of its type.\<close>

definition meta_ok :: "fmeta \<Rightarrow> bool" where
  "meta_ok m \<longleftrightarrow> fm_created m \<noteq> []
     \<and> fm_permissions m = (if fm_type m = ''directory'' then ''drwxr-xr-x'' else ''-rw-r--r--'')"

lemma collect_all_Inr: "\<forall>x \<in> set xs. f x = Inr (g x) \<Longrightarrow> collect_all (map f xs) = Inr (map g xs)"
  by (induction xs) auto

lemma from_to_dict: "all_meta meta_ok n \<Longrightarrow> from_dict now (to_dict n) = Inr n"
proof (induction n)
  case (FNode m c cs)
  then have "collect_all (map (\<lambda>x. from_dict now (to_dict x)) cs) = Inr (map (\<lambda>x. x) cs)"
    by (intro collect_all_Inr) (simp add: list_all_iff)
  with FNode.prems show ?case
    by (simp add: from_dict.simps node_head_def need_str_def get_str_def get_size_def make_node_def with_children_def
        meta_ok_def comp_def)
qed

lemma meta_make [simp]: "created \<noteq> [] \<or> now \<noteq> [] \<Longrightarrow> meta_ok (node_meta (make_node now p ty c created t k))"
  by (simp add: meta_ok_def make_node_def)

lemma meta_new_dir [simp]: "now \<noteq> [] \<Longrightarrow> meta_ok (node_meta (new_dir b now p))"
  by (simp add: new_dir_def)

lemma meta_rewritten: "all_meta meta_ok n \<Longrightarrow> all_meta meta_ok (rewritten now c k n)"
  by (simp add: rewritten_def all_meta_iff [of meta_ok n] list_all_iff meta_ok_def)

lemma meta_new:
  assumes "now \<noteq> []"
  shows "all_meta meta_ok (new_dir b now p)" "all_meta meta_ok (make_node now p ty c now now k)"
    "all_meta meta_ok (deep_copy now n name)"
proof -
  show "all_meta meta_ok (new_dir b now p)" "all_meta meta_ok (make_node now p ty c now now k)"
    using assms by (simp_all add: new_dir_def make_node_def meta_ok_def)
  show "all_meta meta_ok (deep_copy now n name)" using assms by (intro all_meta_copy) simp
qed

lemma meta_at:
  assumes "all_meta Q n"
  shows "all_meta Q c \<Longrightarrow> all_meta Q (update_at dirs (put_child c) n)"
    "all_meta Q c \<Longrightarrow> all_meta Q (update_at dirs (replace_child c) n)"
    "all_meta Q (update_at dirs (remove_child p) n)"
  using all_meta_update [OF assms] by (blast intro: all_meta_put all_meta_replace all_meta_remove)+

lemma json_tree_meta:
  assumes ok: "sound_tree root" and m: "all_meta meta_ok root" and now: "now \<noteq> []"
    and t: "json_tree cd now x root = (r, root')"
  shows "all_meta meta_ok root'"
proof -
  have ens: "all_meta meta_ok root1" if "ensure_parents [] cr now path dirs root = Inr root1" for cr path dirs root1
    using all_meta_ensure [OF _ m that] now by simp
  note new = meta_new [OF now]
  have copy: "all_meta meta_ok root2" if "tree_copy True [] now src dest root = (r2, root2)" for src dest r2 root2
    using that m ens by (auto simp: tree_copy_def Let_def meta_at new split: option.splits if_splits sum.splits)
  show ?thesis
  proof (cases x)
    case (Op_write p d)
    have "all_meta meta_ok y" if e: "ensure_parents [] True now p (butlast (path_parts p)) root = Inr root1"
      and c: "get_child (last (path_parts p)) (the (walk (butlast (path_parts p)) root1)) = Some y" for root1 y
      using ensure_parents_walk [OF e] ok c all_meta_child [OF all_meta_walk [OF ens [OF e]]]
      by (auto simp: sound_tree_def)
    with Op_write t show ?thesis
      using m ens
      by (auto simp: json_tree_def tree_store_def Let_def meta_rewritten meta_at new split: if_splits sum.splits option.splits)
  next
    case (Op_mkdir p rec)
    with t show ?thesis using m ens
      by (auto simp: json_tree_def tree_mkdir_def Let_def meta_at new split: if_splits sum.splits option.splits)
  next
    case (Op_remove p rec)
    with t show ?thesis using m
      by (auto simp: json_tree_def tree_remove_def Let_def meta_at split: if_splits option.splits)
  next
    case (Op_copy s d)
    with t copy show ?thesis by (simp add: json_tree_def)
  next
    case (Op_move s d)
    with t show ?thesis using m copy
      by (auto simp: json_tree_def tree_move_def Let_def meta_at split: if_splits option.splits prod.splits sum.splits)
  qed
qed

text \<open>The file is the saved tree, or there is none yet and the tree is the one the provider began with.\<close>

definition persisted :: "text_node \<Rightarrow> json_fs \<Rightarrow> bool" where
  "persisted root0 s \<longleftrightarrow> json_ok s \<and> all_meta meta_ok (jp_root s)
     \<and> (jp_file s = Some (to_dict (jp_root s)) \<or> jp_file s = None \<and> jp_root s = root0)"

lemma persisted_step:
  assumes "persisted root0 s" "now \<noteq> []" "json_apply cd now x s = (r, s')"
  shows "persisted root0 s'"
proof -
  have ok: "json_ok s" "json_ok s'" using assms(1) json_step [OF _ assms(3)] by (simp_all add: persisted_def)
  from json_apply_cases [OF ok(1) assms(3)] show ?thesis
  proof
    assume a: "r = Inr () \<and> json_tree cd now x (jp_root s) = (Inr (), jp_root s') \<and> jp_file s' = Some (to_dict (jp_root s'))"
    then show ?thesis
      using json_tree_meta [of "jp_root s" now cd x r "jp_root s'"] assms(1,2) ok
      by (simp add: persisted_def json_ok_def)
  qed (use assms(1) in auto)
qed

lemma persisted_run:
  "persisted root0 s \<Longrightarrow> \<forall>x \<in> set xs. fst x \<noteq> [] \<Longrightarrow>
     run_ops (\<lambda>(now, x). json_apply cd now x) xs s = (rs, s') \<Longrightarrow> persisted root0 s'"
proof (induction xs arbitrary: s rs)
  case (Cons y xs)
  obtain r s1 where one: "json_apply cd (fst y) (snd y) s = (r, s1)" by fastforce
  with Cons.prems(3) obtain rs' where "run_ops (\<lambda>(now, x). json_apply cd now x) xs s1 = (rs', s')"
    by (auto split: prod.splits)
  with Cons.IH [of s1] persisted_step [OF Cons.prems(1) _ one] Cons.prems(2) show ?case by simp
qed simp

end
