(* ===== verification/FilesFacts.thy ===== *)
theory FilesFacts
  imports JsonFiles
begin

text \<open>
  What the two file providers promise: they implement a map from paths to contents, a written text is
  read back until an operation touches its path, a move takes exactly the files below its source, and the
  JSON provider finds after a restart the tree it had.
\<close>

section \<open>Both providers are maps from paths to contents\<close>


text \<open>
  A text written to the in-memory provider is what reading gives, after any operations none of which
  writes, removes, copies onto or moves that path or a directory above it, provided decoding undoes
  encoding.
\<close>

theorem written_text_is_read:
  assumes "\<And>t. cd_decode cd (cd_encode cd t) = t"
    and "sound_tree root" and "mfs_write_file cd now path (Text t) root = (Inr (), root1)"
    and "run_ops (\<lambda>(now, x). mem_apply cd now x) xs root1 = (rs, root2)"
    and "\<forall>x \<in> set xs. \<not> touches (snd x) (path_parts path)"
  shows "mfs_read_file cd path root2 = Inr t"
proof -
  have "mem_apply cd now (Op_write path (Text t)) root = (Inr (), root1)" using assms(3) by (simp add: mem_apply_def)
  from mem_fs.read_after_write [OF assms(2) this assms(4,5)] show ?thesis by (simp add: raw_of_def assms(1))
qed

section \<open>Moves\<close>

lemma moved_below:
  "prefix s d \<Longrightarrow> moved_files clears s d files = (\<lambda>qs. if prefix s qs then None else files qs)"
  using prefix_order.trans [of s d] by (auto simp: fun_eq_iff moved_files_def copied_files_def)

text \<open>
  A move between places neither of which is above the other succeeds exactly when the source exists,
  neither end is the root and no file is on the way to the destination; then the files below the source
  are below the destination, what was there is gone, and every other file is where it was.  A refused
  move changes nothing.
\<close>

theorem move_exact:
  assumes "sound_tree root" and "mfs_move now src dest root = (r, root')"
    and "\<not> prefix (path_parts src) (path_parts dest)" "\<not> prefix (path_parts dest) (path_parts src)"
  shows "(r = Inr () \<longleftrightarrow> walk (path_parts src) root \<noteq> None \<and> clear_way root (path_parts dest))
    \<and> (r \<noteq> Inr () \<longrightarrow> root' = root)
    \<and> (r = Inr () \<longrightarrow> files_at root' = (\<lambda>qs.
         if prefix (path_parts src) qs then None
         else if prefix (path_parts dest) qs
         then files_at root (path_parts src @ drop (length (path_parts dest)) qs)
         else files_at root qs))"
proof -
  let ?e = no_permission_error
  have m: "tree_move ?e True False [] now src dest root = (r, root')" using assms(2) by (simp add: mem_move_is)
  have ne: "path_parts src \<noteq> []" "path_parts dest \<noteq> []" using assms(3,4) by auto
  have s: "r = Inr () \<longleftrightarrow> walk (path_parts src) root \<noteq> None \<and> clear_way root (path_parts dest)"
    using move_succeeds [OF assms(1), of dest src ?e True False "[]" now] m ne assms(4) by (auto simp: strict_prefix_def)
  have e: "\<not> is_key_error (Inl ?e)" by (simp add: is_key_error_def)
  have "\<not> is_key_error r"
    using move_key_error [OF assms(1) e m] assms(4) by (auto simp: strict_prefix_def)
  with move_effect [OF assms(1) e m] s show ?thesis
    by (auto simp: fun_eq_iff moved_files_def copied_files_def)
qed

text \<open>
  A move onto the source itself or into a directory below it succeeds and deletes the source with
  everything in it.
\<close>

theorem move_below_itself_deletes:
  assumes "sound_tree root" and "mfs_move now src dest root = (r, root')"
    and "prefix (path_parts src) (path_parts dest)" and "path_parts src \<noteq> []"
    and "walk (path_parts src) root \<noteq> None" and "clear_way root (path_parts dest)"
  shows "r = Inr () \<and> files_at root' = (\<lambda>qs. if prefix (path_parts src) qs then None else files_at root qs)"
proof -
  let ?e = no_permission_error
  have m: "tree_move ?e True False [] now src dest root = (r, root')" using assms(2) by (simp add: mem_move_is)
  have "\<not> strict_prefix (path_parts dest) (path_parts src)" "path_parts dest \<noteq> []"
    using assms(3,4) by (auto simp: strict_prefix_def dest: prefix_order.antisym)
  then have "r = Inr ()"
    using move_succeeds [OF assms(1), of dest src ?e True False "[]" now] m assms(4-6) by simp
  with move_effect [OF assms(1) _ m] show ?thesis
    by (simp add: is_key_error_def moved_below [OF assms(3)])
qed

section \<open>Restarts\<close>

text \<open>
  C31. Whatever operations run on a JSON provider that began without a file, opening its file again gives
  the same provider, down to times, sizes and the order of children, unless nothing was ever saved.
\<close>

theorem json_restart:
  assumes "now0 \<noteq> []" and "\<forall>x \<in> set xs. fst x \<noteq> []"
    and "jfs_open now0 None = Inr s0" and "run_ops (\<lambda>(now, x). json_apply cd now x) xs s0 = (rs, s)"
  shows "jfs_open now1 (jp_file s) = Inr s \<or> s = s0"
proof -
  have s0: "s0 = \<lparr>jp_root = new_dir [] now0 [], jp_file = None\<rparr>"
    using assms(3) by (simp add: jfs_open_def jfs_load_def)
  have "persisted (jp_root s0) s0"
    using assms(1) by (simp add: s0 persisted_def json_ok_def sound_tree_def meta_new)
  from persisted_run [OF this assms(2,4)] show ?thesis
    by (auto simp: persisted_def jfs_open_def jfs_load_def from_to_dict s0)
qed

section \<open>Witnesses\<close>

text \<open>Latin-1 text is kept byte by byte, for the examples.\<close>

definition latin1 :: codec where
  "latin1 = \<lparr>cd_encode = (\<lambda>t. t), cd_decode = (\<lambda>b. b)\<rparr>"

definition sample_ops :: "(string \<times> fs_op) list" where
  "sample_ops = [(''t1'', Op_write ''/a/b'' (Text ''hi'')), (''t2'', Op_copy ''a'' ''c'')]"

definition sample_mem :: "(fs_error + unit) list \<times> bytes_node" where
  "sample_mem = run_ops (\<lambda>(now, x). mem_apply latin1 now x) sample_ops (new_mem_files ''t0'')"

definition sample_start :: json_fs where
  "sample_start = \<lparr>jp_root = new_dir [] ''t0'' [], jp_file = None\<rparr>"

definition sample_json :: "(fs_error + unit) list \<times> json_fs" where
  "sample_json = run_ops (\<lambda>(now, x). json_apply latin1 now x) sample_ops sample_start"

lemma sample_open: "jfs_open ''t0'' None = Inr sample_start"
  by (simp add: jfs_open_def jfs_load_def sample_start_def)


theorem written_text_is_read_witness:
  "mfs_read_file latin1 ''/a/b''
     (snd (run_ops (\<lambda>(now, x). mem_apply latin1 now x) [(''t2'', Op_copy ''a'' ''c'')]
       (snd (mfs_write_file latin1 ''t1'' ''/a/b'' (Text ''hi'') (new_mem_files ''t0''))))) = Inr ''hi''"
proof (rule written_text_is_read [where rs = "[Inr ()]"])
  show "mfs_write_file latin1 ''t1'' ''/a/b'' (Text ''hi'') (new_mem_files ''t0'')
      = (Inr (), snd (mfs_write_file latin1 ''t1'' ''/a/b'' (Text ''hi'') (new_mem_files ''t0'')))"
    by code_simp
  show "run_ops (\<lambda>(now, x). mem_apply latin1 now x) [(''t2'', Op_copy ''a'' ''c'')]
        (snd (mfs_write_file latin1 ''t1'' ''/a/b'' (Text ''hi'') (new_mem_files ''t0'')))
      = ([Inr ()], snd (run_ops (\<lambda>(now, x). mem_apply latin1 now x) [(''t2'', Op_copy ''a'' ''c'')]
          (snd (mfs_write_file latin1 ''t1'' ''/a/b'' (Text ''hi'') (new_mem_files ''t0'')))))"
    by code_simp
  show "\<forall>x \<in> set [(''t2'', Op_copy ''a'' ''c'')]. \<not> touches (snd x) (path_parts ''/a/b'')" by code_simp
qed (simp_all add: latin1_def new_mem_sound)

definition sample_tree :: bytes_node where
  "sample_tree = snd (mfs_write_file latin1 ''t1'' ''/a/b'' (Text ''hi'') (new_mem_files ''t0''))"

lemma sample_tree_sound: "sound_tree sample_tree"
  by (simp add: sound_tree_def) code_simp

theorem move_exact_witness:
  "fst (mfs_move ''t2'' ''a'' ''c'' sample_tree) = Inr ()
   \<and> files_at (snd (mfs_move ''t2'' ''a'' ''c'' sample_tree)) [''c'', ''b''] = Some ''hi''"
proof -
  obtain r root' where m: "mfs_move ''t2'' ''a'' ''c'' sample_tree = (r, root')" by fastforce
  have p: "path_parts ''a'' = [''a'']" "path_parts ''c'' = [''c'']" by code_simp+
  have t: "walk [''a''] sample_tree \<noteq> None" "clear_way sample_tree [''c'']"
    "files_at sample_tree [''a'', ''b''] = Some ''hi''" by code_simp+
  show ?thesis using move_exact [OF sample_tree_sound m] t by (simp add: p m)
qed

theorem move_below_itself_deletes_witness:
  "fst (mfs_move ''t2'' ''a'' ''a'' sample_tree) = Inr ()
   \<and> files_at sample_tree [''a'', ''b''] = Some ''hi''
   \<and> files_at (snd (mfs_move ''t2'' ''a'' ''a'' sample_tree)) [''a'', ''b''] = None"
proof -
  obtain r root' where m: "mfs_move ''t2'' ''a'' ''a'' sample_tree = (r, root')" by fastforce
  have p: "path_parts ''a'' = [''a'']" by code_simp
  have t: "walk [''a''] sample_tree \<noteq> None" "clear_way sample_tree [''a'']"
    "files_at sample_tree [''a'', ''b''] = Some ''hi''" by code_simp+
  show ?thesis using move_below_itself_deletes [OF sample_tree_sound m] t by (simp add: p m)
qed

theorem json_restart_witness: "jfs_open ''t9'' (jp_file (snd sample_json)) = Inr (snd sample_json)"
proof -
  have "jfs_open ''t9'' (jp_file (snd sample_json)) = Inr (snd sample_json) \<or> snd sample_json = sample_start"
    by (rule json_restart [where xs = sample_ops and rs = "fst sample_json" and cd = latin1, OF _ _ sample_open])
      (simp_all add: sample_ops_def sample_json_def)
  moreover have "jp_file (snd sample_json) \<noteq> None" by code_simp
  ultimately show ?thesis by (auto simp: sample_start_def)
qed

end
