(* ===== verification/ShellWords.thy ===== *)
theory ShellWords
  imports Prelude
begin

text \<open>
  The arguments of a command line: shell-style word splitting (\<open>shell_words.py\<close>), the command a processor
  gets (\<open>cli_process_command.py\<close>) and the \<open>--skip\<close>/\<open>--take\<close> convention (\<open>cli_paging.py\<close>).  The splitting
  loop is a recursion on the text that is left; its reference is the grammar \<open>spells\<close> of quoted words.
\<close>

section \<open>Splitting\<close>

definition BS :: char where
  "BS = CHR 0x5C"

definition SQ :: char where
  "SQ = CHR 0x27"

definition DQ :: char where
  "DQ = CHR 0x22"

text \<open>The scan of a double-quoted part: its text and the rest after the closing quote.\<close>

function dquote :: "string \<Rightarrow> string \<Rightarrow> (string \<times> string) option" where
  "dquote buf text =
     (case text of
        [] \<Rightarrow> None
      | c # cs \<Rightarrow>
          if c = BS \<and> cs \<noteq> [] \<and> hd cs \<in> {DQ, BS} then dquote (buf @ [hd cs]) (tl cs)
          else if c = DQ then Some (buf, cs)
          else dquote (buf @ [c]) cs)"
  by pat_completeness auto
termination
  by (relation "measure (length \<circ> snd)") auto

declare dquote.simps [simp del]

text \<open>\<open>text.find("'", i + 1)\<close>: the text up to the quote and the rest after it.\<close>

definition squote :: "string \<Rightarrow> (string \<times> string) option" where
  "squote text = (if SQ \<in> set text
     then Some (takeWhile (\<lambda>c. c \<noteq> SQ) text, tl (dropWhile (\<lambda>c. c \<noteq> SQ) text)) else None)"

lemma dquote_shorter: "dquote buf t = Some (b, rest) \<Longrightarrow> length rest < length t"
proof (induction "length t" arbitrary: buf t rule: less_induct)
  case less
  show ?case
  proof (cases t)
    case Nil
    with less.prems show ?thesis by (simp add: dquote.simps)
  next
    case (Cons c cs)
    show ?thesis
    proof (cases "c = BS \<and> cs \<noteq> [] \<and> hd cs \<in> {DQ, BS}")
      case True
      with less.prems Cons have "dquote (buf @ [hd cs]) (tl cs) = Some (b, rest)"
        by (subst (asm) dquote.simps) simp
      with less.hyps [of "tl cs" "buf @ [hd cs]"] Cons show ?thesis by (cases cs) auto
    next
      case False
      with less.prems Cons have "c = DQ \<and> rest = cs \<or> dquote (buf @ [c]) cs = Some (b, rest)"
        by (subst (asm) dquote.simps) (auto split: if_splits)
      with less.hyps [of cs "buf @ [c]"] Cons show ?thesis by auto
    qed
  qed
qed

lemma squote_shorter: "squote t = Some (b, rest) \<Longrightarrow> length rest < length t"
proof -
  assume s: "squote t = Some (b, rest)"
  then have "SQ \<in> set t" "rest = tl (dropWhile (\<lambda>c. c \<noteq> SQ) t)" by (auto simp: squote_def split: if_splits)
  then show ?thesis
    using length_dropWhile_le [of "\<lambda>c. c \<noteq> SQ" t] by (cases "dropWhile (\<lambda>c. c \<noteq> SQ) t") auto
qed

text \<open>One step of the loop: what is added to the current word, and the text after it.\<close>

definition quoted_part :: "char \<Rightarrow> string \<Rightarrow> (string \<times> string) option" where
  "quoted_part ch rest =
     (if ch = BS \<and> rest \<noteq> [] then Some ([hd rest], tl rest)
      else if ch = SQ then squote rest
      else if ch = DQ then dquote [] rest
      else None)"

lemma quoted_part_shorter: "quoted_part ch rest = Some (b, r) \<Longrightarrow> length r < Suc (length rest)"
  by (auto simp: quoted_part_def less_Suc_eq split: if_splits dest: dquote_shorter squote_shorter)

function split_loop :: "string \<Rightarrow> bool \<Rightarrow> string list \<Rightarrow> string \<Rightarrow> string list" where
  "split_loop current in_word words text =
     (case text of
        [] \<Rightarrow> if in_word then words @ [current] else words
      | ch # rest \<Rightarrow>
          (case quoted_part ch rest of
             Some (part, after) \<Rightarrow> split_loop (current @ part) True words after
           | None \<Rightarrow>
               if py_isspace ch then split_loop [] False (if in_word then words @ [current] else words) rest
               else split_loop (current @ [ch]) True words rest))"
  by pat_completeness auto
termination
  by (relation "measure (\<lambda>(_, _, _, text). length text)") (auto dest: quoted_part_shorter)

declare split_loop.simps [simp del]

definition split_shell_words :: "string \<Rightarrow> string list" where
  "split_shell_words text = split_loop [] False [] text"

definition join_shell_words :: "string \<Rightarrow> string" where
  "join_shell_words text = py_join '' '' (split_shell_words text)"

section \<open>The command a processor gets\<close>

record cli_command =
  cmd_command :: string
  cmd_raw :: string
  cmd_value :: "string option"
  cmd_args :: "(string, json) dict"
  cmd_chain :: "string list"
  cmd_data :: json
  cmd_positionals :: "string list option"

definition get_positionals :: "cli_command \<Rightarrow> string list" where
  "get_positionals command =
     (case cmd_positionals command of
        Some ps \<Rightarrow> ps
      | None \<Rightarrow> split_shell_words (case cmd_value command of None \<Rightarrow> [] | Some v \<Rightarrow> v))"

definition get_positional_text :: "cli_command \<Rightarrow> string" where
  "get_positional_text command = py_join '' '' (get_positionals command)"

section \<open>Paging\<close>

definition DEFAULT_TAKE :: int where
  "DEFAULT_TAKE = 50"

definition MAX_TAKE :: int where
  "MAX_TAKE = 500"

record page_request =
  pr_skip :: int
  pr_take :: int

text \<open>The text of a list or an object is never a number.\<close>

definition read_int :: "cli_command \<Rightarrow> string \<Rightarrow> int option" where
  "read_int command name =
     (case dget (cmd_args command) name of
        None \<Rightarrow> None
      | Some v \<Rightarrow> (case v of JInt i \<Rightarrow> Some i | JStr s \<Rightarrow> py_int s | _ \<Rightarrow> None))"

definition page_from_command :: "cli_command \<Rightarrow> int \<Rightarrow> page_request" where
  "page_from_command command default_take =
     \<lparr>pr_skip = (case read_int command ''skip'' of None \<Rightarrow> 0 | Some s \<Rightarrow> max s 0),
      pr_take = min (case read_int command ''take'' of None \<Rightarrow> default_take
                     | Some t \<Rightarrow> if t > 0 then t else default_take) MAX_TAKE\<rparr>"

section \<open>The grammar of quoted words\<close>

text \<open>
  \<open>dspells d w\<close>: between double quotes the text \<open>d\<close> stands for \<open>w\<close>; \<open>spells s w\<close>: the spelling \<open>s\<close>, which
  ends where a blank follows, stands for the word \<open>w\<close>.
\<close>

inductive dspells :: "string \<Rightarrow> string \<Rightarrow> bool" where
  dspells_Nil: "dspells [] []"
| dspells_escape: "dspells d w \<Longrightarrow> c \<in> {DQ, BS} \<Longrightarrow> dspells (BS # c # d) (c # w)"
| dspells_backslash: "dspells d w \<Longrightarrow> d \<noteq> [] \<Longrightarrow> hd d \<notin> {DQ, BS} \<Longrightarrow> dspells (BS # d) (BS # w)"
| dspells_char: "dspells d w \<Longrightarrow> c \<notin> {DQ, BS} \<Longrightarrow> dspells (c # d) (c # w)"

inductive spells :: "string \<Rightarrow> string \<Rightarrow> bool" where
  spells_Nil: "spells [] []"
| spells_char: "spells s w \<Longrightarrow> c \<notin> {BS, SQ, DQ} \<Longrightarrow> \<not> py_isspace c \<Longrightarrow> spells (c # s) (c # w)"
| spells_escape: "spells s w \<Longrightarrow> spells (BS # c # s) (c # w)"
| spells_single: "spells s w \<Longrightarrow> SQ \<notin> set q \<Longrightarrow> spells (SQ # q @ SQ # s) (q @ w)"
| spells_double: "spells s w \<Longrightarrow> dspells d q \<Longrightarrow> spells (DQ # d @ DQ # s) (q @ w)"

lemma quote_chars [simp]: "BS \<noteq> SQ" "BS \<noteq> DQ" "SQ \<noteq> DQ" "SQ \<noteq> BS" "DQ \<noteq> BS" "DQ \<noteq> SQ"
  by (simp_all add: BS_def SQ_def DQ_def)

lemma dquote_spelled: "dspells d w \<Longrightarrow> dquote buf (d @ DQ # rest) = Some (buf @ w, rest)"
proof (induction arbitrary: buf rule: dspells.induct)
  case dspells_Nil
  then show ?case by (subst dquote.simps) simp
next
  case (dspells_escape d w c)
  then show ?case by (subst dquote.simps) auto
next
  case (dspells_backslash d w)
  then show ?case by (subst dquote.simps) (cases d; auto)
next
  case (dspells_char d w c)
  then show ?case by (subst dquote.simps) auto
qed

lemma squote_spelled: "SQ \<notin> set q \<Longrightarrow> squote (q @ SQ # rest) = Some (q, rest)"
  by (simp add: squote_def takeWhile_append dropWhile_append takeWhile_eq_all_conv)

lemma split_spelled:
  "spells s w \<Longrightarrow> split_loop current in_word words (s @ rest) = split_loop (current @ w) (in_word \<or> s \<noteq> []) words rest"
proof (induction arbitrary: current in_word rule: spells.induct)
  case spells_Nil
  then show ?case by simp
next
  case (spells_char s w c)
  then show ?case by (subst split_loop.simps) (auto simp: quoted_part_def)
next
  case (spells_escape s w c)
  then show ?case by (subst split_loop.simps) (auto simp: quoted_part_def)
next
  case (spells_single s w q)
  then show ?case by (subst split_loop.simps) (auto simp: quoted_part_def squote_spelled)
next
  case (spells_double s w d q)
  then show ?case by (subst split_loop.simps) (auto simp: quoted_part_def dquote_spelled)
qed

lemma blank_not_quote: "py_isspace c \<Longrightarrow> c \<notin> {BS, SQ, DQ}"
  by (auto simp: py_isspace_def BS_def SQ_def DQ_def)

lemma split_blank: "py_isspace c \<Longrightarrow>
    split_loop current in_word words (c # rest) = split_loop [] False (if in_word then words @ [current] else words) rest"
  using blank_not_quote [of c] by (subst split_loop.simps) (auto simp: quoted_part_def)

lemma split_blanks:
  "list_all py_isspace gap \<Longrightarrow> gap \<noteq> [] \<Longrightarrow>
     split_loop current in_word words (gap @ rest) = split_loop [] False (if in_word then words @ [current] else words) rest"
proof (induction gap arbitrary: current in_word words)
  case (Cons c gap)
  then show ?case by (cases "gap = []") (simp_all add: split_blank)
qed simp

lemma split_joined:
  "list_all2 (\<lambda>s w. s \<noteq> [] \<and> spells s w) ss ws \<Longrightarrow> list_all py_isspace gap \<Longrightarrow> gap \<noteq> [] \<Longrightarrow>
     split_loop [] False words (py_join gap ss) = words @ ws"
proof (induction gap ss arbitrary: ws words rule: py_join.induct)
  case (1 sep)
  then show ?case by (simp add: split_loop.simps)
next
  case (2 sep s)
  then obtain w where w: "ws = [w]" "spells s w" "s \<noteq> []" by (auto simp: list_all2_Cons1)
  show ?case using split_spelled [OF w(2), of "[]" False words "[]"] w by (simp add: split_loop.simps)
next
  case (3 sep s s' ss)
  then obtain w ws' where w: "ws = w # ws'" "spells s w" "s \<noteq> []" and rest: "list_all2 (\<lambda>s w. s \<noteq> [] \<and> spells s w) (s' # ss) ws'"
    by (auto simp: list_all2_Cons1)
  show ?case
    using split_spelled [OF w(2), of "[]" False words "sep @ py_join sep (s' # ss)"] w(1,3) "3.IH" [OF rest "3.prems"(2,3), of "words @ [w]"]
      split_blanks [OF "3.prems"(2,3), of w True words "py_join sep (s' # ss)"]
    by simp
qed

section \<open>Splitting follows the grammar\<close>

text \<open>
  C36. Words spelled by the rules of the shell (plain characters, backslash escapes, literal single
  quotes, double quotes with their two escapes, in any combination) and separated by blanks are split into
  exactly those words, whatever characters the words contain.
\<close>

theorem split_shell_words_grammar:
  assumes "list_all2 (\<lambda>s w. s \<noteq> [] \<and> spells s w) ss ws" and "list_all py_isspace gap" and "gap \<noteq> []"
  shows "split_shell_words (py_join gap ss) = ws"
  using split_joined [OF assms, of "[]"] by (simp add: split_shell_words_def)

theorem split_shell_words_grammar_witness:
  "split_shell_words (py_join '' '' [''x'' @ [BS, CHR '' '', CHR ''y''], [SQ, DQ, SQ, DQ, BS, DQ, SQ, DQ], [SQ, SQ]])
     = [''x y'', [DQ, DQ, SQ], []]"
proof (rule split_shell_words_grammar)
  have 1: "spells (''x'' @ [BS, CHR '' '', CHR ''y'']) ''x y''"
    using spells_char [OF spells_escape [OF spells_char [OF spells_Nil], of "CHR ''y''" "CHR '' ''"], of "CHR ''x''"]
    by (simp add: BS_def SQ_def DQ_def py_isspace_def)
  have "dspells [BS, DQ, SQ] [DQ, SQ]"
    using dspells_escape [OF dspells_char [OF dspells_Nil, of SQ], of DQ] by simp
  then have "spells [DQ, BS, DQ, SQ, DQ] [DQ, SQ]" using spells_double [OF spells_Nil] by fastforce
  then have 2: "spells [SQ, DQ, SQ, DQ, BS, DQ, SQ, DQ] [DQ, DQ, SQ]"
    using spells_single [of "[DQ, BS, DQ, SQ, DQ]" "[DQ, SQ]" "[DQ]"] by simp
  have 3: "spells [SQ, SQ] []" using spells_single [OF spells_Nil, of "[]"] by simp
  show "list_all2 (\<lambda>s w. s \<noteq> [] \<and> spells s w)
      [''x'' @ [BS, CHR '' '', CHR ''y''], [SQ, DQ, SQ, DQ, BS, DQ, SQ, DQ], [SQ, SQ]] [''x y'', [DQ, DQ, SQ], []]"
    using 1 2 3 by simp
qed (simp_all add: py_isspace_def)

lemma page_bounds:
  "1 \<le> default_take \<Longrightarrow> 0 \<le> pr_skip (page_from_command command default_take)
     \<and> 1 \<le> pr_take (page_from_command command default_take) \<and> pr_take (page_from_command command default_take) \<le> 500"
  by (auto simp: page_from_command_def MAX_TAKE_def split: option.split)

end
