(* ===== verification/Commands.thy ===== *)
theory Commands
  imports ShellWords AuthService "HOL-Library.Product_Lexorder"
begin

text \<open>
  Commands: the registry of processors (\<open>cli_command_registry.py\<close>), the permission check of the execute
  routes (\<open>cli_controller.py\<close>, \<open>security.py\<close>), the executor (\<open>cli_command_executor_service.py\<close>) with its
  usage counters (\<open>cli_command_usage.py\<close>), the row limit (\<open>cli_output_limits.py\<close>) and the response builder
  (\<open>cli_response_builder.py\<close>).  What a processor does is the record \<open>handlers\<close>: plugins provide it.
\<close>

section \<open>Outputs\<close>

record table_page =
  tp_skip :: int
  tp_take :: int
  tp_total :: "int option"
  tp_has_more :: bool
  tp_truncated :: "bool option"

datatype cli_output =
    Out_text string "string option"
  | Out_table "string list" "string list list" "table_page option"
  | Out_list "string list" "bool option"
  | Out_json json
  | Out_key_value "(string \<times> string) list"

record response =
  rs_exit_code :: int
  rs_outputs :: "cli_output list"

definition DEFAULT_MAX_TABLE_ROWS :: int where
  "DEFAULT_MAX_TABLE_ROWS = 200"

definition truncated_page :: "int \<Rightarrow> int \<Rightarrow> table_page" where
  "truncated_page max_rows all_rows =
     \<lparr>tp_skip = 0, tp_take = max_rows, tp_total = Some all_rows, tp_has_more = True, tp_truncated = Some True\<rparr>"

definition apply_output_limits :: "int \<Rightarrow> cli_output \<Rightarrow> cli_output" where
  "apply_output_limits max_rows out =
     (if max_rows \<le> 0 then out
      else (case out of
              Out_table headers rows page \<Rightarrow>
                if page \<noteq> None \<or> int (length rows) \<le> max_rows then out
                else Out_table headers (take (nat max_rows) rows)
                       (Some (truncated_page max_rows (int (length rows))))
            | _ \<Rightarrow> out))"

definition apply_response_limits :: "int \<Rightarrow> response \<Rightarrow> response" where
  "apply_response_limits max_rows resp =
     (if max_rows \<le> 0 then resp
      else resp\<lparr>rs_outputs := map (apply_output_limits max_rows) (rs_outputs resp)\<rparr>)"

text \<open>The response builder: its state is the exit code and the outputs so far.\<close>

definition new_builder :: response where
  "new_builder = \<lparr>rs_exit_code = 0, rs_outputs = []\<rparr>"

definition write_output :: "cli_output \<Rightarrow> response \<Rightarrow> response" where
  "write_output out b = b\<lparr>rs_outputs := rs_outputs b @ [out]\<rparr>"

definition write_text :: "string \<Rightarrow> string option \<Rightarrow> response \<Rightarrow> response" where
  "write_text t style = write_output (Out_text t style)"

definition write_table :: "string list \<Rightarrow> string list list \<Rightarrow> response \<Rightarrow> response" where
  "write_table headers rows = write_output (Out_table headers rows None)"

definition write_paged_table ::
    "string list \<Rightarrow> string list list \<Rightarrow> page_request \<Rightarrow> int option \<Rightarrow> bool option \<Rightarrow> response \<Rightarrow> response" where
  "write_paged_table headers rows page known_total has_more =
     write_output (Out_table headers rows (Some
       \<lparr>tp_skip = pr_skip page, tp_take = pr_take page, tp_total = known_total,
        tp_has_more = (case has_more of Some h \<Rightarrow> h
          | None \<Rightarrow> (case known_total of None \<Rightarrow> False | Some t \<Rightarrow> pr_skip page + int (length rows) < t)),
        tp_truncated = None\<rparr>))"

definition write_list :: "string list \<Rightarrow> bool \<Rightarrow> response \<Rightarrow> response" where
  "write_list xs ordered = write_output (Out_list xs (if ordered then Some True else None))"

definition write_json :: "json \<Rightarrow> response \<Rightarrow> response" where
  "write_json v = write_output (Out_json v)"

definition write_key_value :: "(string, string) dict \<Rightarrow> response \<Rightarrow> response" where
  "write_key_value kvs = write_output (Out_key_value kvs)"

definition set_exit_code :: "int \<Rightarrow> response \<Rightarrow> response" where
  "set_exit_code code b = b\<lparr>rs_exit_code := code\<rparr>"

definition build_response :: "response \<Rightarrow> response" where
  "build_response b = \<lparr>rs_exit_code = rs_exit_code b, rs_outputs = rs_outputs b\<rparr>"

section \<open>Processors and the registry\<close>

datatype processor =
  Processor (pc_command: string) (pc_allow_unlisted: bool) (pc_processors: "processor list")
    (pc_required_permissions: "string list")

type_synonym registry = "(string, processor) dict"

definition registry_processors :: "registry \<Rightarrow> processor list" where
  "registry_processors r = dvalues r"

definition registry_register :: "processor \<Rightarrow> registry \<Rightarrow> registry" where
  "registry_register p r = dset (py_lower (pc_command p)) p r"

definition sub_named :: "string \<Rightarrow> processor list \<Rightarrow> processor option" where
  "sub_named name ps = List.find (\<lambda>p. py_lower (pc_command p) = py_lower name) ps"

fun resolve_chain :: "processor \<Rightarrow> string list \<Rightarrow> processor option" where
  "resolve_chain current [] = Some current"
| "resolve_chain current (sub # rest) =
     (let subs = pc_processors current; stop = (if pc_allow_unlisted current then Some current else None)
      in if subs = [] then stop
         else (case sub_named sub subs of None \<Rightarrow> stop | Some found \<Rightarrow> resolve_chain found rest))"

definition find_processor :: "registry \<Rightarrow> string \<Rightarrow> string list \<Rightarrow> processor option" where
  "find_processor r command chain =
     (case dget r (py_lower command) of
        None \<Rightarrow> None
      | Some p \<Rightarrow> if chain \<noteq> [] then resolve_chain p chain else Some p)"

section \<open>The permission check\<close>

fun chain_processors :: "processor \<Rightarrow> string list \<Rightarrow> processor list" where
  "chain_processors current [] = []"
| "chain_processors current (name # rest) =
     (case sub_named name (pc_processors current) of
        None \<Rightarrow> [] | Some found \<Rightarrow> found # chain_processors found rest)"

definition add_missing :: "(string \<Rightarrow> bool) \<Rightarrow> string list \<Rightarrow> string \<Rightarrow> string list" where
  "add_missing can missing perm = (if \<not> can perm \<and> perm \<notin> set missing then missing @ [perm] else missing)"

definition missing_processor_permissions :: "auth_context option \<Rightarrow> processor option list \<Rightarrow> string list" where
  "missing_processor_permissions ctx procs =
     (case ctx of
        None \<Rightarrow> []
      | Some c \<Rightarrow> foldl (add_missing (ctx_can c)) []
          (concat (map (\<lambda>p. case p of None \<Rightarrow> [] | Some q \<Rightarrow> pc_required_permissions q) procs)))"

text \<open>The 403 answer: the missing permissions, in the order they are named in its text.\<close>

definition permission_denied :: "registry \<Rightarrow> auth_context option \<Rightarrow> string \<Rightarrow> string list \<Rightarrow> string list option" where
  "permission_denied r ctx command chain =
     (case ctx of
        None \<Rightarrow> None
      | Some _ \<Rightarrow>
          (let root = find_processor r command []; resolved = find_processor r command chain;
               along = (case root of None \<Rightarrow> [] | Some p \<Rightarrow> chain_processors p chain);
               missing = missing_processor_permissions ctx (root # map Some along @ [resolved])
           in if missing \<noteq> [] then Some missing else None))"

section \<open>Usage counters\<close>

record usage =
  ug_known :: bool
  ug_executions :: nat
  ug_failures :: nat
  ug_total_duration :: int
  ug_last_executed_at :: "int option"
  ug_last_failed_at :: "int option"

record usage_call =
  uc_command :: string
  uc_known :: bool
  uc_duration :: int
  uc_failed :: bool
  uc_at :: int

definition new_usage :: "bool \<Rightarrow> usage" where
  "new_usage known = \<lparr>ug_known = known, ug_executions = 0, ug_failures = 0, ug_total_duration = 0,
     ug_last_executed_at = None, ug_last_failed_at = None\<rparr>"

definition count_use :: "usage_call \<Rightarrow> usage \<Rightarrow> usage" where
  "count_use c u =
     (let u1 = u\<lparr>ug_known := ug_known u \<or> uc_known c, ug_executions := ug_executions u + 1,
                 ug_total_duration := ug_total_duration u + max (uc_duration c) 0,
                 ug_last_executed_at := Some (uc_at c)\<rparr>
      in if uc_failed c then u1\<lparr>ug_failures := ug_failures u1 + 1, ug_last_failed_at := Some (uc_at c)\<rparr> else u1)"

definition usage_record :: "usage_call \<Rightarrow> (string, usage) dict \<Rightarrow> (string, usage) dict" where
  "usage_record c d =
     (let name = py_lower (py_strip (uc_command c))
      in if name = [] then d
         else dset name (count_use c (case dget d name of None \<Rightarrow> new_usage (uc_known c) | Some u \<Rightarrow> u)) d)"

definition usage_snapshot :: "(string, usage) dict \<Rightarrow> (string \<times> usage) list" where
  "usage_snapshot d = sort_key (\<lambda>(name, u). (- int (ug_executions u), name)) d"

section \<open>The executor\<close>

datatype exec_error = Raises string | Cancels

record handlers =
  hn_structured :: "processor \<Rightarrow> cli_command \<Rightarrow> exec_error + response option"
  hn_plain :: "processor \<Rightarrow> cli_command \<Rightarrow> exec_error + string"
  hn_stream :: "processor \<Rightarrow> (cli_command \<Rightarrow> cli_output list \<times> (exec_error + int option)) option"

record executed_event =
  ee_command :: string
  ee_success :: bool
  ee_duration :: int
  ee_user :: "string option"

record executor =
  ex_registry :: registry
  ex_filters :: "(processor \<Rightarrow> bool) list"
  ex_max_rows :: int
  ex_has_bus :: bool
  ex_usage :: "(string, usage) dict"
  ex_events :: "executed_event list"

definition error_response :: "string \<Rightarrow> response" where
  "error_response msg = \<lparr>rs_exit_code = 1, rs_outputs = [Out_text msg (Some ''error'')]\<rparr>"

definition add_filter :: "(processor \<Rightarrow> bool) \<Rightarrow> executor \<Rightarrow> executor" where
  "add_filter f s = s\<lparr>ex_filters := ex_filters s @ [f]\<rparr>"

definition is_blocked :: "executor \<Rightarrow> processor \<Rightarrow> bool" where
  "is_blocked s p = list_ex (\<lambda>f. \<not> f p) (ex_filters s)"

definition run_processor :: "handlers \<Rightarrow> executor \<Rightarrow> processor \<Rightarrow> cli_command \<Rightarrow> exec_error + response" where
  "run_processor h s p cmd =
     (case (case hn_structured h p cmd of
              Inl e \<Rightarrow> Inl e
            | Inr (Some resp) \<Rightarrow> Inr (apply_response_limits (ex_max_rows s) resp)
            | Inr None \<Rightarrow>
                (case hn_plain h p cmd of
                   Inl e \<Rightarrow> Inl e
                 | Inr result \<Rightarrow> Inr \<lparr>rs_exit_code = 0, rs_outputs = [Out_text result None]\<rparr>)) of
        Inl (Raises msg) \<Rightarrow> Inr (error_response (''Error executing command: '' @ msg))
      | r \<Rightarrow> r)"

definition executor_execute :: "handlers \<Rightarrow> executor \<Rightarrow> cli_command \<Rightarrow> exec_error + response" where
  "executor_execute h s cmd =
     (case find_processor (ex_registry s) (cmd_command cmd) (cmd_chain cmd) of
        None \<Rightarrow> Inr (error_response (''Unknown command: '' @ cmd_command cmd))
      | Some p \<Rightarrow>
          if is_blocked s p
          then Inr (error_response (''Command '' @ [SQ] @ cmd_command cmd @ [SQ] @ '' is currently disabled.''))
          else run_processor h s p cmd)"

text \<open>\<open>name.split()[0]\<close> of a stripped, non-empty name.\<close>

definition first_word :: "string \<Rightarrow> string" where
  "first_word name = takeWhile (\<lambda>c. \<not> py_isspace c) name"

definition record_usage :: "int \<Rightarrow> string \<Rightarrow> int \<Rightarrow> bool \<Rightarrow> executor \<Rightarrow> executor" where
  "record_usage now command duration bad s =
     (let name = py_strip command; p = find_processor (ex_registry s) name []
      in if name = [] then s
         else s\<lparr>ex_usage := usage_record
                  \<lparr>uc_command = (case p of None \<Rightarrow> first_word name | Some q \<Rightarrow> pc_command q),
                   uc_known = (p \<noteq> None), uc_duration = duration, uc_failed = bad, uc_at = now\<rparr> (ex_usage s)\<rparr>)"

definition notify_executed :: "string \<Rightarrow> int \<Rightarrow> bool \<Rightarrow> string option \<Rightarrow> executor \<Rightarrow> executor" where
  "notify_executed command duration bad user s =
     (let name = py_strip command
      in if \<not> ex_has_bus s \<or> name = [] then s
         else (case find_processor (ex_registry s) name [] of
                 None \<Rightarrow> s
               | Some p \<Rightarrow> s\<lparr>ex_events := ex_events s @
                   [\<lparr>ee_command = pc_command p, ee_success = (\<not> bad), ee_duration = duration, ee_user = user\<rparr>]\<rparr>))"

text \<open>\<open>execute_async\<close>: \<open>now\<close> and \<open>duration\<close> are the clock at its end and the time it took, in milliseconds.\<close>

definition has_failed :: "exec_error + response \<Rightarrow> bool" where
  "has_failed r = (case r of Inl _ \<Rightarrow> True | Inr resp \<Rightarrow> rs_exit_code resp \<noteq> 0)"

definition execute_async ::
    "handlers \<Rightarrow> int \<Rightarrow> int \<Rightarrow> string option \<Rightarrow> cli_command \<Rightarrow> executor \<Rightarrow> (exec_error + response) \<times> executor" where
  "execute_async h now duration user cmd s =
     (let r = executor_execute h s cmd; bad = has_failed r
      in (r, notify_executed (cmd_command cmd) duration bad user
               (record_usage now (cmd_command cmd) duration bad s)))"

section \<open>The execute routes\<close>

datatype execute_answer =
    Missing_permissions "string list"
  | Executed "exec_error + response"

definition caller_user_id :: "auth_context option \<Rightarrow> string option" where
  "caller_user_id ctx =
     (case ctx of None \<Rightarrow> None | Some c \<Rightarrow> if u_id (cx_user c) = [] then None else Some (u_id (cx_user c)))"

definition execute_command ::
    "handlers \<Rightarrow> int \<Rightarrow> int \<Rightarrow> auth_context option \<Rightarrow> cli_command \<Rightarrow> executor \<Rightarrow> execute_answer \<times> executor" where
  "execute_command h now duration ctx cmd s =
     (case permission_denied (ex_registry s) ctx (cmd_command cmd) (cmd_chain cmd) of
        Some missing \<Rightarrow> (Missing_permissions missing, s)
      | None \<Rightarrow>
          (let (r, s1) = execute_async h now duration (caller_user_id ctx) cmd s in (Executed r, s1)))"

datatype sse = Sse_error string | Sse_output cli_output | Sse_done "int option"

text \<open>
  The stream of a command that is allowed: the events, and whether the run counts here as failed (\<open>None\<close>:
  the executor has counted it).
\<close>

definition stream_events ::
    "handlers \<Rightarrow> int \<Rightarrow> int \<Rightarrow> string option \<Rightarrow> cli_command \<Rightarrow> executor \<Rightarrow> sse list \<times> bool option \<times> executor" where
  "stream_events h now duration user cmd s =
     (case find_processor (ex_registry s) (cmd_command cmd) (cmd_chain cmd) of
        None \<Rightarrow> ([Sse_error (''Unknown command: '' @ cmd_command cmd)], Some True, s)
      | Some p \<Rightarrow>
          if is_blocked s p
          then ([Sse_error (''Command '' @ [SQ] @ cmd_command cmd @ [SQ] @ '' is currently disabled.'')], Some True, s)
          else (case hn_stream h p of
                  Some run \<Rightarrow>
                    (let (outs, result) = run cmd;
                         sent = map (Sse_output \<circ> apply_output_limits (ex_max_rows s)) outs
                     in (case result of
                           Inr code \<Rightarrow> (sent @ [Sse_done code], Some (code \<notin> {Some 0, None}), s)
                         | Inl (Raises msg) \<Rightarrow> (sent @ [Sse_error (''Error executing command: '' @ msg)], Some True, s)
                         | Inl Cancels \<Rightarrow> (sent, Some False, s)))
                | None \<Rightarrow>
                    (let (r, s1) = execute_async h now duration user cmd s
                     in (case r of
                           Inr resp \<Rightarrow> (map Sse_output (rs_outputs resp) @ [Sse_done (Some (rs_exit_code resp))], None, s1)
                         | Inl _ \<Rightarrow> ([], None, s1)))))"

definition execute_stream ::
    "handlers \<Rightarrow> int \<Rightarrow> int \<Rightarrow> auth_context option \<Rightarrow> cli_command \<Rightarrow> executor \<Rightarrow> (string list + sse list) \<times> executor" where
  "execute_stream h now duration ctx cmd s =
     (case permission_denied (ex_registry s) ctx (cmd_command cmd) (cmd_chain cmd) of
        Some missing \<Rightarrow> (Inl missing, s)
      | None \<Rightarrow>
          (let user = caller_user_id ctx; (events, usage_failed, s1) = stream_events h now duration user cmd s
           in (Inr events,
               case usage_failed of None \<Rightarrow> s1
               | Some bad \<Rightarrow> notify_executed (cmd_command cmd) duration bad user
                                  (record_usage now (cmd_command cmd) duration bad s1))))"

end
