(* ===== verification/CommandFacts.thy ===== *)
theory CommandFacts
  imports Commands
begin

text \<open>
  What holds of commands: only callers with every permission on the way to a processor run it, the usage
  counters are a summary of the executions, and no answer carries a longer unpaged table than the limit.
\<close>

section \<open>Permissions on the way to a processor\<close>

lemma resolved_on_chain: "resolve_chain root chain = Some p \<Longrightarrow> p \<in> set (root # chain_processors root chain)"
proof (induction chain arbitrary: root)
  case (Cons name chain)
  then show ?case
    by (cases "sub_named name (pc_processors root)") (auto simp: Let_def sub_named_def split: if_splits)
qed simp

lemma foldl_missing: "set (foldl (add_missing can) ms ps) = set ms \<union> {p \<in> set ps. \<not> can p}"
  by (induction ps arbitrary: ms) (auto simp: add_missing_def)

text \<open>The caller holds what the root and every processor along the chain ask for.\<close>

definition may_run :: "registry \<Rightarrow> auth_context \<Rightarrow> cli_command \<Rightarrow> bool" where
  "may_run r c cmd =
     (case find_processor r (cmd_command cmd) [] of
        None \<Rightarrow> True
      | Some root \<Rightarrow>
          list_all (\<lambda>q. list_all (ctx_can c) (pc_required_permissions q)) (root # chain_processors root (cmd_chain cmd)))"

lemma find_root: "find_processor r command [] = dget r (py_lower command)"
  by (simp add: find_processor_def split: option.split)

lemma find_on_chain:
  "find_processor r command chain = Some p \<Longrightarrow>
     \<exists>root. find_processor r command [] = Some root \<and> p \<in> set (root # chain_processors root chain)"
  using resolved_on_chain by (fastforce simp: find_processor_def split: option.splits if_splits)

lemma missing_set:
  "set (missing_processor_permissions (Some c) procs)
     = {m. \<not> ctx_can c m \<and> (\<exists>q. Some q \<in> set procs \<and> m \<in> set (pc_required_permissions q))}"
  by (auto simp: missing_processor_permissions_def foldl_missing split: option.splits)

lemma denied_iff: "permission_denied r (Some c) (cmd_command cmd) (cmd_chain cmd) = None \<longleftrightarrow> may_run r c cmd"
proof (cases "find_processor r (cmd_command cmd) []")
  case None
  then have "find_processor r (cmd_command cmd) (cmd_chain cmd) = None" by (auto simp: find_processor_def split: option.splits)
  with None show ?thesis
    by (auto simp: permission_denied_def may_run_def Let_def missing_processor_permissions_def)
next
  case (Some root)
  let ?ps = "root # chain_processors root (cmd_chain cmd)"
  let ?procs = "Some root # map Some (chain_processors root (cmd_chain cmd)) @ [find_processor r (cmd_command cmd) (cmd_chain cmd)]"
  have "Some q \<in> set ?procs \<longleftrightarrow> q \<in> set ?ps" for q
    using find_on_chain [of r "cmd_command cmd" "cmd_chain cmd" q] Some by (auto dest: sym)
  then have "set (missing_processor_permissions (Some c) ?procs)
      = {m. \<not> ctx_can c m \<and> (\<exists>q \<in> set ?ps. m \<in> set (pc_required_permissions q))}"
    unfolding missing_set by blast
  then have "missing_processor_permissions (Some c) ?procs = [] \<longleftrightarrow> may_run r c cmd"
    using Some by (auto simp: may_run_def list_all_iff simp flip: set_empty)
  with Some show ?thesis by (simp add: permission_denied_def Let_def)
qed

lemma denied_missing:
  assumes "permission_denied r (Some c) command chain = Some ms"
  shows "ms \<noteq> [] \<and> (\<forall>m \<in> set ms. \<not> ctx_can c m)"
proof -
  obtain procs where "ms = missing_processor_permissions (Some c) procs" "ms \<noteq> []"
    using assms by (auto simp: permission_denied_def Let_def split: if_splits)
  with missing_set [of c procs] show ?thesis by simp
qed

text \<open>
  C35. An authenticated caller's command runs, plainly or streamed, exactly when the caller holds every
  permission that the root processor and each processor along the chain declare; the processor that runs
  is one of these.  Otherwise the answer names permissions that are really missing, and nothing is
  counted, published or run.
\<close>

theorem execute_needs_permissions:
  assumes "execute_command h now duration (Some c) cmd s = (a, s1)"
    and "execute_stream h now duration (Some c) cmd s = (b, s2)"
  shows "((\<exists>r. a = Executed r) \<longleftrightarrow> may_run (ex_registry s) c cmd)
    \<and> ((\<exists>evs. b = Inr evs) \<longleftrightarrow> may_run (ex_registry s) c cmd)
    \<and> (\<not> may_run (ex_registry s) c cmd \<longrightarrow> s1 = s \<and> s2 = s \<and>
         (\<exists>ms. a = Missing_permissions ms \<and> b = Inl ms \<and> ms \<noteq> [] \<and> (\<forall>m \<in> set ms. \<not> ctx_can c m)))
    \<and> (\<forall>p. find_processor (ex_registry s) (cmd_command cmd) (cmd_chain cmd) = Some p \<longrightarrow>
         (\<exists>root. find_processor (ex_registry s) (cmd_command cmd) [] = Some root
            \<and> p \<in> set (root # chain_processors root (cmd_chain cmd))))"
proof (cases "permission_denied (ex_registry s) (Some c) (cmd_command cmd) (cmd_chain cmd)")
  case None
  with assms denied_iff [of "ex_registry s" c cmd] find_on_chain show ?thesis
    by (auto simp: execute_command_def execute_stream_def Let_def split: prod.splits)
next
  case (Some ms)
  with assms denied_iff [of "ex_registry s" c cmd] denied_missing [OF Some] find_on_chain show ?thesis
    by (auto simp: execute_command_def execute_stream_def)
qed

section \<open>Usage counters\<close>

definition call_name :: "usage_call \<Rightarrow> string" where
  "call_name c = py_lower (py_strip (uc_command c))"

definition usage_of :: "usage_call list \<Rightarrow> usage option" where
  "usage_of h =
     (if h = [] then None
      else Some \<lparr>ug_known = list_ex uc_known h, ug_executions = length h, ug_failures = length (filter uc_failed h),
                 ug_total_duration = sum_list (map (\<lambda>c. max (uc_duration c) 0) h),
                 ug_last_executed_at = Some (uc_at (last h)),
                 ug_last_failed_at = (if filter uc_failed h = [] then None else Some (uc_at (last (filter uc_failed h))))\<rparr>)"

definition record_all :: "usage_call list \<Rightarrow> (string, usage) dict" where
  "record_all cs = foldl (\<lambda>d c. usage_record c d) [] cs"

lemma count_use_snoc: "count_use c (case usage_of h of None \<Rightarrow> new_usage (uc_known c) | Some u \<Rightarrow> u) = the (usage_of (h @ [c]))"
  by (auto simp: usage_of_def count_use_def new_usage_def Let_def)

lemma record_all_get:
  "dget (record_all cs) name = (if name = [] then None else usage_of (filter (\<lambda>c. call_name c = name) cs))"
proof (induction cs rule: rev_induct)
  case Nil
  then show ?case by (simp add: record_all_def usage_of_def)
next
  case (snoc c cs)
  have "record_all (cs @ [c]) = usage_record c (record_all cs)" by (simp add: record_all_def)
  moreover have "usage_of (h @ [c]) = Some (the (usage_of (h @ [c])))" for h by (simp add: usage_of_def)
  ultimately show ?case
    using snoc count_use_snoc [of c "filter (\<lambda>c. call_name c = name) cs"]
    by (auto simp: usage_record_def Let_def dget_dset simp flip: call_name_def)
qed

text \<open>The calls that a run of commands makes to the counters.\<close>

record exec_request =
  rq_handlers :: handlers
  rq_now :: int
  rq_duration :: int
  rq_user :: "string option"
  rq_command :: cli_command

definition run_request :: "exec_request \<Rightarrow> executor \<Rightarrow> executor" where
  "run_request q s = snd (execute_async (rq_handlers q) (rq_now q) (rq_duration q) (rq_user q) (rq_command q) s)"

definition call_of :: "executor \<Rightarrow> exec_request \<Rightarrow> usage_call list" where
  "call_of s q =
     (let name = py_strip (cmd_command (rq_command q)); p = find_processor (ex_registry s) name []
      in if name = [] then []
         else [\<lparr>uc_command = (case p of None \<Rightarrow> first_word name | Some r \<Rightarrow> pc_command r), uc_known = (p \<noteq> None),
                uc_duration = rq_duration q,
                uc_failed = has_failed (executor_execute (rq_handlers q) s (rq_command q)), uc_at = rq_now q\<rparr>])"

lemma notify_same [simp]:
  "ex_usage (notify_executed cm d b u s) = ex_usage s" "ex_registry (notify_executed cm d b u s) = ex_registry s"
  "ex_filters (notify_executed cm d b u s) = ex_filters s" "ex_max_rows (notify_executed cm d b u s) = ex_max_rows s"
  by (simp_all add: notify_executed_def Let_def split: option.split)

lemma run_request_usage: "ex_usage (run_request q s) = foldl (\<lambda>d c. usage_record c d) (ex_usage s) (call_of s q)"
  by (simp add: run_request_def execute_async_def record_usage_def call_of_def Let_def)

lemma run_request_same:
  "ex_registry (run_request q s) = ex_registry s" "ex_filters (run_request q s) = ex_filters s"
  "ex_max_rows (run_request q s) = ex_max_rows s"
  by (simp_all add: run_request_def execute_async_def record_usage_def Let_def)

lemma execute_cong:
  assumes "ex_registry s' = ex_registry s" "ex_filters s' = ex_filters s" "ex_max_rows s' = ex_max_rows s"
  shows "executor_execute h s' = executor_execute h s"
proof -
  have "is_blocked s' = is_blocked s" "run_processor h s' = run_processor h s"
    by (simp_all add: fun_eq_iff is_blocked_def run_processor_def assms cong: option.case_cong sum.case_cong)
  then show ?thesis
    by (simp add: fun_eq_iff executor_execute_def assms cong: option.case_cong if_cong)
qed

lemma call_of_cong:
  "ex_registry s' = ex_registry s \<Longrightarrow> ex_filters s' = ex_filters s \<Longrightarrow> ex_max_rows s' = ex_max_rows s \<Longrightarrow>
     call_of s' = call_of s"
  using execute_cong [of s' s] by (auto simp: fun_eq_iff call_of_def Let_def)

lemma call_of_same: "call_of (run_request q s) = call_of s"
  by (rule call_of_cong) (simp_all add: run_request_same)

lemma run_requests_usage:
  "ex_usage (foldl (\<lambda>s q. run_request q s) s qs) = foldl (\<lambda>d c. usage_record c d) (ex_usage s) (concat (map (call_of s) qs))"
  by (induction qs arbitrary: s) (simp_all add: run_request_usage call_of_same)

text \<open>
  After any commands the counters of a name are the summary of the executions under it: their number,
  the failures among them, the time they took and when the last ones were, and only names that were
  executed have counters.
\<close>

theorem usage_summarises_executions:
  "dget (ex_usage (foldl (\<lambda>s q. run_request q s) (s\<lparr>ex_usage := []\<rparr>) qs)) name =
     (if name = [] then None
      else usage_of (filter (\<lambda>c. call_name c = name) (concat (map (call_of s) qs))))"
proof -
  have "call_of (s\<lparr>ex_usage := []\<rparr>) = call_of s"
    by (rule call_of_cong) simp_all
  then show ?thesis
    using run_requests_usage [of "s\<lparr>ex_usage := []\<rparr>" qs] record_all_get [of _ name] by (simp add: record_all_def)
qed

section \<open>The row limit\<close>

definition within_limit :: "int \<Rightarrow> cli_output \<Rightarrow> bool" where
  "within_limit max_rows out =
     (case out of Out_table _ rows None \<Rightarrow> int (length rows) \<le> max_rows | _ \<Rightarrow> True)"

lemma limit_output: "0 < max_rows \<Longrightarrow> within_limit max_rows (apply_output_limits max_rows out)"
  by (auto simp: within_limit_def apply_output_limits_def split: cli_output.split option.split)

lemma execute_within_limit:
  assumes "0 < ex_max_rows s" "executor_execute h s cmd = Inr resp"
  shows "list_all (within_limit (ex_max_rows s)) (rs_outputs resp)"
proof -
  have short: "within_limit k (Out_text a b)" for k a b by (simp add: within_limit_def)
  have lim: "list_all (within_limit (ex_max_rows s)) (rs_outputs (apply_response_limits (ex_max_rows s) r))" for r
    using assms(1) by (simp add: apply_response_limits_def list_all_iff limit_output)
  have "list_all (within_limit (ex_max_rows s)) (rs_outputs resp)" if "run_processor h s p cmd = Inr resp" for p
    using that lim short
    by (cases "hn_structured h p cmd"; cases "hn_plain h p cmd")
      (auto simp: run_processor_def error_response_def split: option.splits exec_error.splits)
  with assms(2) short show ?thesis
    by (auto simp: executor_execute_def error_response_def split: option.splits if_splits)
qed

section \<open>Witness\<close>

definition sample_caller :: auth_context where
  "sample_caller =
     \<lparr>cx_user = \<lparr>u_id = ''u1'', u_name = ''ada'', u_email = ''ada@example.org'', u_groups = [], u_disabled = False,
                u_must_change_password = False, u_home_dir = None, u_data = None, u_last_login_at = None,
                u_created_at = 0, u_updated_at = 0\<rparr>,
      cx_groups = [], cx_permissions = [''jobs:read''], cx_session = None, cx_token = None, cx_external = False,
      cx_api_token = None\<rparr>"

definition sample_executor :: executor where
  "sample_executor =
     \<lparr>ex_registry = registry_register
        (Processor ''jobs'' False [Processor ''run'' False [] [''jobs:manage'']] [''jobs:read'']) [],
      ex_filters = [], ex_max_rows = 200, ex_has_bus = True, ex_usage = [], ex_events = []\<rparr>"

definition sample_command :: "string list \<Rightarrow> cli_command" where
  "sample_command chain =
     \<lparr>cmd_command = ''jobs'', cmd_raw = ''jobs'', cmd_value = None, cmd_args = [], cmd_chain = chain,
      cmd_data = JNull, cmd_positionals = None\<rparr>"

definition sample_handlers :: handlers where
  "sample_handlers = \<lparr>hn_structured = (\<lambda>_ _. Inr None), hn_plain = (\<lambda>_ _. Inr ''ok''), hn_stream = (\<lambda>_. None)\<rparr>"

theorem execute_needs_permissions_witness:
  "(\<exists>r. fst (execute_command sample_handlers 0 1 (Some sample_caller) (sample_command []) sample_executor) = Executed r)
   \<and> snd (execute_command sample_handlers 0 1 (Some sample_caller) (sample_command [''run'']) sample_executor) = sample_executor"
proof -
  have m: "may_run (ex_registry sample_executor) sample_caller (sample_command [])"
    "\<not> may_run (ex_registry sample_executor) sample_caller (sample_command [''run''])" by code_simp+
  show ?thesis
    using execute_needs_permissions [OF prod.collapse [symmetric] prod.collapse [symmetric],
        of sample_handlers 0 1 sample_caller "sample_command []" sample_executor]
      execute_needs_permissions [OF prod.collapse [symmetric] prod.collapse [symmetric],
        of sample_handlers 0 1 sample_caller "sample_command [''run'']" sample_executor] m by blast
qed

end
