(* ===== verification/ShellSessions.thy ===== *)
theory ShellSessions
  imports AuthService
begin

text \<open>
  Remote shells: access modes and checks (\<open>shell_security.py\<close>), the session manager's authorisation, limits,
  session binding, watcher and audit (\<open>cli_shell_session_manager.py\<close>), and the users plugin as the owner of
  shell access (\<open>shell_access.py\<close>).  Times are milliseconds of a monotonic clock.  The owner is a record of
  functions over its own state \<open>'s\<close>; the pseudo-terminal itself is not modelled.
\<close>

section \<open>Options, requests and refusals\<close>

definition SHELL_PERMISSION :: string where "SHELL_PERMISSION = ''shell:execute''"
definition CLOSE_UNAUTHORIZED :: int where "CLOSE_UNAUTHORIZED = 4401"
definition CLOSE_FORBIDDEN :: int where "CLOSE_FORBIDDEN = 4403"
definition CLOSE_DISABLED :: int where "CLOSE_DISABLED = 4404"
definition CLOSE_TIMEOUT :: int where "CLOSE_TIMEOUT = 4408"
definition CLOSE_LIMIT :: int where "CLOSE_LIMIT = 4429"
definition MAX_SESSION_CHECK_INTERVAL :: int where "MAX_SESSION_CHECK_INTERVAL = 60000"
definition DEFAULT_SESSION_CHECK_INTERVAL :: int where "DEFAULT_SESSION_CHECK_INTERVAL = 30000"
definition TOUCH_INTERVAL :: int where "TOUCH_INTERVAL = 30000"

text \<open>A WebSocket upgrade as far as access looks at it; \<open>sq_auth\<close> is what the protection middleware has set.\<close>

record shell_request =
  sq_authorization :: "string option"
  sq_query_authorization :: "string option"
  sq_forwarded :: "string list"
  sq_peer :: "string option"
  sq_command :: "string option"
  sq_ticket :: "string option"
  sq_auth :: "auth_context option"

datatype verdict = Verdict bool | Verdict_raises

record shell_options =
  so_token :: "string option"
  so_authorize :: "(shell_request \<Rightarrow> verdict) option"
  so_allow_anonymous :: bool
  so_max_sessions_per_user :: int
  so_max_sessions :: int
  so_idle_timeout :: "int option"
  so_max_duration :: "int option"
  so_session_check_interval :: int
  so_trust_proxy :: trust_proxy

datatype shell_rejected = Rejected (rj_code: int) (rj_reason: string)

record shell_principal =
  pp_user_id :: string
  pp_user_name :: string
  pp_session_id :: "string option"
  pp_context :: auth_context

text \<open>What a session check answers: \<open>True\<close>, \<open>False\<close>, a reason, or an exception.\<close>

datatype active_answer = Is_active | Not_active | Ended_because string | Check_raises

record 's shell_provider =
  sp_resolve :: "shell_request \<Rightarrow> 's \<Rightarrow> shell_principal option \<times> 's"
  sp_can_open :: "shell_principal \<Rightarrow> bool"
  sp_is_active :: "shell_principal \<Rightarrow> 's \<Rightarrow> active_answer"
  sp_touch :: "shell_principal \<Rightarrow> 's \<Rightarrow> 's"
  sp_audit :: "string \<Rightarrow> shell_principal \<Rightarrow> (string, json) dict \<Rightarrow> 's \<Rightarrow> 's"

section \<open>Access modes and checks\<close>

datatype shell_mode = Mode_users | Mode_token | Mode_custom | Mode_anonymous | Mode_locked

definition resolve_mode :: "shell_options \<Rightarrow> bool \<Rightarrow> shell_mode" where
  "resolve_mode opts has_provider =
     (if has_provider then Mode_users
      else if (case so_token opts of None \<Rightarrow> False | Some t \<Rightarrow> t \<noteq> []) then Mode_token
      else if so_authorize opts \<noteq> None then Mode_custom
      else if so_allow_anonymous opts then Mode_anonymous
      else Mode_locked)"

definition presented_token :: "shell_request \<Rightarrow> string option" where
  "presented_token rq =
     (let non_empty = (\<lambda>v. case v of Some (x # xs) \<Rightarrow> Some (x # xs) | _ \<Rightarrow> None);
          value = (case non_empty (sq_authorization rq) of Some v \<Rightarrow> Some v | None \<Rightarrow> non_empty (sq_query_authorization rq))
      in case value of
           None \<Rightarrow> None
         | Some v \<Rightarrow>
             (let w = py_strip v
              in if py_lower (take 7 w) \<noteq> ''bearer '' then None else or_none (py_strip (drop 7 w))))"

definition tokens_equal :: "crypto \<Rightarrow> string \<Rightarrow> string \<Rightarrow> bool" where
  "tokens_equal c presented expected = (sha256_hex c presented = sha256_hex c expected)"

definition check_token :: "crypto \<Rightarrow> shell_request \<Rightarrow> string \<Rightarrow> shell_rejected + unit" where
  "check_token c rq expected =
     (case presented_token rq of
        None \<Rightarrow> Inl (Rejected CLOSE_UNAUTHORIZED ''login required'')
      | Some t \<Rightarrow> if tokens_equal c t expected then Inr () else Inl (Rejected CLOSE_FORBIDDEN ''forbidden''))"

definition check_authorize :: "shell_request \<Rightarrow> (shell_request \<Rightarrow> verdict) \<Rightarrow> shell_rejected + unit" where
  "check_authorize rq authorize =
     (if authorize rq = Verdict True then Inr () else Inl (Rejected CLOSE_FORBIDDEN ''forbidden''))"

definition remote_address :: "shell_options \<Rightarrow> shell_request \<Rightarrow> string" where
  "remote_address opts rq =
     (case forwarded_client_ip (sq_forwarded rq) (so_trust_proxy opts) of
        Some ip \<Rightarrow> ip
      | None \<Rightarrow> (case sq_peer rq of Some (x # xs) \<Rightarrow> x # xs | _ \<Rightarrow> ''unknown''))"

text \<open>\<open>_authorize\<close>: the mode's own check, then every configured token and callback.\<close>

definition configured_checks :: "crypto \<Rightarrow> shell_options \<Rightarrow> shell_request \<Rightarrow> shell_rejected + unit" where
  "configured_checks c opts rq =
     (case (case so_token opts of None \<Rightarrow> Inr () | Some t \<Rightarrow> if t = [] then Inr () else check_token c rq t) of
        Inl e \<Rightarrow> Inl e
      | Inr _ \<Rightarrow> (case so_authorize opts of None \<Rightarrow> Inr () | Some f \<Rightarrow> check_authorize rq f))"

definition shell_authorize ::
    "crypto \<Rightarrow> shell_options \<Rightarrow> 's shell_provider option \<Rightarrow> shell_request \<Rightarrow> 's
       \<Rightarrow> (shell_rejected + shell_mode \<times> shell_principal option) \<times> 's" where
  "shell_authorize c opts provider rq s =
     (case resolve_mode opts (provider \<noteq> None) of
        Mode_locked \<Rightarrow> (Inl (Rejected CLOSE_UNAUTHORIZED ''shell access is not configured''), s)
      | Mode_anonymous \<Rightarrow> (Inr (Mode_anonymous, None), s)
      | Mode_users \<Rightarrow>
          (let pr = the provider; (p, s1) = sp_resolve pr rq s
           in case p of
                None \<Rightarrow> (Inl (Rejected CLOSE_UNAUTHORIZED ''login required''), s1)
              | Some owner \<Rightarrow>
                  if \<not> sp_can_open pr owner then (Inl (Rejected CLOSE_FORBIDDEN ''forbidden''), s1)
                  else (case configured_checks c opts rq of
                          Inl e \<Rightarrow> (Inl e, s1) | Inr _ \<Rightarrow> (Inr (Mode_users, Some owner), s1)))
      | mode \<Rightarrow>
          (case configured_checks c opts rq of Inl e \<Rightarrow> (Inl e, s) | Inr _ \<Rightarrow> (Inr (mode, None), s)))"

section \<open>Sessions\<close>

record shell_session =
  sh_id :: string
  sh_mode :: shell_mode
  sh_kind :: string
  sh_key :: string
  sh_address :: string
  sh_principal :: "shell_principal option"
  sh_started :: int
  sh_last_input :: int
  sh_last_touch :: int
  sh_closing :: bool
  sh_close_code :: "int option"
  sh_close_reason :: "string option"
  sh_end_reason :: string

type_synonym shells = "(string, shell_session) dict"

definition request_close :: "int \<Rightarrow> string \<Rightarrow> string \<Rightarrow> shell_session \<Rightarrow> shell_session" where
  "request_close code reason end_reason se =
     (if sh_closing se then se
      else se\<lparr>sh_close_code := Some code, sh_close_reason := Some reason, sh_end_reason := end_reason, sh_closing := True\<rparr>)"

definition shell_key :: "shell_principal option \<Rightarrow> string \<Rightarrow> string" where
  "shell_key owner address =
     (case owner of Some p \<Rightarrow> ''user:'' @ pp_user_id p | None \<Rightarrow> ''addr:'' @ address)"

definition shells_of_key :: "string \<Rightarrow> shells \<Rightarrow> nat" where
  "shells_of_key key d = length (filter (\<lambda>se. sh_key se = key) (dvalues d))"

definition shell_register ::
    "shell_options \<Rightarrow> string \<Rightarrow> int \<Rightarrow> shell_mode \<Rightarrow> shell_principal option \<Rightarrow> string \<Rightarrow> string option
       \<Rightarrow> shells \<Rightarrow> shell_rejected + shell_session \<times> shells" where
  "shell_register opts i now mode owner address command d =
     (let key = shell_key owner address
      in if so_max_sessions opts \<noteq> 0 \<and> int (length d) \<ge> so_max_sessions opts
         then Inl (Rejected CLOSE_LIMIT ''too many shell sessions'')
         else if so_max_sessions_per_user opts \<noteq> 0 \<and> int (shells_of_key key d) \<ge> so_max_sessions_per_user opts
         then Inl (Rejected CLOSE_LIMIT ''too many shell sessions'')
         else (let se = \<lparr>sh_id = i, sh_mode = mode,
                         sh_kind = (if command = None then ''interactive'' else ''command''), sh_key = key,
                         sh_address = address, sh_principal = owner, sh_started = now, sh_last_input = now,
                         sh_last_touch = now, sh_closing = False, sh_close_code = None, sh_close_reason = None,
                         sh_end_reason = ''exited''\<rparr>
               in Inr (se, dset i se d)))"

text \<open>\<open>_end_reason\<close>: the audit reason when the owner's session is over; a check that passes counts input as activity.\<close>

definition shell_end_reason ::
    "'s shell_provider option \<Rightarrow> int \<Rightarrow> shell_session \<Rightarrow> 's \<Rightarrow> string option \<times> shell_session \<times> 's" where
  "shell_end_reason provider now se s =
     (case (provider, sh_principal se) of
        (Some pr, Some p) \<Rightarrow>
          (case sp_is_active pr p s of
             Check_raises \<Rightarrow> (Some ''error'', se, s)
           | Ended_because r \<Rightarrow> (Some (if r = [] then ''session ended'' else r), se, s)
           | Not_active \<Rightarrow> (Some ''session ended'', se, s)
           | Is_active \<Rightarrow>
               if sh_last_input se > sh_last_touch se \<and> now - sh_last_touch se \<ge> TOUCH_INTERVAL
               then (None, se\<lparr>sh_last_touch := now\<rparr>, sp_touch pr p s)
               else (None, se, s))
      | _ \<Rightarrow> (None, se, s))"

definition shell_check :: "'s shell_provider option \<Rightarrow> int \<Rightarrow> shell_session \<Rightarrow> 's \<Rightarrow> shell_session \<times> 's" where
  "shell_check provider now se s =
     (let (ended, se1, s1) = shell_end_reason provider now se s
      in (case ended of None \<Rightarrow> se1 | Some r \<Rightarrow> request_close CLOSE_UNAUTHORIZED ''session ended'' r se1, s1))"

text \<open>\<open>request_recheck\<close> checks every open shell that has an owner.\<close>

fun recheck_all :: "'s shell_provider option \<Rightarrow> int \<Rightarrow> shells \<Rightarrow> 's \<Rightarrow> shells \<times> 's" where
  "recheck_all provider now [] s = ([], s)"
| "recheck_all provider now ((k, se) # d) s =
     (let (se1, s1) = (if sh_principal se = None \<or> sh_closing se then (se, s) else shell_check provider now se s);
          (d1, s2) = recheck_all provider now d s1
      in ((k, se1) # d1, s2))"

definition shell_close_all :: "string \<Rightarrow> shells \<Rightarrow> shells" where
  "shell_close_all reason d = map (\<lambda>(k, se). (k, request_close 1001 reason ''server shutdown'' se)) d"

section \<open>The watcher\<close>

definition session_check_interval :: "shell_options \<Rightarrow> int" where
  "session_check_interval opts =
     (if so_session_check_interval opts \<le> 0 then DEFAULT_SESSION_CHECK_INTERVAL
      else min (so_session_check_interval opts) MAX_SESSION_CHECK_INTERVAL)"

datatype watch_action = Watch_timed_out | Watch_check | Watch_wait "int option"

definition positive :: "int option \<Rightarrow> int option" where
  "positive v = (case v of Some t \<Rightarrow> if t = 0 then None else Some t | None \<Rightarrow> None)"

definition watch_deadlines :: "shell_options \<Rightarrow> int option \<Rightarrow> shell_session \<Rightarrow> int list" where
  "watch_deadlines opts next_check se = List.map_filter id
     [map_option (\<lambda>t. sh_last_input se + t) (positive (so_idle_timeout opts)),
      map_option (\<lambda>t. sh_started se + t) (positive (so_max_duration opts)), next_check]"

text \<open>One turn of the loop of a session that is not closing.\<close>

definition watch_step :: "shell_options \<Rightarrow> int option \<Rightarrow> int \<Rightarrow> shell_session \<Rightarrow> watch_action" where
  "watch_step opts next_check now se =
     (if (case positive (so_idle_timeout opts) of None \<Rightarrow> False | Some t \<Rightarrow> now - sh_last_input se \<ge> t) then Watch_timed_out
      else if (case positive (so_max_duration opts) of None \<Rightarrow> False | Some t \<Rightarrow> now - sh_started se \<ge> t) then Watch_timed_out
      else if (case next_check of None \<Rightarrow> False | Some t \<Rightarrow> now \<ge> t) then Watch_check
      else (case watch_deadlines opts next_check se of
              [] \<Rightarrow> Watch_wait None
            | d # ds \<Rightarrow> Watch_wait (Some (max 10 (Min (set (d # ds)) - now)))))"

definition watch_apply ::
    "'s shell_provider option \<Rightarrow> shell_options \<Rightarrow> int option \<Rightarrow> int \<Rightarrow> shell_session \<Rightarrow> 's \<Rightarrow> shell_session \<times> 's \<times> int option" where
  "watch_apply provider opts next_check now se s =
     (if sh_closing se then (se, s, next_check)
      else (case watch_step opts next_check now se of
              Watch_timed_out \<Rightarrow> (request_close CLOSE_TIMEOUT ''shell timed out'' ''shell timed out'' se, s, next_check)
            | Watch_check \<Rightarrow>
                (let (se1, s1) = shell_check provider now se s in (se1, s1, Some (now + session_check_interval opts)))
            | Watch_wait _ \<Rightarrow> (se, s, next_check)))"

section \<open>Connections\<close>

definition shell_opened :: "'s shell_provider option \<Rightarrow> shell_session \<Rightarrow> 's \<Rightarrow> 's" where
  "shell_opened provider se s =
     (case (provider, sh_principal se) of
        (Some pr, Some p) \<Rightarrow>
          sp_audit pr ''shell_opened'' p
            [(''mode'', JStr (sh_kind se)),
             (''sessionId'', case pp_session_id p of None \<Rightarrow> JNull | Some i \<Rightarrow> JStr i)] s
      | _ \<Rightarrow> s)"

definition shell_closed :: "'s shell_provider option \<Rightarrow> int \<Rightarrow> int option \<Rightarrow> shell_session \<Rightarrow> 's \<Rightarrow> 's" where
  "shell_closed provider now exit_code se s =
     (let code = (if sh_end_reason se \<noteq> ''exited'' then None else exit_code)
      in case (provider, sh_principal se) of
           (Some pr, Some p) \<Rightarrow>
             sp_audit pr ''shell_closed'' p
               ([(''mode'', JStr (sh_kind se)),
                 (''sessionId'', case pp_session_id p of None \<Rightarrow> JNull | Some i \<Rightarrow> JStr i),
                 (''durationMs'', JInt (now - sh_started se)), (''reason'', JStr (sh_end_reason se))]
                @ (case code of None \<Rightarrow> [] | Some x \<Rightarrow> [(''exitCode'', JInt x)])) s
         | _ \<Rightarrow> s)"

text \<open>
  \<open>handle_connection\<close> up to the start of the shell: authorise, register, check once more, audit.  A refused
  connection is closed with a code and leaves no session.
\<close>

definition open_shell ::
    "crypto \<Rightarrow> shell_options \<Rightarrow> bool \<Rightarrow> 's shell_provider option \<Rightarrow> string \<Rightarrow> int \<Rightarrow> shell_request \<Rightarrow> shells \<times> 's
       \<Rightarrow> (shell_rejected + shell_session) \<times> shells \<times> 's" where
  "open_shell c opts enabled provider i now rq st =
     (let (d, s) = st
      in if \<not> enabled then (Inl (Rejected CLOSE_DISABLED ''shell disabled''), d, s)
         else (case shell_authorize c opts provider rq s of
                 (Inl e, s1) \<Rightarrow> (Inl e, d, s1)
               | (Inr (mode, owner), s1) \<Rightarrow>
                   (case shell_register opts i now mode owner (remote_address opts rq) (or_none (case sq_command rq of None \<Rightarrow> [] | Some x \<Rightarrow> x)) d of
                      Inl e \<Rightarrow> (Inl e, d, s1)
                    | Inr (se, d1) \<Rightarrow>
                        (let (ended, se1, s2) = shell_end_reason provider now se s1
                         in case ended of
                              Some r \<Rightarrow> (Inl (Rejected CLOSE_UNAUTHORIZED ''session ended''), dpop i d1, s2)
                            | None \<Rightarrow> (Inr se1, dset i se1 d1, shell_opened provider se1 s2)))))"

text \<open>The end of a connection: the session goes, its end is audited, and a close the server asked for is sent.\<close>

definition finish_shell ::
    "'s shell_provider option \<Rightarrow> int \<Rightarrow> int option \<Rightarrow> shell_session \<Rightarrow> shells \<times> 's \<Rightarrow> shell_rejected option \<times> shells \<times> 's" where
  "finish_shell provider now exit_code se st =
     (let (d, s) = st
      in (map_option (\<lambda>code. Rejected code (case sh_close_reason se of None \<Rightarrow> [] | Some r \<Rightarrow> r)) (sh_close_code se),
          dpop (sh_id se) d, shell_closed provider now exit_code se s))"

section \<open>The users plugin as owner\<close>

definition must_change :: "auth_context \<Rightarrow> bool" where
  "must_change ctx = u_must_change_password (cx_user ctx)"

definition users_resolve :: "env \<Rightarrow> shell_request \<Rightarrow> auth \<Rightarrow> shell_principal option \<times> auth" where
  "users_resolve e rq s =
     (let (ctx, s1) = (case sq_auth rq of Some c \<Rightarrow> (Some c, s) | None \<Rightarrow> consume_ticket e (sq_ticket rq) s)
      in (map_option (\<lambda>c. \<lparr>pp_user_id = u_id (cx_user c), pp_user_name = u_name (cx_user c),
                           pp_session_id = map_option se_id (cx_session c), pp_context = c\<rparr>) ctx, s1))"

definition users_can_open :: "shell_principal \<Rightarrow> bool" where
  "users_can_open p = (\<not> must_change (pp_context p) \<and> ctx_can (pp_context p) SHELL_PERMISSION)"

definition api_token_active :: "env \<Rightarrow> api_token \<Rightarrow> shell_principal \<Rightarrow> auth \<Rightarrow> active_answer" where
  "api_token_active e t p s =
     (case ts_get_token (at_id t) (a_tokens s) of
        None \<Rightarrow> Not_active
      | Some rec \<Rightarrow>
          if at_user_id rec \<noteq> pp_user_id p then Not_active
          else (case context_for_api_token e rec s of
                  Inl _ \<Rightarrow> Not_active
                | Inr fresh_ctx \<Rightarrow>
                    if must_change fresh_ctx then Not_active
                    else if \<not> ctx_can fresh_ctx SHELL_PERMISSION then Ended_because ''permission removed''
                    else Is_active))"

text \<open>The external adapter's new answer is an argument: \<open>None\<close> when it no longer accepts the caller.\<close>

definition adapter_active :: "(auth_context \<Rightarrow> auth_context option) \<Rightarrow> shell_principal \<Rightarrow> active_answer" where
  "adapter_active revalidate p =
     (case revalidate (pp_context p) of
        None \<Rightarrow> Not_active
      | Some fresh_ctx \<Rightarrow>
          if must_change fresh_ctx then Not_active
          else if \<not> ctx_can fresh_ctx SHELL_PERMISSION then Ended_because ''permission removed''
          else Is_active)"

definition users_is_active ::
    "env \<Rightarrow> (auth_context \<Rightarrow> auth_context option) \<Rightarrow> shell_principal \<Rightarrow> auth \<Rightarrow> active_answer" where
  "users_is_active e revalidate p s =
     (if cx_external (pp_context p) then adapter_active revalidate p
      else case cx_api_token (pp_context p) of
        Some t \<Rightarrow> api_token_active e t p s
      | None \<Rightarrow>
          (case pp_session_id p of
             None \<Rightarrow> Not_active
           | Some i \<Rightarrow>
               (case ss_get_session_by_id i (a_sessions s) of
                  None \<Rightarrow> Not_active
                | Some se \<Rightarrow>
                    if se_user_id se \<noteq> pp_user_id p \<or> is_expired e se then Not_active
                    else (case us_get_user (pp_user_id p) (a_users s) of
                            None \<Rightarrow> Not_active
                          | Some u \<Rightarrow>
                              if u_id u \<noteq> pp_user_id p \<or> u_disabled u \<or> u_must_change_password u then Not_active
                              else if \<not> has_permission (user_permissions u s) SHELL_PERMISSION
                              then Ended_because ''permission removed''
                              else Is_active))))"

definition users_touch :: "env \<Rightarrow> shell_principal \<Rightarrow> auth \<Rightarrow> auth" where
  "users_touch e p s =
     (if cx_external (pp_context p) then s
      else case pp_session_id p of
        None \<Rightarrow> s
      | Some i \<Rightarrow>
          (case ss_get_session_by_id i (a_sessions s) of
             None \<Rightarrow> s
           | Some se \<Rightarrow>
               if se_token_hash se = [] then s
               else s\<lparr>a_sessions := ss_update_last_activity (e_now e) (se_token_hash se) (a_sessions s)\<rparr>))"

definition users_audit :: "env \<Rightarrow> string \<Rightarrow> shell_principal \<Rightarrow> (string, json) dict \<Rightarrow> auth \<Rightarrow> auth" where
  "users_audit e event p metadata s =
     audit e event (pp_user_name p)
       (no_args\<lparr>aa_user_id := Some (pp_user_id p), aa_actor := Some (pp_user_name p),
                aa_actor_id := Some (pp_user_id p), aa_metadata := Some metadata\<rparr>) s"

definition users_shell_access :: "env \<Rightarrow> (auth_context \<Rightarrow> auth_context option) \<Rightarrow> auth shell_provider" where
  "users_shell_access e revalidate =
     \<lparr>sp_resolve = users_resolve e, sp_can_open = users_can_open, sp_is_active = users_is_active e revalidate,
      sp_touch = users_touch e, sp_audit = users_audit e\<rparr>"

end
