(* ===== verification/ShellFacts.thy ===== *)
theory ShellFacts
  imports ShellSessions SignIn
begin

text \<open>
  What holds of remote shells: the limits on concurrent shells, who gets one, and that an open shell is bound
  to its owner's session.  The owner is the locale \<open>shell_owner\<close>, interpreted for the users plugin.
\<close>

section \<open>Shells and their owner\<close>

locale shell_owner =
  fixes access :: "'s shell_provider"
    and valid :: "shell_principal \<Rightarrow> 's \<Rightarrow> bool"
    and ok :: "'s \<Rightarrow> bool"
    and sane :: "shell_principal \<Rightarrow> bool"
  assumes active_iff: "sp_is_active access p s = Is_active \<longleftrightarrow> valid p s"
    and ok_touch: "ok s \<Longrightarrow> ok (sp_touch access p s)"
    and touch_back: "ok s \<Longrightarrow> sane p \<Longrightarrow> valid p s \<Longrightarrow> valid q (sp_touch access p s) \<Longrightarrow> valid q s"
begin

lemma end_reason_iff:
  assumes "sh_principal se = Some p" "shell_end_reason (Some access) now se s = (ended, se1, s1)"
  shows "(ended = None \<longleftrightarrow> valid p s) \<and> sh_principal se1 = Some p \<and> sh_closing se1 = sh_closing se
    \<and> (ok s \<longrightarrow> sane p \<longrightarrow> ok s1 \<and> (\<forall>q. valid q s1 \<longrightarrow> valid q s))"
proof -
  have t: "ok s \<longrightarrow> sane p \<longrightarrow> ok (sp_touch access p s) \<and> (\<forall>q. valid q (sp_touch access p s) \<longrightarrow> valid q s)" if "valid p s"
    using that ok_touch touch_back by blast
  show ?thesis
    using assms active_iff [of p s] t
    by (cases "sp_is_active access p s") (auto simp: shell_end_reason_def split: if_splits)
qed

lemma check_iff:
  assumes "sh_principal se = Some p" "\<not> sh_closing se" "shell_check (Some access) now se s = (se1, s1)"
  shows "(sh_closing se1 \<longleftrightarrow> \<not> valid p s) \<and> sh_principal se1 = Some p
    \<and> (\<not> valid p s \<longrightarrow> sh_close_code se1 = Some CLOSE_UNAUTHORIZED \<and> sh_close_reason se1 = Some ''session ended'')
    \<and> (ok s \<longrightarrow> sane p \<longrightarrow> ok s1 \<and> (\<forall>q. valid q s1 \<longrightarrow> valid q s))"
proof -
  obtain ended se2 s2 where r: "shell_end_reason (Some access) now se s = (ended, se2, s2)" by (metis prod_cases3)
  with assms(3) have "se1 = (case ended of None \<Rightarrow> se2 | Some x \<Rightarrow> request_close CLOSE_UNAUTHORIZED ''session ended'' x se2)"
    "s1 = s2" by (simp_all add: shell_check_def)
  with end_reason_iff [OF assms(1) r] assms(2) show ?thesis
    by (auto simp: request_close_def split: option.splits)
qed

text \<open>After every shell has been checked, an owned shell is only still open if its owner was valid.\<close>

lemma recheck_valid:
  "recheck_all (Some access) now d s = (d1, s1) \<Longrightarrow> ok s \<Longrightarrow> (\<And>k se p. (k, se) \<in> set d \<Longrightarrow> sh_principal se = Some p \<Longrightarrow> sane p) \<Longrightarrow>
     map fst d1 = map fst d
     \<and> (\<forall>k se p. (k, se) \<in> set d1 \<longrightarrow> sh_principal se = Some p \<longrightarrow> \<not> sh_closing se \<longrightarrow> valid p s)"
proof (induction d arbitrary: s d1 s1)
  case (Cons x d)
  obtain k se where x: "x = (k, se)" by fastforce
  obtain se2 s2 where one: "(if sh_principal se = None \<or> sh_closing se then (se, s) else shell_check (Some access) now se s) = (se2, s2)"
    by fastforce
  obtain d2 s3 where rest: "recheck_all (Some access) now d s2 = (d2, s3)" by fastforce
  have d1: "d1 = (k, se2) # d2" using Cons.prems(1) x one rest by (simp add: Let_def)
  have keep: "ok s2 \<and> (\<forall>q. valid q s2 \<longrightarrow> valid q s)
      \<and> (\<forall>p. sh_principal se2 = Some p \<longrightarrow> \<not> sh_closing se2 \<longrightarrow> valid p s)"
  proof (cases "sh_principal se = None \<or> sh_closing se")
    case True
    with one Cons.prems(2) show ?thesis by auto
  next
    case False
    then obtain p where p: "sh_principal se = Some p" "\<not> sh_closing se" by auto
    with one have "shell_check (Some access) now se s = (se2, s2)" by simp
    from check_iff [OF p this] Cons.prems(2) Cons.prems(3) [of k se p] x p show ?thesis by auto
  qed
  then have "ok s2" by blast
  moreover have "sane p" if "(k, se) \<in> set d" "sh_principal se = Some p" for k se p
    using Cons.prems(3) [of k se p] that by simp
  ultimately have "map fst d2 = map fst d
      \<and> (\<forall>k se p. (k, se) \<in> set d2 \<longrightarrow> sh_principal se = Some p \<longrightarrow> \<not> sh_closing se \<longrightarrow> valid p s2)"
    by (rule Cons.IH [OF rest])
  with keep d1 x show ?case by fastforce
qed simp

end

text \<open>When the users plugin still stands behind a shell.\<close>

definition users_valid :: "env \<Rightarrow> (auth_context \<Rightarrow> auth_context option) \<Rightarrow> shell_principal \<Rightarrow> auth \<Rightarrow> bool" where
  "users_valid e revalidate p s =
     (if cx_external (pp_context p)
      then (case revalidate (pp_context p) of None \<Rightarrow> False | Some c \<Rightarrow> \<not> must_change c \<and> ctx_can c SHELL_PERMISSION)
      else case cx_api_token (pp_context p) of
        Some t \<Rightarrow>
          (case ts_get_token (at_id t) (a_tokens s) of
             None \<Rightarrow> False
           | Some rec \<Rightarrow> at_user_id rec = pp_user_id p
               \<and> (case context_for_api_token e rec s of Inl _ \<Rightarrow> False | Inr c \<Rightarrow> \<not> must_change c \<and> ctx_can c SHELL_PERMISSION))
      | None \<Rightarrow>
          (case Option.bind (pp_session_id p) (\<lambda>i. ss_get_session_by_id i (a_sessions s)) of
             None \<Rightarrow> False
           | Some se \<Rightarrow> se_user_id se = pp_user_id p \<and> \<not> is_expired e se
               \<and> (case us_get_user (pp_user_id p) (a_users s) of
                    None \<Rightarrow> False
                  | Some u \<Rightarrow> u_id u = pp_user_id p \<and> \<not> u_disabled u \<and> \<not> u_must_change_password u
                      \<and> has_permission (user_permissions u s) SHELL_PERMISSION)))"

definition session_stands :: "env \<Rightarrow> shell_principal \<Rightarrow> session \<Rightarrow> bool" where
  "session_stands e p se \<longleftrightarrow> se_user_id se = pp_user_id p \<and> \<not> is_expired e se"

definition user_stands :: "shell_principal \<Rightarrow> user \<Rightarrow> auth \<Rightarrow> bool" where
  "user_stands p u s \<longleftrightarrow> u_id u = pp_user_id p \<and> \<not> u_disabled u \<and> \<not> u_must_change_password u
     \<and> has_permission (user_permissions u s) SHELL_PERMISSION"

lemma users_valid_session:
  assumes "\<not> cx_external (pp_context p)" "cx_api_token (pp_context p) = None"
  shows "users_valid e rv p s \<longleftrightarrow> (\<exists>i se u. pp_session_id p = Some i \<and> ss_get_session_by_id i (a_sessions s) = Some se
    \<and> session_stands e p se \<and> us_get_user (pp_user_id p) (a_users s) = Some u \<and> user_stands p u s)"
  using assms by (cases "pp_session_id p")
    (auto simp: users_valid_def session_stands_def user_stands_def split: option.split)

lemma users_active_iff: "users_is_active e revalidate p s = Is_active \<longleftrightarrow> users_valid e revalidate p s"
proof (cases "cx_external (pp_context p)")
  case True
  then show ?thesis by (simp add: users_is_active_def users_valid_def adapter_active_def split: option.split)
next
  case ext: False
  show ?thesis
  proof (cases "cx_api_token (pp_context p)")
    case None
    with ext show ?thesis
      by (cases "pp_session_id p") (simp_all add: users_is_active_def users_valid_def split: option.split)
  next
    case (Some t)
    with ext show ?thesis
      by (cases "ts_get_token (at_id t) (a_tokens s)")
        (simp_all add: users_is_active_def users_valid_def api_token_active_def split: sum.split)
  qed
qed

lemma touch_by_id:
  assumes ok: "session_store_ok d" and x: "ss_get_session_by_id i d = Some x"
  shows "ss_get_session_by_id j (ss_update_last_activity now (se_token_hash x) d)
    = (if j = i then Some (x\<lparr>se_last_activity := now\<rparr>) else ss_get_session_by_id j d)"
proof -
  let ?x = "x\<lparr>se_last_activity := now\<rparr>" and ?h = "se_token_hash x"
  let ?d = "ss_update_last_activity now ?h d"
  have mem: "x \<in> set (dvalues d)" "se_id x = i" using x ss_get_by_id_iff [OF ok] by auto
  then have in_d: "(?h, x) \<in> set d" using ok by (fastforce simp: dvalues_def session_store_ok_def)
  then have "dget d ?h = Some x" using ok by (simp add: session_store_ok_def dget_in)
  then have "?d = dset ?h ?x d" by (simp add: ss_update_last_activity_def)
  then have set_d: "set ?d = insert (?h, ?x) {q \<in> set d. fst q \<noteq> ?h}"
    using ok by (simp add: session_store_ok_def set_dset)
  have uniq: "fst q = ?h" if "q \<in> set d" "se_id (snd q) = i" for q
    using session_store_unique [OF ok that(1) in_d] that(2) mem(2) by simp
  have vals: "set (dvalues ?d) = insert ?x (snd ` {q \<in> set d. fst q \<noteq> ?h})" using set_d by (simp add: dvalues_def)
  note new = ss_get_by_id_iff [OF session_store_ok_touch [OF ok], of j now ?h] and old = ss_get_by_id_iff [OF ok, of j]
  have "ss_get_session_by_id j ?d = Some y \<longleftrightarrow> (if j = i then y = ?x else ss_get_session_by_id j d = Some y)" for y
  proof (cases "j = i")
    case True
    with uniq mem(2) show ?thesis unfolding new vals by auto
  next
    case False
    have "fst q \<noteq> ?h" if "q \<in> set d" "se_id (snd q) = j" for q
    proof
      assume "fst q = ?h"
      then have "q = (?h, x)" using dict_ok_unique [OF _ that(1) in_d] ok by (simp add: session_store_ok_def)
      then show False using that(2) False mem(2) by simp
    qed
    with False mem(2) show ?thesis unfolding new vals old by (auto simp: dvalues_def)
  qed
  then show ?thesis by (metis option.exhaust)
qed

definition users_sane :: "shell_principal \<Rightarrow> bool" where
  "users_sane p \<longleftrightarrow> cx_api_token (pp_context p) = None \<or> pp_session_id p = None"

lemma users_touch_back:
  assumes ok: "session_store_ok (a_sessions s)" and sane: "users_sane p" and p: "users_valid e rv p s" and q: "users_valid e rv q (users_touch e p s)"
  shows "users_valid e rv q s"
proof (cases "users_touch e p s = s")
  case False
  then obtain i x where i: "pp_session_id p = Some i" "ss_get_session_by_id i (a_sessions s) = Some x"
    and t: "users_touch e p s = s\<lparr>a_sessions := ss_update_last_activity (e_now e) (se_token_hash x) (a_sessions s)\<rparr>"
    and ext: "\<not> cx_external (pp_context p)"
    by (auto simp: users_touch_def split: if_splits option.splits)
  have same: "user_permissions u (users_touch e p s) = user_permissions u s"
      "context_for_api_token e rec (users_touch e p s) = context_for_api_token e rec s"
      "a_users (users_touch e p s) = a_users s" "a_tokens (users_touch e p s) = a_tokens s" for u rec
  proof -
    have eff: "effective_permissions g (users_touch e p s) = effective_permissions g s" for g
      by (simp add: t effective_permissions_def)
    have live: "live_user k (users_touch e p s) = live_user k s" for k by (simp add: t live_user_def)
    show "user_permissions u (users_touch e p s) = user_permissions u s" by (simp add: user_permissions_def eff)
    show "context_for_api_token e rec (users_touch e p s) = context_for_api_token e rec s"
      by (simp add: context_for_api_token_def eff live cong: option.case_cong)
    show "a_users (users_touch e p s) = a_users s" "a_tokens (users_touch e p s) = a_tokens s" by (simp_all add: t)
  qed
  have "cx_api_token (pp_context p) = None" using sane i(1) by (auto simp: users_sane_def)
  with p ext i have x: "\<not> is_expired e x" by (auto simp: users_valid_def)
  have get: "ss_get_session_by_id j (a_sessions (users_touch e p s))
      = (if j = i then Some (x\<lparr>se_last_activity := e_now e\<rparr>) else ss_get_session_by_id j (a_sessions s))" for j
    using touch_by_id [OF ok i(2)] by (simp add: t)
  show ?thesis
  proof (cases "cx_external (pp_context q) \<or> cx_api_token (pp_context q) \<noteq> None")
    case True
    with q show ?thesis by (auto simp: users_valid_def same cong: option.case_cong)
  next
    case False
    then have c: "\<not> cx_external (pp_context q)" "cx_api_token (pp_context q) = None" by auto
    from q obtain j z u where z: "pp_session_id q = Some j" "ss_get_session_by_id j (a_sessions (users_touch e p s)) = Some z"
      "session_stands e q z" "us_get_user (pp_user_id q) (a_users s) = Some u" "user_stands q u s"
      unfolding users_valid_session [OF c] same by (auto simp: user_stands_def same)
    obtain y where "ss_get_session_by_id j (a_sessions s) = Some y" "session_stands e q y"
    proof (cases "j = i")
      case True
      with z(2,3) get i(2) x that [of x] show ?thesis by (auto simp: session_stands_def)
    qed (use z(2,3) get that in simp)
    with z(1,4,5) show ?thesis unfolding users_valid_session [OF c] by blast
  qed
qed (use q in simp)

lemma users_touch_ok: "session_store_ok (a_sessions s) \<Longrightarrow> session_store_ok (a_sessions (users_touch e p s))"
  by (simp add: users_touch_def session_store_ok_touch split: option.split)

interpretation users_shells: shell_owner "users_shell_access e rv" "users_valid e rv" "\<lambda>s. session_store_ok (a_sessions s)" users_sane
  for e rv
  by unfold_locales (simp_all add: users_shell_access_def users_active_iff users_touch_ok users_touch_back)

text \<open>
  C38. A check of an open shell that belongs to a session of the users plugin closes it, with code 4401,
  exactly when the session is gone, expired or another user's, or the user is gone, disabled, has to
  change the password or has lost \<open>shell:execute\<close>.
\<close>

theorem shell_bound_to_session:
  assumes "sh_principal se = Some p" and "\<not> sh_closing se"
    and "\<not> cx_external (pp_context p)" and "cx_api_token (pp_context p) = None"
    and "shell_check (Some (users_shell_access e rv)) now se s = (se1, s1)"
  shows "(sh_closing se1 \<longleftrightarrow>
      \<not> (\<exists>i x u. pp_session_id p = Some i \<and> ss_get_session_by_id i (a_sessions s) = Some x
          \<and> se_user_id x = pp_user_id p \<and> \<not> is_expired e x
          \<and> us_get_user (pp_user_id p) (a_users s) = Some u \<and> u_id u = pp_user_id p \<and> \<not> u_disabled u
          \<and> \<not> u_must_change_password u \<and> has_permission (user_permissions u s) SHELL_PERMISSION))
    \<and> (sh_closing se1 \<longrightarrow> sh_close_code se1 = Some 4401)"
  using users_shells.check_iff [OF assms(1,2,5)] users_valid_session [OF assms(3,4), of e rv s]
  by (auto simp: session_stands_def user_stands_def CLOSE_UNAUTHORIZED_def)

section \<open>Limits\<close>

text \<open>
  The steps of the session manager: a connection is opened or refused, a shell gets input, its watcher takes
  a turn, all shells are re-checked or closed, a connection ends; the owner's state may change at any time.
\<close>

inductive shell_step ::
    "crypto \<Rightarrow> shell_options \<Rightarrow> bool \<Rightarrow> 's shell_provider option \<Rightarrow> shells \<times> 's \<Rightarrow> shells \<times> 's \<Rightarrow> bool"
  for c opts enabled provider where
  shell_open: "open_shell c opts enabled provider i now rq (d, s) = (r, st) \<Longrightarrow> dget d i = None \<Longrightarrow>
     shell_step c opts enabled provider (d, s) st"
| shell_input: "dget d i = Some se \<Longrightarrow>
     shell_step c opts enabled provider (d, s) (dset i (se\<lparr>sh_last_input := now\<rparr>) d, s)"
| shell_watch: "dget d i = Some se \<Longrightarrow> watch_apply provider opts next_check now se s = (se1, s1, next1) \<Longrightarrow>
     shell_step c opts enabled provider (d, s) (dset i se1 d, s1)"
| shell_recheck: "recheck_all provider now d s = st \<Longrightarrow> shell_step c opts enabled provider (d, s) st"
| shell_shutdown: "shell_step c opts enabled provider (d, s) (shell_close_all reason d, s)"
| shell_finish: "dget d i = Some se \<Longrightarrow> finish_shell provider now code se (d, s) = (r, st) \<Longrightarrow>
     shell_step c opts enabled provider (d, s) st"
| shell_owner_step: "shell_step c opts enabled provider (d, s) (d, s')"

text \<open>What limits and ends of a shell depend on: its identifier and its key.\<close>

definition shell_tags :: "shells \<Rightarrow> (string \<times> string \<times> string) list" where
  "shell_tags d = map (\<lambda>(k, se). (k, sh_id se, sh_key se)) d"

definition shells_ok :: "shell_options \<Rightarrow> shells \<Rightarrow> bool" where
  "shells_ok opts d \<longleftrightarrow> dict_ok d \<and> list_all (\<lambda>(k, se). sh_id se = k) d
     \<and> (so_max_sessions opts \<noteq> 0 \<longrightarrow> int (length d) \<le> max 0 (so_max_sessions opts))
     \<and> (so_max_sessions_per_user opts \<noteq> 0 \<longrightarrow>
          (\<forall>key. int (shells_of_key key d) \<le> max 0 (so_max_sessions_per_user opts)))"

lemma shells_of_key_tags: "shells_of_key key d = length (filter (\<lambda>(_, _, k). k = key) (shell_tags d))"
  by (induction d) (auto simp: shells_of_key_def shell_tags_def dvalues_def)

lemma shells_ok_tags: "shell_tags d' = shell_tags d \<Longrightarrow> shells_ok opts d \<Longrightarrow> shells_ok opts d'"
proof -
  assume t: "shell_tags d' = shell_tags d" and ok: "shells_ok opts d"
  have "map fst x = map fst (shell_tags x)" "length x = length (shell_tags x)"
    "list_all (\<lambda>(k, se). sh_id se = k) x = list_all (\<lambda>(k, i, _). i = k) (shell_tags x)" for x
    by (auto simp: shell_tags_def list_all_iff comp_def case_prod_unfold)
  with ok t show ?thesis by (simp add: shells_ok_def shells_of_key_tags dict_ok_def)
qed

lemma tags_dset:
  "dget d i = Some se \<Longrightarrow> sh_id se' = sh_id se \<Longrightarrow> sh_key se' = sh_key se \<Longrightarrow> shell_tags (dset i se' d) = shell_tags d"
  by (induction d) (auto simp: shell_tags_def split: if_splits)

lemma request_close_tags [simp]:
  "sh_id (request_close c r e se) = sh_id se" "sh_key (request_close c r e se) = sh_key se"
  by (simp_all add: request_close_def)

lemma end_reason_tags:
  "shell_end_reason provider now se s = (ended, se1, s1) \<Longrightarrow> sh_id se1 = sh_id se \<and> sh_key se1 = sh_key se"
  by (auto simp: shell_end_reason_def split: option.splits active_answer.splits if_splits)

lemma check_tags: "shell_check provider now se s = (se1, s1) \<Longrightarrow> sh_id se1 = sh_id se \<and> sh_key se1 = sh_key se"
  by (auto simp: shell_check_def dest!: end_reason_tags split: prod.splits option.splits)

lemma watch_tags:
  "watch_apply provider opts next_check now se s = (se1, s1, next1) \<Longrightarrow> sh_id se1 = sh_id se \<and> sh_key se1 = sh_key se"
  by (auto simp: watch_apply_def dest!: check_tags split: if_splits watch_action.splits prod.splits)

lemma recheck_tags: "recheck_all provider now d s = (d1, s1) \<Longrightarrow> shell_tags d1 = shell_tags d"
proof (induction d arbitrary: s d1 s1)
  case (Cons x d)
  then show ?case
    by (cases x) (auto simp: shell_tags_def Let_def dest!: check_tags split: prod.splits if_splits)
qed simp

lemma close_all_tags: "shell_tags (shell_close_all reason d) = shell_tags d"
  by (induction d) (auto simp: shell_tags_def shell_close_all_def)

lemma shells_ok_dpop: "shells_ok opts d \<Longrightarrow> shells_ok opts (dpop i d)"
proof -
  assume ok: "shells_ok opts d"
  have k: "int (shells_of_key key (dpop i d)) \<le> int (shells_of_key key d)" for key
    by (induction d) (auto simp: shells_of_key_def dvalues_def)
  have l: "int (length (dpop i d)) \<le> int (length d)" using length_dpop_le [of i d] by simp
  have "list_all (\<lambda>(k, se). sh_id se = k) (dpop i d)" using ok by (auto simp: shells_ok_def list_all_iff set_dpop)
  moreover have "so_max_sessions opts \<noteq> 0 \<longrightarrow> int (length (dpop i d)) \<le> max 0 (so_max_sessions opts)"
    using ok l unfolding shells_ok_def by linarith
  moreover have "so_max_sessions_per_user opts \<noteq> 0 \<longrightarrow>
      (\<forall>key. int (shells_of_key key (dpop i d)) \<le> max 0 (so_max_sessions_per_user opts))"
    using ok k unfolding shells_ok_def by (meson order_trans)
  ultimately show ?thesis using ok by (simp add: shells_ok_def)
qed

lemma dset_new: "dget d i = None \<Longrightarrow> dset i v d = d @ [(i, v)]"
  by (induction d) (auto split: if_splits)

lemma dpop_dset_new: "dget d i = None \<Longrightarrow> dpop i (dset i v d) = d"
  by (simp add: dset_new dpop_filter) (auto simp: filter_id_conv map_of_eq_None_iff image_iff)

lemma register_ok:
  assumes "shell_register opts i now mode p addr cmd d = Inr (se, d1)" "shells_ok opts d" "dget d i = None"
  shows "shells_ok opts d1 \<and> d1 = dset i se d \<and> sh_id se = i \<and> sh_principal se = p \<and> \<not> sh_closing se"
proof -
  have eq: "d1 = dset i se d" "sh_id se = i" "sh_key se = shell_key p addr" "sh_principal se = p" "\<not> sh_closing se"
    using assms(1) by (auto simp: shell_register_def Let_def split: if_splits)
  have lim: "so_max_sessions opts = 0 \<or> int (length d) < so_max_sessions opts"
    "so_max_sessions_per_user opts = 0 \<or> int (shells_of_key (sh_key se) d) < so_max_sessions_per_user opts"
    using assms(1) eq(3) by (auto simp: shell_register_def Let_def split: if_splits)
  have keys: "shells_of_key key d1 = shells_of_key key d + (if sh_key se = key then 1 else 0)" for key
    by (simp add: eq(1) dset_new [OF assms(3)] shells_of_key_def dvalues_def)
  have "int (shells_of_key key d1) \<le> max 0 (so_max_sessions_per_user opts)" if "so_max_sessions_per_user opts \<noteq> 0" for key
    using that lim(2) keys [of key] assms(2) by (cases "sh_key se = key") (auto simp: shells_ok_def)
  moreover have "so_max_sessions opts \<noteq> 0 \<longrightarrow> int (length d1) \<le> max 0 (so_max_sessions opts)"
    using lim(1) by (auto simp: eq(1) dset_new [OF assms(3)])
  moreover have "dict_ok d1" using assms(2) by (simp add: shells_ok_def eq(1))
  moreover have "list_all (\<lambda>(k, se). sh_id se = k) d1"
    using assms(2) eq(2) by (simp add: shells_ok_def eq(1) dset_new [OF assms(3)])
  ultimately show ?thesis using eq by (simp add: shells_ok_def)
qed

text \<open>Opening: refused, nothing registered; or registered, within the limits, and checked.\<close>

lemma open_shell_cases:
  assumes "open_shell c opts enabled provider i now rq (d, s) = (r, d1, s1)" "shells_ok opts d" "dget d i = None"
  shows "shells_ok opts d1 \<and> (case r of Inl _ \<Rightarrow> d1 = d | Inr se \<Rightarrow> enabled \<and> d1 = dset i se d \<and> \<not> sh_closing se)"
proof (cases "enabled")
  case True
  obtain ra s2 where a: "shell_authorize c opts provider rq s = (ra, s2)" by fastforce
  show ?thesis
  proof (cases ra)
    case (Inl e)
    with assms a True show ?thesis by (auto simp: open_shell_def)
  next
    case (Inr mp)
    obtain mode p where mp: "mp = (mode, p)" by fastforce
    let ?cmd = "or_none (case sq_command rq of None \<Rightarrow> [] | Some x \<Rightarrow> x)"
    show ?thesis
    proof (cases "shell_register opts i now mode p (remote_address opts rq) ?cmd d")
      case (Inl e)
      with assms a True Inr mp show ?thesis by (auto simp: open_shell_def)
    next
      case reg: (Inr sd)
      obtain se d2 where sd: "sd = (se, d2)" by fastforce
      note rok = register_ok [OF reg [unfolded sd] assms(2,3)]
      obtain ended se1 s3 where e: "shell_end_reason provider now se s2 = (ended, se1, s3)" by (metis prod_cases3)
      note tags = end_reason_tags [OF e]
      have cl: "sh_closing se1 = sh_closing se"
        using e by (auto simp: shell_end_reason_def split: option.splits active_answer.splits if_splits)
      show ?thesis
      proof (cases ended)
        case None
        with assms a True Inr mp reg sd e have r: "r = Inr se1" "d1 = dset i se1 d2" by (auto simp: open_shell_def)
        have "dget d2 i = Some se" using rok by (simp add: dget_dset)
        then have "shells_ok opts d1" using shells_ok_tags [OF tags_dset [of d2 i se se1], of opts] tags rok r(2) by auto
        moreover have "d1 = dset i se1 d" using r(2) rok by simp
        ultimately show ?thesis using r(1) True rok cl by simp
      next
        case (Some x)
        with assms a True Inr mp reg sd e rok show ?thesis by (auto simp: open_shell_def dpop_dset_new)
      qed
    qed
  qed
qed (use assms in \<open>auto simp: open_shell_def\<close>)

lemma shell_step_ok: "shell_step c opts enabled provider st st' \<Longrightarrow> shells_ok opts (fst st) \<Longrightarrow> shells_ok opts (fst st')"
proof (induction rule: shell_step.induct)
  case (shell_open i now rq d s r st)
  then show ?case using open_shell_cases [of c opts enabled provider i now rq d s r "fst st" "snd st"] by simp
next
  case (shell_input d i se s now)
  have "shell_tags (dset i (se\<lparr>sh_last_input := now\<rparr>) d) = shell_tags d"
    by (rule tags_dset [OF shell_input(1)]) simp_all
  with shell_input(2) show ?case by (simp add: shells_ok_tags)
next
  case (shell_watch d i se next_check now s se1 s1 next1)
  with shells_ok_tags [OF tags_dset [OF shell_watch(1)]] watch_tags [OF shell_watch(2)] show ?case by simp
next
  case (shell_recheck now d s st)
  with shells_ok_tags [OF recheck_tags [of provider now d s "fst st" "snd st"]] show ?case by simp
next
  case (shell_shutdown d s reason)
  then show ?case by (simp add: shells_ok_tags [OF close_all_tags])
next
  case (shell_finish d i se now code s r st)
  then show ?case by (auto simp: finish_shell_def shells_ok_dpop)
qed simp

definition shells_start :: "shells \<times> 's \<Rightarrow> bool" where
  "shells_start st \<longleftrightarrow> fst st = []"

interpretation shells: invariant_system shells_start "shell_step c opts enabled provider" "\<lambda>st. shells_ok opts (fst st)"
  for c opts enabled provider
proof
  show "shells_ok opts (fst st)" if "shells_start st" for st :: "shells \<times> 'a"
    using that by (simp add: shells_start_def shells_ok_def shells_of_key_def dvalues_def)
qed (rule shell_step_ok)



section \<open>Witnesses\<close>

definition shell_caller :: shell_principal where
  "shell_caller = \<lparr>pp_user_id = u_id (cx_user root_context), pp_user_name = u_name (cx_user root_context),
     pp_session_id = map_option se_id (cx_session root_context), pp_context = root_context\<rparr>"

definition sample_shell :: shell_session where
  "sample_shell = \<lparr>sh_id = ''s1'', sh_mode = Mode_users, sh_kind = ''interactive'', sh_key = ''user:root'',
     sh_address = ''::1'', sh_principal = Some shell_caller, sh_started = 0, sh_last_input = 0, sh_last_touch = 0,
     sh_closing = False, sh_close_code = None, sh_close_reason = None, sh_end_reason = ''exited''\<rparr>"

definition no_adapter :: "auth_context \<Rightarrow> auth_context option" where
  "no_adapter c = None"

definition logged_out :: auth where
  "logged_out = logout (sample_env 2600) root_token root_state"

definition sample_options :: shell_options where
  "sample_options = \<lparr>so_token = None, so_authorize = None, so_allow_anonymous = True, so_max_sessions_per_user = 3,
     so_max_sessions = 20, so_idle_timeout = Some 900000, so_max_duration = None, so_session_check_interval = 30000,
     so_trust_proxy = TrustBool False\<rparr>"

definition sample_request :: "auth_context option \<Rightarrow> shell_request" where
  "sample_request ctx = \<lparr>sq_authorization = None, sq_query_authorization = None, sq_forwarded = [], sq_peer = Some ''::1'',
     sq_command = None, sq_ticket = None, sq_auth = ctx\<rparr>"

theorem shell_bound_to_session_witness:
  "sh_closing (fst (shell_check (Some (users_shell_access (sample_env 2600) no_adapter)) 0 sample_shell logged_out))"
proof -
  let ?r = "shell_check (Some (users_shell_access (sample_env 2600) no_adapter)) 0 sample_shell logged_out"
  have c: "\<not> cx_external (pp_context shell_caller) \<and> cx_api_token (pp_context shell_caller) = None" by code_simp
  have "Option.bind (pp_session_id shell_caller) (\<lambda>i. ss_get_session_by_id i (a_sessions logged_out)) = None" by code_simp
  then show ?thesis
    using shell_bound_to_session [of sample_shell shell_caller "sample_env 2600" no_adapter 0 logged_out "fst ?r" "snd ?r"] c
    by (auto simp: sample_shell_def)
qed



end
