(* ===== verification/ShellProcesses.thy ===== *)
theory ShellProcesses
  imports Prelude
begin

text \<open>
  The processes a closing shell has to end (\<open>cli_shell_session_manager.py\<close>): reading process tables, the
  search for the descendants of the shell and the set of processes to signal.  The system's process table
  and environments are arguments.
\<close>

section \<open>Process tables\<close>

record proc_info =
  pi_pid :: int
  pi_ppid :: int
  pi_pgid :: int
  pi_sid :: "int option"

text \<open>\<open>str.split()\<close>: the words between runs of white space.\<close>

fun blank_words :: "string \<Rightarrow> string \<Rightarrow> string list" where
  "blank_words cur [] = (if cur = [] then [] else [cur])"
| "blank_words cur (c # cs) =
     (if py_isspace c then (if cur = [] then blank_words [] cs else cur # blank_words [] cs)
      else blank_words (cur @ [c]) cs)"

definition py_words :: "string \<Rightarrow> string list" where
  "py_words s = blank_words [] s"

text \<open>The text after the last closing parenthesis, when there is one.\<close>

definition after_paren :: "string \<Rightarrow> string option" where
  "after_paren s =
     (if CHR '')'' \<in> set s then Some (rev (takeWhile (\<lambda>c. c \<noteq> CHR '')'') (rev s))) else None)"

definition parse_proc_stat :: "int \<Rightarrow> string \<Rightarrow> proc_info option" where
  "parse_proc_stat pid s =
     (case after_paren s of
        None \<Rightarrow> None
      | Some rest \<Rightarrow>
          (let ws = py_words rest
           in if length ws < 4 then None
              else (case (py_int (ws ! 1), py_int (ws ! 2), py_int (ws ! 3)) of
                      (Some ppid, Some pgid, Some sid) \<Rightarrow>
                        Some \<lparr>pi_pid = pid, pi_ppid = ppid, pi_pgid = pgid, pi_sid = Some sid\<rparr>
                    | _ \<Rightarrow> None)))"

text \<open>One line of \<open>ps -o pid=,ppid=,pgid=\<close>; \<open>isdigit\<close> is true of no empty word.\<close>

definition py_isdigit :: "string \<Rightarrow> bool" where
  "py_isdigit w = (w \<noteq> [] \<and> list_all py_is_digit w)"

definition parse_ps_line :: "string \<Rightarrow> proc_info list" where
  "parse_ps_line line =
     (let parts = py_words line
      in if length parts \<noteq> 3 \<or> \<not> list_all py_isdigit parts then []
         else (case (py_int (parts ! 0), py_int (parts ! 1), py_int (parts ! 2)) of
                 (Some pid, Some ppid, Some pgid) \<Rightarrow>
                   [\<lparr>pi_pid = pid, pi_ppid = ppid, pi_pgid = pgid, pi_sid = None\<rparr>]
               | _ \<Rightarrow> []))"

definition parse_ps_table :: "string list \<Rightarrow> proc_info list" where
  "parse_ps_table output_lines = concat (map parse_ps_line output_lines)"

definition SHELL_ID_ENV :: string where
  "SHELL_ID_ENV = ''QCLI_SHELL_ID''"

definition environ_has_marker :: "string \<Rightarrow> string \<Rightarrow> bool" where
  "environ_has_marker environ shell_id = (SHELL_ID_ENV @ ''='' @ shell_id \<in> set (py_split (CHR 0x00) environ))"

section \<open>Descendants\<close>

definition children_of :: "proc_info list \<Rightarrow> int \<Rightarrow> int list" where
  "children_of procs pid = map pi_pid (filter (\<lambda>p. pi_ppid p = pid) procs)"

text \<open>The inner loop: each new child is marked, listed and pushed.\<close>

fun push_children :: "int list \<Rightarrow> int list \<times> int list \<times> int list \<Rightarrow> int list \<times> int list \<times> int list" where
  "push_children [] st = st"
| "push_children (c # cs) (seen, result, stack) =
     push_children cs (if c \<in> set seen then (seen, result, stack) else (c # seen, result @ [c], stack @ [c]))"

lemma push_children_mono: "set seen \<subseteq> set (fst (push_children cs (seen, result, stack)))"
proof (induction cs arbitrary: seen result stack)
  case (Cons c cs)
  from Cons [of seen result stack] Cons [of "c # seen" "result @ [c]" "stack @ [c]"] show ?case by auto
qed simp

lemma push_children_seen: "set (fst (push_children cs (seen, result, stack))) = set seen \<union> set cs"
proof (induction cs arbitrary: seen result stack)
  case (Cons c cs)
  from Cons [of seen result stack] Cons [of "c # seen" "result @ [c]" "stack @ [c]"] show ?case by auto
qed simp

lemma push_children_same:
  "set cs \<subseteq> set seen \<Longrightarrow> push_children cs (seen, result, stack) = (seen, result, stack)"
  by (induction cs) auto

definition unseen :: "proc_info list \<Rightarrow> int list \<Rightarrow> nat" where
  "unseen procs seen = card (pi_pid ` set procs - set seen)"

lemma children_pids: "set (children_of procs pid) \<subseteq> pi_pid ` set procs"
  by (auto simp: children_of_def)

lemma push_children_less:
  assumes "\<not> set (children_of procs p) \<subseteq> set seen"
  shows "unseen procs (fst (push_children (children_of procs p) (seen, result, stack))) < unseen procs seen"
proof -
  have "set (fst (push_children (children_of procs p) (seen, result, stack))) = set seen \<union> set (children_of procs p)"
    by (rule push_children_seen)
  then show ?thesis
    unfolding unseen_def using assms children_pids [of procs p] by (intro psubset_card_mono) auto
qed

function search_loop :: "proc_info list \<Rightarrow> int list \<times> int list \<times> int list \<Rightarrow> int list" where
  "search_loop procs (seen, result, stack) =
     (if stack = [] then result
      else search_loop procs (push_children (children_of procs (last stack)) (seen, result, butlast stack)))"
  by pat_completeness auto
termination
proof (relation "inv_image ({(a, b). a < b} <*lex*> {(a, b). a < b})
    (\<lambda>(procs, seen, result, stack). (unseen procs seen, length stack))", goal_cases)
  case 1
  then show ?case by (intro wf_inv_image wf_lex_prod) (simp_all add: wf_less)
next
  case (2 procs seen result stack)
  obtain s' r' t' where p: "push_children (children_of procs (last stack)) (seen, result, butlast stack) = (s', r', t')"
    by (metis prod_cases3)
  show ?case
  proof (cases "set (children_of procs (last stack)) \<subseteq> set seen")
    case True
    with p 2 show ?thesis by (auto simp: push_children_same)
  next
    case False
    with push_children_less [OF this, of result "butlast stack"] p show ?thesis by simp
  qed
qed

declare search_loop.simps [simp del]

definition descendants :: "proc_info list \<Rightarrow> int \<Rightarrow> int list" where
  "descendants procs root = search_loop procs ([root], [], [root])"

section \<open>The processes to signal\<close>

text \<open>The marked processes are those whose environment carries the shell's identifier.\<close>

definition collect_targets ::
    "proc_info list \<Rightarrow> int list \<Rightarrow> int \<Rightarrow> int \<Rightarrow> int \<Rightarrow> bool \<Rightarrow> int list" where
  "collect_targets procs marked own_pid own_group pid include_tree =
     (let tree = (if include_tree then descendants procs pid @ [pid] else []);
          grouped = map pi_pid (filter (\<lambda>p. pi_pgid p = pid \<or> pi_sid p = Some pid) procs);
          own_members = map pi_pid (filter (\<lambda>p. pi_pgid p = own_group) procs)
      in remdups (filter (\<lambda>t. t > 1 \<and> t \<noteq> own_pid \<and> t \<notin> set own_members) (tree @ grouped @ marked)))"

section \<open>The search finds every descendant\<close>

lemma push_children_new:
  "\<exists>new. push_children cs (seen, result, stack) = (rev new @ seen, result @ new, stack @ new)
     \<and> distinct new \<and> set new = set cs - set seen"
proof (induction cs arbitrary: seen result stack)
  case Nil
  then show ?case by (auto intro: exI [of _ "[]"])
next
  case (Cons c cs)
  show ?case
  proof (cases "c \<in> set seen")
    case True
    with Cons [of seen result stack] show ?thesis by (auto simp: insert_absorb)
  next
    case False
    obtain new where new: "push_children cs (c # seen, result @ [c], stack @ [c])
        = (rev new @ c # seen, (result @ [c]) @ new, (stack @ [c]) @ new)"
      "distinct new" "set new = set cs - set (c # seen)"
      using Cons [of "c # seen" "result @ [c]" "stack @ [c]"] by blast
    with False show ?thesis by (intro exI [of _ "c # new"]) auto
  qed
qed

definition child_rel :: "proc_info list \<Rightarrow> (int \<times> int) set" where
  "child_rel procs = {(a, b). b \<in> set (children_of procs a)}"

lemma search_loop_reaches:
  assumes "set seen = insert root (set result)" "root \<notin> set result" "distinct result" "set stack \<subseteq> set seen"
    and "\<And>x. x \<in> set seen - set stack \<Longrightarrow> set (children_of procs x) \<subseteq> set seen"
    and "\<And>x. x \<in> set result \<Longrightarrow> (root, x) \<in> (child_rel procs)\<^sup>+"
  shows "distinct (search_loop procs (seen, result, stack))
    \<and> set (search_loop procs (seen, result, stack)) = {x. (root, x) \<in> (child_rel procs)\<^sup>+} - {root}"
  using assms
proof (induction procs "(seen, result, stack)" arbitrary: seen result stack rule: search_loop.induct)
  case (1 procs seen result stack)
  show ?case
  proof (cases "stack = []")
    case True
    have "x \<in> set seen" if "(root, x) \<in> (child_rel procs)\<^sup>+" for x
      using that
    proof (induction rule: trancl_induct)
      case (base y)
      then show ?case using "1.prems"(1) "1.prems"(5) [of root] True by (auto simp: child_rel_def)
    next
      case (step y z)
      then show ?case using "1.prems"(5) [of y] True by (auto simp: child_rel_def)
    qed
    then show ?thesis using True "1.prems"(1,2,3,6) by (auto simp: search_loop.simps [of procs seen result "[]"])
  next
    case False
    let ?p = "last stack"
    obtain new where new: "push_children (children_of procs ?p) (seen, result, butlast stack)
        = (rev new @ seen, result @ new, butlast stack @ new)"
      "distinct new" "set new = set (children_of procs ?p) - set seen"
      using push_children_new by blast
    have p: "?p \<in> set seen" "set (butlast stack) \<subseteq> set seen"
      using False "1.prems"(4) by (auto dest: in_set_butlastD)
    have reach: "(root, x) \<in> (child_rel procs)\<^sup>+" if "x \<in> set new" for x
    proof -
      have "(?p, x) \<in> child_rel procs" using that new(3) by (simp add: child_rel_def)
      then show ?thesis using p(1) "1.prems"(1,6) by (auto intro: trancl.trancl_into_trancl)
    qed
    have stack: "set stack = insert ?p (set (butlast stack))"
      using False by (metis append_butlast_last_id list.set(2) rotate1.simps(2) set_rotate1)
    have closed: "set (children_of procs x) \<subseteq> set (rev new @ seen)"
      if x: "x \<in> set (rev new @ seen) - set (butlast stack @ new)" for x
      using x new(3) "1.prems"(5) [of x] stack by (cases "x = ?p") auto
    have "search_loop procs (seen, result, stack) = search_loop procs (rev new @ seen, result @ new, butlast stack @ new)"
      using False new(1) by (subst search_loop.simps) simp
    moreover have "distinct (search_loop procs (rev new @ seen, result @ new, butlast stack @ new))
        \<and> set (search_loop procs (rev new @ seen, result @ new, butlast stack @ new))
          = {x. (root, x) \<in> (child_rel procs)\<^sup>+} - {root}"
    proof (rule "1.hyps" [OF False new(1)])
      show "set (rev new @ seen) = insert root (set (result @ new))" using "1.prems"(1) by auto
      show "root \<notin> set (result @ new)" "distinct (result @ new)" using "1.prems"(1,2,3) new(2,3) by auto
      show "set (butlast stack @ new) \<subseteq> set (rev new @ seen)" using p(2) by auto
      show "set (children_of procs x) \<subseteq> set (rev new @ seen)"
        if "x \<in> set (rev new @ seen) - set (butlast stack @ new)" for x using closed [OF that] .
      show "(root, x) \<in> (child_rel procs)\<^sup>+" if "x \<in> set (result @ new)" for x
        using that "1.prems"(6) reach by auto
    qed
    ultimately show ?thesis by simp
  qed
qed

text \<open>
  C40. The search for the descendants of a process ends and lists each process that descends from it
  through any number of parents exactly once, also when the table has cycles; the processes signalled for
  a shell are, with its tree, its group, its session and the marked ones, and never the server, a member
  of its group or the first process.
\<close>

theorem shell_targets_exact:
  "distinct (descendants procs pid) \<and> set (descendants procs pid) = {x. (pid, x) \<in> (child_rel procs)\<^sup>+} - {pid}
   \<and> set (collect_targets procs marked own_pid own_group pid include_tree) =
      {t. t > 1 \<and> t \<noteq> own_pid \<and> t \<notin> pi_pid ` {p \<in> set procs. pi_pgid p = own_group}
        \<and> (include_tree \<and> (pid, t) \<in> (child_rel procs)\<^sup>*
           \<or> t \<in> pi_pid ` {p \<in> set procs. pi_pgid p = pid \<or> pi_sid p = Some pid} \<or> t \<in> set marked)}"
proof -
  have d: "distinct (descendants procs pid)" "set (descendants procs pid) = {x. (pid, x) \<in> (child_rel procs)\<^sup>+} - {pid}"
    unfolding descendants_def using search_loop_reaches [of "[pid]" pid "[]" "[pid]" procs] by simp_all
  have "set (descendants procs pid @ [pid]) = {x. (pid, x) \<in> (child_rel procs)\<^sup>*}"
    using d(2) by (auto simp: rtrancl_eq_or_trancl)
  then show ?thesis using d by (auto simp: collect_targets_def Let_def)
qed

end
