(* ===== verification/Protection.thy ===== *)
theory Protection
  imports ShellSessions FileStore
begin

text \<open>
  Server-wide protection by the users plugin (\<open>server_protection.py\<close>, \<open>middleware/auth_middleware.py\<close>,
  the bearer helpers of \<open>_http.py\<close> and the external adapter of \<open>auth_service.py\<close>): which paths are public,
  which permission a path needs, and what happens to a request or a WebSocket before the application sees
  it.  Regular expressions are data with an executable matcher.  The external adapter, the check of the
  \<open>Origin\<close> header and the UTF-8 codec are arguments.
\<close>

section \<open>Regular expressions\<close>

text \<open>
  The expressions the rules use; \<open>Any_star\<close> is \<open>.*\<close>, which stops at a line break.  \<open>rests r s\<close> are the
  texts that can be left of \<open>s\<close> after a match of \<open>r\<close> at its start.
\<close>

datatype re = Lit string | Seq re re | Alt re re | Opt re | Any_star

fun any_star :: "string \<Rightarrow> string list" where
  "any_star [] = [[]]"
| "any_star (c # cs) = (c # cs) # (if c = newline then [] else any_star cs)"

primrec rests :: "re \<Rightarrow> string \<Rightarrow> string list" where
  "rests (Lit w) s = (if py_startswith s w then [drop (length w) s] else [])"
| "rests (Seq a b) s = concat (map (rests b) (rests a s))"
| "rests (Alt a b) s = rests a s @ rests b s"
| "rests (Opt a) s = rests a s @ [s]"
| "rests Any_star s = any_star s"

text \<open>\<open>re.compile("^r$").match(s)\<close>: \<open>$\<close> also matches before a line break at the end.\<close>

definition re_match :: "re \<Rightarrow> string \<Rightarrow> bool" where
  "re_match r s = list_ex (\<lambda>t. t = [] \<or> t = [newline]) (rests r s)"

definition seqs :: "re list \<Rightarrow> re" where
  "seqs rs = foldr Seq rs (Lit [])"

section \<open>The rules\<close>

type_synonym methods = "string list option"

definition in_methods :: "string \<Rightarrow> methods \<Rightarrow> bool" where
  "in_methods m ms = (case ms of None \<Rightarrow> True | Some xs \<Rightarrow> m \<in> set xs)"

definition SAFE_METHODS :: "string list" where
  "SAFE_METHODS = [''GET'', ''HEAD'', ''OPTIONS'']"

definition READS :: methods where "READS = Some [''GET'', ''HEAD'']"

definition API_BASE :: re where
  "API_BASE = seqs [Lit ''/api/'', Alt (Alt (Alt (Lit ''qcli'') (Lit ''cli'')) (Lit ''v1/qcli'')) (Lit ''v1/cli'')]"

definition PUBLIC_PATHS :: "(re \<times> methods) list" where
  "PUBLIC_PATHS =
     [(seqs [Lit ''/api/v1/qcli/sessions'', Opt (Lit ''/'')], Some [''POST'']),
      (seqs [API_BASE, Lit ''/version'', Opt (Lit ''s''), Opt (Lit ''/'')], READS),
      (seqs [API_BASE, Lit ''/capabilities'', Opt (Lit ''/'')], READS),
      (seqs [Lit ''/'', Opt (Lit ''api/''), Opt (Lit ''qcli/''), Lit ''health'',
             Opt (Alt (Lit ''z'') (seqs [Lit ''/'', Any_star]))], None),
      (seqs [Lit ''/api/v1/qcli/auth/mode'', Opt (Lit ''/'')], READS)]"

definition BELOW :: re where "BELOW = Opt (seqs [Lit ''/'', Any_star])"

definition SELF_PROTECTED :: re where
  "SELF_PROTECTED =
     seqs [Lit ''/api/v1/qcli/'',
           Alt (Alt (Alt (Lit ''sessions'') (Lit ''users'')) (Lit ''groups'')) (Lit ''tokens''), BELOW]"

definition QCLI :: "string \<Rightarrow> re" where
  "QCLI w = seqs [Lit ''/api/'', Opt (Lit ''v1/''), Lit (''qcli/'' @ w)]"

definition HTTP_RULES :: "(re \<times> methods \<times> string) list" where
  "HTTP_RULES =
     [(seqs [QCLI ''fs/'', Alt (Alt (Alt (Lit ''ls'') (Lit ''cat'')) (Lit ''stat'')) (Lit ''download''), Opt (Lit ''/'')],
       None, ''files:read''),
      (seqs [QCLI ''fs'', BELOW], None, ''files:write''),
      (seqs [QCLI ''data-explorer'', BELOW], None, ''data:query''),
      (seqs [QCLI ''jobs'', BELOW], READS, ''jobs:read''),
      (seqs [QCLI ''jobs'', BELOW], None, ''jobs:manage''),
      (seqs [Lit ''/api/v1/qcli/audit'', Opt (Lit ''/'')], READS, ''audit:read''),
      (seqs [Lit ''/api/v1/qcli/audit'', Opt (Lit ''/'')], None, ''audit:clear''),
      (seqs [QCLI ''execute'', Opt (Lit ''/stream''), Opt (Lit ''/'')], None, ''commands:execute''),
      (seqs [Lit ''/api/qcli/mcp'', Opt (Lit ''/'')], None, ''commands:execute'')]"

definition WS_QCLI :: "string \<Rightarrow> re" where
  "WS_QCLI w = seqs [Lit ''/ws/'', Opt (Lit ''v1/''), Lit (''qcli/'' @ w), Opt (Lit ''/'')]"

definition WS_RULES :: "(re \<times> string option) list" where
  "WS_RULES = [(WS_QCLI ''events'', None), (WS_QCLI ''logs'', Some ''logs:read''),
               (WS_QCLI ''shell'', Some ''shell:execute'')]"

definition http_permission :: "string \<Rightarrow> string \<Rightarrow> string list \<Rightarrow> string option" where
  "http_permission path method base_paths =
     (case find (\<lambda>(r, ms, _). re_match r path \<and> in_methods method ms) HTTP_RULES of
        Some (_, _, permission) \<Rightarrow> Some permission
      | None \<Rightarrow>
          if list_ex (\<lambda>base. re_match (seqs [Lit (base @ ''/execute''), Opt (Lit ''/stream''), Opt (Lit ''/'')]) path) base_paths
          then Some ''commands:execute'' else None)"

definition normalize_base :: "string \<Rightarrow> string" where
  "normalize_base path = ''/'' @ py_strip_chars (\<lambda>c. c = CHR ''/'') (py_strip path)"

definition ws_permission :: "string \<Rightarrow> string option" where
  "ws_permission path =
     (case find (\<lambda>(r, _). re_match r path) WS_RULES of Some (_, permission) \<Rightarrow> permission | None \<Rightarrow> None)"

definition rstrip_slash :: "string \<Rightarrow> string" where
  "rstrip_slash s = rev (dropWhile (\<lambda>c. c = CHR ''/'') (rev s))"

record protection =
  pr_extra_public :: "(string \<times> methods) list"
  pr_base_paths :: "string list"

definition is_public :: "protection \<Rightarrow> string \<Rightarrow> string \<Rightarrow> bool" where
  "is_public pr path method =
     (list_ex (\<lambda>(r, ms). re_match r path \<and> in_methods method ms) PUBLIC_PATHS
      \<or> list_ex (\<lambda>(p, ms). rstrip_slash path = rstrip_slash p \<and> in_methods method ms) (pr_extra_public pr)
      \<or> (method \<in> {''GET'', ''HEAD''}
         \<and> list_ex (\<lambda>base. rstrip_slash path \<in> {base @ ''/version'', base @ ''/capabilities''}) (pr_base_paths pr)))"

definition is_protected :: "protection \<Rightarrow> string \<Rightarrow> bool" where
  "is_protected pr path =
     (py_startswith path ''/api/'' \<or> py_startswith path ''/ws/''
      \<or> list_ex (\<lambda>base. path = base \<or> py_startswith path (base @ ''/'')) (pr_base_paths pr))"

section \<open>Requests and callers\<close>

text \<open>
  A request or WebSocket upgrade: its scope as far as protection looks at it.  \<open>rq_auth\<close> is the caller kept
  in \<open>scope["state"]\<close>.  HTTP methods are ASCII.
\<close>

record http_request =
  rq_path :: string
  rq_method :: string
  rq_headers :: "(string \<times> string) list"
  rq_query :: string
  rq_auth :: "auth_context option"

definition py_upper_ascii :: "string \<Rightarrow> string" where
  "py_upper_ascii = map (\<lambda>c. let n = (of_char c :: nat) in if 97 \<le> n \<and> n \<le> 122 then char_of (n - 32) else c)"

definition scope_header :: "string \<Rightarrow> http_request \<Rightarrow> string option" where
  "scope_header name rq = map_option snd (find (\<lambda>(k, v). py_lower k = name) (rq_headers rq))"

definition authorization :: "http_request \<Rightarrow> string" where
  "authorization rq = (case scope_header ''authorization'' rq of None \<Rightarrow> [] | Some v \<Rightarrow> v)"

definition has_bearer :: "http_request \<Rightarrow> bool" where
  "has_bearer rq = (py_lower (take 7 (authorization rq)) = ''bearer '' \<and> py_strip (drop 7 (authorization rq)) \<noteq> [])"

definition bearer_token :: "http_request \<Rightarrow> string option" where
  "bearer_token rq =
     (if py_lower (take 7 (authorization rq)) \<noteq> ''bearer '' then None
      else or_none (py_strip (drop 7 (authorization rq))))"

record external_result =
  xr_user :: user
  xr_is_admin :: bool
  xr_permissions :: "string list option"

datatype adapter_answer = Accepts external_result | Accepts_nobody | Raises_http int string | Raises_other

datatype request_error = Refused api_error | Adapter_http int string | Adapter_failed

type_synonym adapter = "http_request \<Rightarrow> adapter_answer"

definition external_context :: "env \<Rightarrow> external_result \<Rightarrow> (request_error, auth_context, auth) act" where
  "external_context e r s =
     (let u = xr_user r;
          groups = u_groups u @
            (if xr_is_admin r \<and> \<not> list_ex (\<lambda>g. py_lower g = ADMIN_GROUP) (u_groups u) then [ADMIN_GROUP] else [])
      in if u_disabled u then (Inl (Refused (unauthorized ''account disabled'')), s)
         else let (i, s1) = fresh e s; perms = effective_permissions groups s1
              in (Inr \<lparr>cx_user = u\<lparr>u_groups := groups\<rparr>, cx_groups = groups,
                       cx_permissions = (case xr_permissions r of
                                           None \<Rightarrow> perms
                                         | Some ps \<Rightarrow> if ps = [] then perms else merge_permissions [perms, ps]),
                       cx_session = Some \<lparr>se_id = ''external-'' @ i, se_token_hash = [], se_user_id = u_id u,
                                          se_user_name = u_name u, se_created_at = e_now e,
                                          se_last_activity = e_now e, se_metadata = \<lparr>sm_remote_address = None, sm_user_agent = None\<rparr>\<rparr>,
                       cx_token = None, cx_external = True, cx_api_token = None\<rparr>, s1))"

definition authenticate_external :: "env \<Rightarrow> adapter \<Rightarrow> http_request \<Rightarrow> (request_error, auth_context, auth) act" where
  "authenticate_external e ad rq s =
     (case ad rq of
        Accepts r \<Rightarrow> external_context e r s
      | Accepts_nobody \<Rightarrow> (Inl (Refused (unauthorized ''unauthorized'')), s)
      | Raises_http code detail \<Rightarrow> (Inl (Adapter_http code detail), s)
      | Raises_other \<Rightarrow> (Inl Adapter_failed, s))"

text \<open>\<open>revalidate_external\<close>: \<open>answer\<close> is the adapter's on the kept request, \<open>None\<close> when there is none.\<close>

definition revalidate_external ::
    "env \<Rightarrow> adapter_answer option \<Rightarrow> auth_context \<Rightarrow> auth \<Rightarrow> auth_context option \<times> auth" where
  "revalidate_external e answer ctx s =
     (if \<not> cx_external ctx then (None, s)
      else case answer of
        Some (Accepts r) \<Rightarrow>
          if u_id (xr_user r) \<noteq> u_id (cx_user ctx) \<or> u_disabled (xr_user r) then (None, s)
          else (case external_context e r s of (Inl _, s1) \<Rightarrow> (None, s1) | (Inr c, s1) \<Rightarrow> (Some c, s1))
      | _ \<Rightarrow> (None, s))"

definition is_external_socket_active ::
    "env \<Rightarrow> adapter_answer option \<Rightarrow> auth_context \<Rightarrow> string option \<Rightarrow> auth \<Rightarrow> bool \<times> auth" where
  "is_external_socket_active e answer ctx permission s =
     (if \<not> cx_external ctx then (True, s)
      else let (current, s1) = revalidate_external e answer ctx s
           in (case current of
                 None \<Rightarrow> False
               | Some c \<Rightarrow> (case permission of None \<Rightarrow> True | Some p \<Rightarrow> ctx_can c p), s1))"

text \<open>\<open>authenticate_request\<close>: \<open>mode\<close> is the adapter with the check of the origin, when there is one.\<close>

definition lift_api :: "(api_error, 'a, 's) act \<Rightarrow> (request_error, 'a, 's) act" where
  "lift_api f s = (case f s of (Inl er, s1) \<Rightarrow> (Inl (Refused er), s1) | (Inr x, s1) \<Rightarrow> (Inr x, s1))"

definition authenticate_request ::
    "env \<Rightarrow> (adapter \<times> (http_request \<Rightarrow> bool)) option \<Rightarrow> http_request \<Rightarrow> (request_error, auth_context, auth) act" where
  "authenticate_request e mode rq s =
     (case mode of
        Some (ad, origin_allowed) \<Rightarrow>
          if py_upper_ascii (rq_method rq) \<notin> set SAFE_METHODS \<and> \<not> has_bearer rq \<and> \<not> origin_allowed rq
          then (Inl (Refused (forbidden ''origin not allowed'')), s)
          else authenticate_external e ad rq s
      | None \<Rightarrow>
          (case bearer_token rq of
             None \<Rightarrow> (Inl (Refused (unauthorized ''unauthorized'')), s)
           | Some token \<Rightarrow> lift_api (authenticate_token e token) s))"

section \<open>The dependencies of the routes\<close>

text \<open>\<open>ready\<close> is the plugin's \<open>ensure_seeded\<close>, when it is installed.\<close>

type_synonym ready = "(api_error, unit, auth) act option"

definition ensure_ready :: "ready \<Rightarrow> (request_error, unit, auth) act" where
  "ensure_ready ready s = (case ready of None \<Rightarrow> (Inr (), s) | Some f \<Rightarrow> lift_api f s)"

definition get_auth_pending ::
    "env \<Rightarrow> ready \<Rightarrow> (adapter \<times> (http_request \<Rightarrow> bool)) option \<Rightarrow> http_request \<Rightarrow> (request_error, auth_context, auth) act" where
  "get_auth_pending e ready mode rq =
     andThen (ensure_ready ready) (\<lambda>_.
       case rq_auth rq of Some ctx \<Rightarrow> ret ctx | None \<Rightarrow> authenticate_request e mode rq)"

definition get_auth ::
    "env \<Rightarrow> ready \<Rightarrow> (adapter \<times> (http_request \<Rightarrow> bool)) option \<Rightarrow> http_request \<Rightarrow> (request_error, auth_context, auth) act" where
  "get_auth e ready mode rq =
     andThen (get_auth_pending e ready mode rq) (\<lambda>ctx.
       if must_change ctx then raise (Refused (forbidden ''password change required'')) else ret ctx)"

definition require_permission ::
    "string \<Rightarrow> env \<Rightarrow> ready \<Rightarrow> (adapter \<times> (http_request \<Rightarrow> bool)) option \<Rightarrow> http_request
       \<Rightarrow> (request_error, auth_context, auth) act" where
  "require_permission permission e ready mode rq =
     andThen (get_auth e ready mode rq) (\<lambda>ctx.
       if \<not> ctx_can ctx permission then raise (Refused (forbidden (''missing permission: '' @ permission))) else ret ctx)"

section \<open>Query parameters\<close>

text \<open>\<open>urllib.parse.unquote\<close>: in every run of ASCII characters, \<open>%XX\<close> are bytes, decoded as UTF-8.\<close>

definition hex_value :: "char \<Rightarrow> nat option" where
  "hex_value c =
     (let n = of_char c
      in if 48 \<le> n \<and> n \<le> 57 then Some (n - 48)
         else if 65 \<le> n \<and> n \<le> 70 then Some (n - 55)
         else if 97 \<le> n \<and> n \<le> 102 then Some (n - 87) else None)"

fun unquote_to_bytes :: "string \<Rightarrow> string" where
  "unquote_to_bytes (c # a # b # rest) =
     (if c = CHR ''%'' then
        (case (hex_value a, hex_value b) of
           (Some x, Some y) \<Rightarrow> char_of (16 * x + y) # unquote_to_bytes rest
         | _ \<Rightarrow> c # unquote_to_bytes (a # b # rest))
      else c # unquote_to_bytes (a # b # rest))"
| "unquote_to_bytes s = s"

definition is_ascii :: "char \<Rightarrow> bool" where
  "is_ascii c = ((of_char c :: nat) < 128)"

fun ascii_runs :: "string \<Rightarrow> (bool \<times> string) list" where
  "ascii_runs [] = []"
| "ascii_runs (c # cs) =
     (case ascii_runs cs of
        (b, w) # rest \<Rightarrow> if b = is_ascii c then (b, c # w) # rest else (is_ascii c, [c]) # (b, w) # rest
      | [] \<Rightarrow> [(is_ascii c, [c])])"

definition py_unquote :: "codec \<Rightarrow> string \<Rightarrow> string" where
  "py_unquote cd s =
     (if CHR ''%'' \<notin> set s then s
      else concat (map (\<lambda>(b, w). if b then cd_decode cd (unquote_to_bytes w) else w) (ascii_runs s)))"

definition unquote_plus :: "codec \<Rightarrow> string \<Rightarrow> string" where
  "unquote_plus cd s = py_unquote cd (map (\<lambda>c. if c = CHR ''+'' then CHR '' '' else c) s)"

text \<open>\<open>parse_qs(raw).get(name)\<close>, its first value: fields without a value do not count.\<close>

definition query_pair :: "codec \<Rightarrow> string \<Rightarrow> (string \<times> string) list" where
  "query_pair cd field =
     (let name = takeWhile (\<lambda>c. c \<noteq> CHR ''='') field; value = drop (Suc (length name)) field
      in if value = [] then [] else [(unquote_plus cd name, unquote_plus cd value)])"

definition query_param :: "codec \<Rightarrow> string \<Rightarrow> http_request \<Rightarrow> string option" where
  "query_param cd name rq = map_of (concat (map (query_pair cd) (py_split (CHR ''&'') (rq_query rq)))) name"

section \<open>The middleware\<close>

datatype outcome =
    Reaches_app "auth_context option"
  | Answers int string
  | Closes int string
  | Escapes request_error

definition answer_error :: "request_error \<Rightarrow> outcome" where
  "answer_error er =
     (case er of
        Refused (ApiError code msg) \<Rightarrow> Answers code msg
      | Adapter_http code detail \<Rightarrow> Answers code detail
      | other \<Rightarrow> Escapes other)"

definition exempt :: "protection \<Rightarrow> http_request \<Rightarrow> bool" where
  "exempt pr rq =
     (let method = py_upper_ascii (rq_method rq)
      in method = ''OPTIONS'' \<or> \<not> is_protected pr (rq_path rq) \<or> is_public pr (rq_path rq) method
         \<or> re_match SELF_PROTECTED (rq_path rq))"

definition protect_http ::
    "env \<Rightarrow> ready \<Rightarrow> (adapter \<times> (http_request \<Rightarrow> bool)) option \<Rightarrow> protection \<Rightarrow> http_request \<Rightarrow> auth \<Rightarrow> outcome \<times> auth" where
  "protect_http e ready mode pr rq s =
     (if exempt pr rq then (Reaches_app (rq_auth rq), s)
      else case ensure_ready ready s of
        (Inl er, s1) \<Rightarrow> (Escapes er, s1)
      | (Inr _, s1) \<Rightarrow>
          (case authenticate_request e mode rq s1 of
             (Inl er, s2) \<Rightarrow> (answer_error er, s2)
           | (Inr ctx, s2) \<Rightarrow>
               if must_change ctx then (Answers 403 ''password change required'', s2)
               else (case http_permission (rq_path rq) (py_upper_ascii (rq_method rq)) (pr_base_paths pr) of
                       None \<Rightarrow> (Reaches_app (Some ctx), s2)
                     | Some p \<Rightarrow>
                         if \<not> ctx_can ctx p then (Answers 403 (''missing permission: '' @ p), s2)
                         else (Reaches_app (Some ctx), s2))))"

definition protect_websocket ::
    "codec \<Rightarrow> env \<Rightarrow> ready \<Rightarrow> protection \<Rightarrow> http_request \<Rightarrow> auth \<Rightarrow> outcome \<times> auth" where
  "protect_websocket cd e ready pr rq s =
     (if \<not> is_protected pr (rq_path rq) then (Reaches_app (rq_auth rq), s)
      else case ensure_ready ready s of
        (Inl er, s1) \<Rightarrow> (Escapes er, s1)
      | (Inr _, s1) \<Rightarrow>
          (case consume_ticket e (query_param cd ''ticket'' rq) s1 of
             (None, s2) \<Rightarrow> (Closes 4401 ''unauthorized'', s2)
           | (Some ctx, s2) \<Rightarrow>
               if must_change ctx \<or> (case ws_permission (rq_path rq) of None \<Rightarrow> False | Some p \<Rightarrow> \<not> ctx_can ctx p)
               then (Closes 4403 ''forbidden'', s2)
               else (Reaches_app (Some ctx), s2)))"

text \<open>The ASGI entry point: other scopes (lifespan) pass.\<close>

datatype scope_type = Scope_http | Scope_websocket | Scope_other

definition protect ::
    "codec \<Rightarrow> env \<Rightarrow> ready \<Rightarrow> (adapter \<times> (http_request \<Rightarrow> bool)) option \<Rightarrow> protection \<Rightarrow> scope_type \<Rightarrow> http_request
       \<Rightarrow> auth \<Rightarrow> outcome \<times> auth" where
  "protect cd e ready mode pr t rq s =
     (case t of
        Scope_http \<Rightarrow> protect_http e ready mode pr rq s
      | Scope_websocket \<Rightarrow> protect_websocket cd e ready pr rq s
      | Scope_other \<Rightarrow> (Reaches_app (rq_auth rq), s))"

end
