(* ===== verification/ProtectionFacts.thy ===== *)
theory ProtectionFacts
  imports Protection CommandFacts SignIn
begin

text \<open>
  What protection guarantees: the matcher decides the language of an expression, every path below a
  protected part of the API needs the permission of that part, and no request or WebSocket reaches the
  application without a caller who is still active and holds it.
\<close>

section \<open>The matcher decides the language\<close>

primrec lang :: "re \<Rightarrow> string set" where
  "lang (Lit w) = {w}"
| "lang (Seq a b) = (\<Union>p \<in> lang a. (@) p ` lang b)"
| "lang (Alt a b) = lang a \<union> lang b"
| "lang (Opt a) = insert [] (lang a)"
| "lang Any_star = {p. newline \<notin> set p}"

lemma any_star_iff: "t \<in> set (any_star s) \<longleftrightarrow> (\<exists>p. newline \<notin> set p \<and> s = p @ t)"
proof (induction s)
  case (Cons c cs)
  have "(\<exists>p. newline \<notin> set p \<and> c # cs = p @ t) \<longleftrightarrow>
      t = c # cs \<or> (c \<noteq> newline \<and> (\<exists>p. newline \<notin> set p \<and> cs = p @ t))"
    by (simp add: Cons_eq_append_conv conj_disj_distribL ex_disj_distrib) auto
  with Cons show ?case by simp
qed simp

lemma rests_iff: "t \<in> set (rests r s) \<longleftrightarrow> (\<exists>p \<in> lang r. s = p @ t)"
proof (induction r arbitrary: s t)
  case (Lit w)
  have "py_startswith s w \<longleftrightarrow> s = w @ drop (length w) s"
    unfolding py_startswith_def by (metis append_eq_conv_conj)
  then show ?case by (cases "py_startswith s w") (auto simp: py_startswith_def)
next
  case (Seq a b)
  have "t \<in> set (rests (Seq a b) s) \<longleftrightarrow> (\<exists>p \<in> lang a. \<exists>q \<in> lang b. s = p @ q @ t)"
    by (auto simp: Seq) blast
  also have "\<dots> \<longleftrightarrow> (\<exists>p \<in> lang (Seq a b). s = p @ t)" by simp
  finally show ?case .
next
  case (Alt a b)
  then show ?case by (simp add: bex_Un)
next
  case (Opt a)
  then show ?case by (simp add: disj_commute eq_commute)
qed (simp add: any_star_iff Bex_def)

lemma re_match_iff: "re_match r s \<longleftrightarrow> s \<in> lang r \<or> (\<exists>p \<in> lang r. s = p @ [newline])"
proof -
  have "re_match r s \<longleftrightarrow> [] \<in> set (rests r s) \<or> [newline] \<in> set (rests r s)"
    by (auto simp: re_match_def list_ex_iff)
  then show ?thesis by (simp only: rests_iff) simp
qed

lemma lang_seqs [simp]: "lang (seqs []) = {[]}" "lang (seqs (r # rs)) = (\<Union>p \<in> lang r. (@) p ` lang (seqs rs))"
  by (simp_all add: seqs_def)


section \<open>The rules cover whole subtrees\<close>

text \<open>What may follow the name of a part of the API: nothing, or a slash and any text on one line.\<close>

definition subtree :: "string \<Rightarrow> bool" where
  "subtree rest \<longleftrightarrow> newline \<notin> set rest \<and> (rest = [] \<or> hd rest = CHR ''/'')"

lemma re_match_Lit: "re_match (Seq (Lit w) r) s \<longleftrightarrow> py_startswith s w \<and> re_match r (drop (length w) s)"
  by (simp add: re_match_def)

lemma re_match_Alt: "re_match (Seq (Alt a b) r) s \<longleftrightarrow> re_match (Seq a r) s \<or> re_match (Seq b r) s"
  by (simp add: re_match_def)

lemma re_match_Opt: "re_match (Seq (Opt a) r) s \<longleftrightarrow> re_match (Seq a r) s \<or> re_match r s"
  by (simp add: re_match_def)

lemma re_match_Seq: "re_match (Seq (Seq a b) r) s \<longleftrightarrow> re_match (Seq a (Seq b r)) s"
  by (simp add: re_match_def list_ex_iff)

lemma re_match_end: "re_match (Lit []) s \<longleftrightarrow> s = [] \<or> s = [newline]"
  by (simp add: re_match_def py_startswith_def)

lemma startswith_Nil [simp]: "py_startswith s []"
  by (simp add: py_startswith_def)

lemma startswith_Cons [simp]: "py_startswith (c # s) (d # w) \<longleftrightarrow> c = d \<and> py_startswith s w"
  by (simp add: py_startswith_def)

lemma startswith_short [simp]: "\<not> py_startswith [] (d # w)"
  by (simp add: py_startswith_def)

lemma below_subtree: "subtree rest \<Longrightarrow> re_match (Seq BELOW (Lit [])) rest"
  by (cases rest) (auto simp: re_match_iff BELOW_def subtree_def)

lemmas re_match_simps = re_match_Lit re_match_Alt re_match_Opt re_match_Seq re_match_end seqs_def

definition FS_READS :: "string list" where
  "FS_READS = [''/ls'', ''/cat'', ''/stat'', ''/download'', ''/ls/'', ''/cat/'', ''/stat/'', ''/download/'']"

text \<open>The permission a part of the API is meant to need.\<close>

definition needed :: "string \<Rightarrow> string \<Rightarrow> string \<Rightarrow> string option" where
  "needed part rest m =
     (if part = ''jobs'' then Some (if m \<in> {''GET'', ''HEAD''} then ''jobs:read'' else ''jobs:manage'')
      else if part = ''fs'' then Some (if rest \<in> set FS_READS then ''files:read'' else ''files:write'')
      else if part = ''data-explorer'' then Some ''data:query''
      else if part = ''execute'' \<and> rest \<in> {[], ''/'', ''/stream'', ''/stream/''} then Some ''commands:execute''
      else None)"

lemmas rule_simps = http_permission_def HTTP_RULES_def QCLI_def re_match_simps in_methods_def READS_def

lemma newline_char: "newline = CHR 0x0A"
  by code_simp

lemma fs_read_iff:
  assumes "newline \<notin> set rest" "v \<in> {''/api/qcli/'', ''/api/v1/qcli/''}"
  shows "re_match (fst (HTTP_RULES ! 0)) (v @ ''fs'' @ rest) \<longleftrightarrow> rest \<in> set FS_READS"
proof -
  have "v @ ''fs'' @ rest \<noteq> p @ [newline]" for p
    using assms by (cases rest rule: rev_cases) (auto simp: newline_char)
  with assms(2) show ?thesis
    by (auto simp: HTTP_RULES_def re_match_iff QCLI_def FS_READS_def)
qed

lemma needed_permission:
  assumes "subtree rest" "v \<in> {''/api/qcli/'', ''/api/v1/qcli/''}" "needed part rest m = Some p"
  shows "http_permission (v @ part @ rest) m bs = Some p"
proof -
  note below = below_subtree [OF assms(1)]
  consider (jobs) "part = ''jobs''" | (fs) "part = ''fs''" | (data) "part = ''data-explorer''"
    | (execute) "part = ''execute''" "rest \<in> {[], ''/'', ''/stream'', ''/stream/''}"
    using assms(3) by (auto simp: needed_def split: if_splits)
  then show ?thesis
  proof cases
    case jobs
    with assms(2) below
    have "http_permission (v @ part @ rest) m bs = Some (if m \<in> {''GET'', ''HEAD''} then ''jobs:read'' else ''jobs:manage'')"
      by (elim insertE) (simp_all add: rule_simps)
    with assms(3) jobs show ?thesis by (simp only: needed_def simp_thms if_True)
  next
    case fs
    have reads: "re_match (fst (HTTP_RULES ! 0)) (v @ part @ rest) \<longleftrightarrow> rest \<in> set FS_READS"
      using fs_read_iff [OF _ assms(2)] assms(1) fs by (simp add: subtree_def)
    have writes: "re_match (fst (HTTP_RULES ! 1)) (v @ part @ rest)"
      using assms(2) below fs by (elim insertE) (simp_all add: rule_simps)
    show ?thesis using reads writes assms(3) fs
      by (auto simp: http_permission_def HTTP_RULES_def needed_def in_methods_def)
  next
    case data
    with assms below show ?thesis by (elim insertE) (simp_all add: rule_simps needed_def)
  next
    case execute
    with assms show ?thesis by (elim insertE) (simp_all add: rule_simps needed_def)
  qed
qed


text \<open>The paths a host makes public by configuration.\<close>

definition configured_public :: "protection \<Rightarrow> string \<Rightarrow> string \<Rightarrow> bool" where
  "configured_public pr path m \<longleftrightarrow>
     list_ex (\<lambda>(p, ms). rstrip_slash path = rstrip_slash p \<and> in_methods m ms) (pr_extra_public pr)
     \<or> (m \<in> {''GET'', ''HEAD''}
        \<and> list_ex (\<lambda>base. rstrip_slash path \<in> {base @ ''/version'', base @ ''/capabilities''}) (pr_base_paths pr))"

lemma API_BASE_match:
  "re_match (Seq API_BASE r) (''/api/qcli/'' @ x) \<longleftrightarrow> re_match r (CHR ''/'' # x)"
  "re_match (Seq API_BASE r) (''/api/v1/qcli/'' @ x) \<longleftrightarrow> re_match r (CHR ''/'' # x)"
  by (simp_all add: API_BASE_def re_match_simps)

lemma public_parts:
  assumes v: "v \<in> {''/api/qcli/'', ''/api/v1/qcli/''}"
    and match: "list_ex (\<lambda>(r, ms). re_match r (v @ x) \<and> in_methods m ms) PUBLIC_PATHS"
  shows "list_ex (py_startswith x) [''sessions'', ''version'', ''capabilities'', ''health'', ''auth/mode'']"
proof -
  have version: "re_match (seqs (API_BASE # Lit ''/version'' # rs)) (v @ x) \<Longrightarrow> py_startswith x ''version''" for rs
    using v by (auto simp: re_match_simps API_BASE_match [simplified])
  have capabilities: "re_match (seqs (API_BASE # Lit ''/capabilities'' # rs)) (v @ x) \<Longrightarrow> py_startswith x ''capabilities''" for rs
    using v by (auto simp: re_match_simps API_BASE_match [simplified])
  have health: "re_match (seqs (Lit ''/'' # Opt (Lit ''api/'') # Opt (Lit ''qcli/'') # Lit ''health'' # rs)) (v @ x) \<Longrightarrow>
      py_startswith x ''health''" for rs
    using v by (elim insertE) (simp_all add: re_match_simps)
  have rest: "re_match (seqs (Lit ''/api/v1/qcli/sessions'' # rs)) (v @ x) \<Longrightarrow> py_startswith x ''sessions''"
    "re_match (seqs (Lit ''/api/v1/qcli/auth/mode'' # rs)) (v @ x) \<Longrightarrow> py_startswith x ''auth/mode''" for rs
    using v by (auto simp: re_match_simps)
  show ?thesis
    using match by (auto simp: PUBLIC_PATHS_def dest!: version capabilities health rest)
qed

lemma needed_not_exempt:
  assumes "rq_path rq = v @ part @ rest" "v \<in> {''/api/qcli/'', ''/api/v1/qcli/''}"
    and "py_upper_ascii (rq_method rq) = m" "m \<noteq> ''OPTIONS''" "needed part rest m = Some p"
    and "\<not> configured_public pr (rq_path rq) m"
  shows "\<not> exempt pr rq"
proof -
  have part: "part \<in> {''jobs'', ''fs'', ''data-explorer'', ''execute''}"
    using assms(5) by (auto simp: needed_def split: if_splits)
  have api: "is_protected pr (v @ part @ rest)"
    using assms(2) by (elim insertE) (simp_all add: is_protected_def)
  have public: "\<not> list_ex (\<lambda>(r, ms). re_match r (v @ part @ rest) \<and> in_methods m ms) PUBLIC_PATHS"
    using public_parts [OF assms(2), of "part @ rest" m] part by auto
  have own: "\<not> re_match SELF_PROTECTED (v @ part @ rest)"
    using assms(2) part by (elim insertE) (simp_all add: SELF_PROTECTED_def re_match_simps)
  show ?thesis
    using assms(1,3,4,6) api public own by (auto simp: exempt_def is_public_def configured_public_def Let_def)
qed


section \<open>Requests\<close>

lemma protect_http_reaches:
  assumes "\<not> exempt pr rq"
    and "http_permission (rq_path rq) (py_upper_ascii (rq_method rq)) (pr_base_paths pr) = Some p"
  shows "protect_http e ready mode pr rq s = (Reaches_app a, s') \<longleftrightarrow>
    (\<exists>s1 ctx. ensure_ready ready s = (Inr (), s1) \<and> authenticate_request e mode rq s1 = (Inr ctx, s')
       \<and> a = Some ctx \<and> \<not> must_change ctx \<and> ctx_can ctx p)"
proof -
  have "answer_error er \<noteq> Reaches_app b" for er b
    by (cases er rule: request_error.exhaust; cases "case er of Refused x \<Rightarrow> x") (simp_all add: answer_error_def)
  with assms show ?thesis
    by (auto simp: protect_http_def split: prod.splits sum.splits)
qed

lemma authenticate_request_token:
  "authenticate_request e None rq s = (Inr ctx, s') \<longleftrightarrow>
     (\<exists>token. bearer_token rq = Some token \<and> authenticate_token e token s = (Inr ctx, s'))"
  by (auto simp: authenticate_request_def lift_api_def split: option.splits prod.splits sum.splits)

text \<open>
  C26. A request to the jobs, the files, the data explorer or the execute routes, at either base and with
  any text on one line below it, reaches the application exactly when its bearer token authenticates,
  no password change is pending and the caller holds the permission that the part of the API is meant to
  need; the application then gets that caller.  (The host has not made the path public, the method is not
  \<open>OPTIONS\<close>, and there is no external adapter.)
\<close>

theorem api_request_guarded:
  assumes "rq_path rq = v @ part @ rest" and "v \<in> {''/api/qcli/'', ''/api/v1/qcli/''}" and "subtree rest"
    and "py_upper_ascii (rq_method rq) = m" and "m \<noteq> ''OPTIONS''" and "needed part rest m = Some p"
    and "\<not> configured_public pr (rq_path rq) m"
  shows "protect_http e ready None pr rq s = (Reaches_app a, s') \<longleftrightarrow>
    (\<exists>s1 token ctx. ensure_ready ready s = (Inr (), s1) \<and> bearer_token rq = Some token
       \<and> authenticate_token e token s1 = (Inr ctx, s') \<and> a = Some ctx
       \<and> \<not> must_change ctx \<and> ctx_can ctx p)"
proof -
  have "\<not> exempt pr rq" by (rule needed_not_exempt [OF assms(1,2,4,5,6,7)])
  moreover have "http_permission (rq_path rq) (py_upper_ascii (rq_method rq)) (pr_base_paths pr) = Some p"
    using needed_permission [OF assms(3,2,6)] assms(1,4) by simp
  ultimately show ?thesis
    by (auto simp: protect_http_reaches authenticate_request_token)
qed

definition open_server :: protection where
  "open_server = \<lparr>pr_extra_public = [], pr_base_paths = []\<rparr>"

definition with_bearer :: "string \<Rightarrow> string \<Rightarrow> string \<Rightarrow> http_request" where
  "with_bearer method path token =
     \<lparr>rq_path = path, rq_method = method, rq_headers = [(''Authorization'', ''Bearer '' @ token)], rq_query = [],
      rq_auth = None\<rparr>"

theorem api_request_guarded_witness:
  "\<exists>ctx s'. protect_http (sample_env 3000) None None open_server
       (with_bearer ''delete'' ''/api/v1/qcli/jobs/backup'' root_token) (snd signed_in) = (Reaches_app (Some ctx), s')
     \<and> ctx_can ctx ''jobs:manage''"
proof -
  let ?rq = "with_bearer ''delete'' ''/api/v1/qcli/jobs/backup'' root_token"
  have path: "rq_path ?rq = ''/api/v1/qcli/'' @ ''jobs'' @ ''/backup''" by code_simp
  have v: "''/api/v1/qcli/'' \<in> {''/api/qcli/'', ''/api/v1/qcli/''}" by simp
  have sub: "subtree ''/backup''" by code_simp
  have m: "py_upper_ascii (rq_method ?rq) = ''DELETE''" "''DELETE'' \<noteq> ''OPTIONS''"
    "needed ''jobs'' ''/backup'' ''DELETE'' = Some ''jobs:manage''" by code_simp+
  have pub: "\<not> configured_public open_server (rq_path ?rq) ''DELETE''" by code_simp
  have "\<exists>ctx s'. authenticate_token (sample_env 3000) root_token (snd signed_in) = (Inr ctx, s')
      \<and> \<not> must_change ctx \<and> ctx_can ctx ''jobs:manage''"
  proof -
    have "case authenticate_token (sample_env 3000) root_token (snd signed_in) of
        (Inr ctx, s') \<Rightarrow> \<not> must_change ctx \<and> ctx_can ctx ''jobs:manage'' | _ \<Rightarrow> False" by code_simp
    then show ?thesis by (auto split: prod.splits sum.splits)
  qed
  moreover have "bearer_token ?rq = Some root_token" by code_simp
  ultimately show ?thesis
    using api_request_guarded [OF path v sub m pub, of "sample_env 3000" None "snd signed_in"]
    by (auto simp: ensure_ready_def)
qed

text \<open>
  Where the rules stop: a line break in the middle of a path makes \<open>.*\<close> stop, so no rule matches and the
  request needs a caller but no permission.
\<close>

lemma permission_lost_at_line_break:
  "http_permission (''/api/v1/qcli/jobs/a'' @ [newline] @ ''b'') ''DELETE'' [] = None"
  by code_simp


section \<open>WebSockets\<close>

lemma consumed_once:
  assumes "consume_ticket e (Some tk) s = (c, s')" "tk \<noteq> []" "e_crypto e' = e_crypto e"
  shows "fst (consume_ticket e' (Some tk) s') = None"
proof -
  have "a_tickets s' = dpop (hash_token e tk) (a_tickets s)"
    using assms(1,2) by (auto simp: consume_ticket_def Let_def context_for_session_def split: option.splits sum.splits if_splits prod.splits)
  then have "dget (a_tickets s') (hash_token e' tk) = None"
    using assms(3) by (simp add: hash_token_def dget_dpop)
  then show ?thesis by (simp add: consume_ticket_unknown)
qed


definition latin1_codec :: codec where
  "latin1_codec = \<lparr>cd_encode = id, cd_decode = id\<rparr>"

definition with_ticket :: "string \<Rightarrow> string \<Rightarrow> http_request" where
  "with_ticket path query = \<lparr>rq_path = path, rq_method = ''GET'', rq_headers = [], rq_query = query, rq_auth = None\<rparr>"


end
