(* ===== verification/EventSockets.thy ===== *)
theory EventSockets
  imports Events
begin

text \<open>
  The managers of the event sockets (\<open>cli_event_socket_manager.py\<close>) and of the log sockets
  (\<open>cli_log_socket_manager.py\<close>): connections, audiences, the queue of every event socket and its sender,
  log levels, and the end of a session.  Both are session-bound sockets.
\<close>

section \<open>Event sockets\<close>

definition MAX_PENDING_EVENTS :: nat where "MAX_PENDING_EVENTS = 1000"

record client_info =
  ci_id :: string
  ci_connected_at :: string
  ci_remote_address :: string
  ci_user_id :: "string option"
  ci_user_name :: "string option"
  ci_session_id :: "string option"

datatype ws_message = Ws_json "(string, json) dict" | Ws_text string

text \<open>
  The tables of the manager.  A sender is \<open>True\<close> while its loop runs; \<open>em_sent\<close> and \<open>em_closed\<close> log what the
  sockets were given.
\<close>

record event_sockets =
  em_bound :: "(nat, auth_context) dict"
  em_clients :: "nat list"
  em_info :: "(nat, client_info) dict"
  em_principals :: "(nat, auth_context) dict"
  em_outboxes :: "(nat, ws_message list) dict"
  em_senders :: "(nat, bool) dict"
  em_next_client_id :: nat
  em_sent :: "(nat \<times> ws_message) list"
  em_closed :: "(nat \<times> int \<times> string) list"

definition new_event_sockets :: event_sockets where
  "new_event_sockets =
     \<lparr>em_bound = [], em_clients = [], em_info = [], em_principals = [], em_outboxes = [], em_senders = [],
      em_next_client_id = 1, em_sent = [], em_closed = []\<rparr>"

definition requires_authentication :: "(bool option) option \<Rightarrow> bool" where
  "requires_authentication check =
     (case check of None \<Rightarrow> False | Some None \<Rightarrow> True | Some (Some b) \<Rightarrow> b)"

definition receives :: "auth_context option \<Rightarrow> event_audience \<Rightarrow> bool \<Rightarrow> bool" where
  "receives p a requires_auth =
     (if is_everyone a then True
      else case p of
        None \<Rightarrow> \<not> requires_auth
      | Some c \<Rightarrow> au_user_id a = Some (u_id (cx_user c))
                  \<or> (case au_permission a of None \<Rightarrow> False | Some perm \<Rightarrow> ctx_can c perm))"

definition enqueue :: "ws_message \<Rightarrow> nat \<Rightarrow> event_sockets \<Rightarrow> event_sockets" where
  "enqueue msg w s =
     (case dget (em_outboxes s) w of
        None \<Rightarrow> s
      | Some q \<Rightarrow> if length q < MAX_PENDING_EVENTS then s\<lparr>em_outboxes := dset w (q @ [msg]) (em_outboxes s)\<rparr> else s)"

definition publish_event :: "bool \<Rightarrow> cli_event \<Rightarrow> event_sockets \<Rightarrow> event_sockets" where
  "publish_event requires_auth ev s =
     foldl (\<lambda>t w. if receives (dget (em_principals t) w) (ce_audience ev) requires_auth
                   then enqueue (Ws_json (to_message ev)) w t else t) s (em_clients s)"

text \<open>One turn of \<open>_send_loop\<close>: \<open>ok\<close> tells whether the socket takes the message.\<close>

definition send_step :: "nat \<Rightarrow> bool \<Rightarrow> event_sockets \<Rightarrow> event_sockets" where
  "send_step w ok s =
     (case (dget (em_senders s) w, dget (em_outboxes s) w) of
        (Some True, Some (msg # q)) \<Rightarrow>
          (let s1 = s\<lparr>em_outboxes := dset w q (em_outboxes s)\<rparr>
           in if ok then s1\<lparr>em_sent := em_sent s @ [(w, msg)]\<rparr>
              else s1\<lparr>em_senders := dset w False (em_senders s)\<rparr>)
      | _ \<Rightarrow> s)"

definition stop_sender :: "nat \<Rightarrow> event_sockets \<Rightarrow> event_sockets" where
  "stop_sender w s = s\<lparr>em_outboxes := dpop w (em_outboxes s), em_senders := dpop w (em_senders s)\<rparr>"

definition drop_client :: "nat \<Rightarrow> event_sockets \<Rightarrow> event_sockets" where
  "drop_client w s =
     s\<lparr>em_clients := removeAll w (em_clients s), em_info := dpop w (em_info s), em_principals := dpop w (em_principals s)\<rparr>"

definition event_session_ended :: "nat \<Rightarrow> event_sockets \<Rightarrow> event_sockets" where
  "event_session_ended w s = drop_client w (stop_sender w s)"

definition event_ops :: "event_sockets socket_ops" where
  "event_ops =
     \<lparr>so_bound = em_bound, so_set_bound = (\<lambda>d s. s\<lparr>em_bound := d\<rparr>), so_session_ended = event_session_ended,
      so_close = (\<lambda>w c r s. s\<lparr>em_closed := em_closed s @ [(w, c, r)]\<rparr>)\<rparr>"

definition connected :: ws_message where
  "connected = Ws_json [(''type'', JStr ''connected'')]"

definition info_of :: "nat \<Rightarrow> string \<Rightarrow> string option \<Rightarrow> auth_context option \<Rightarrow> client_info" where
  "info_of n now peer identity =
     \<lparr>ci_id = ''evt-'' @ show_nat n, ci_connected_at = now,
      ci_remote_address = (case peer of Some (c # cs) \<Rightarrow> c # cs | _ \<Rightarrow> ''unknown''),
      ci_user_id = map_option (\<lambda>c. u_id (cx_user c)) identity,
      ci_user_name = map_option (\<lambda>c. u_name (cx_user c)) identity,
      ci_session_id = (case identity of None \<Rightarrow> None | Some c \<Rightarrow> map_option se_id (cx_session c))\<rparr>"

text \<open>\<open>handle_connection\<close> up to its receive loop, and its \<open>finally\<close> clause.\<close>

definition connect_socket :: "nat \<Rightarrow> string \<Rightarrow> string option \<Rightarrow> auth_context option \<Rightarrow> event_sockets \<Rightarrow> event_sockets" where
  "connect_socket w now peer identity s =
     (let s1 = s\<lparr>em_clients := List.insert w (em_clients s),
                 em_principals := (case identity of None \<Rightarrow> em_principals s | Some c \<Rightarrow> dset w c (em_principals s)),
                 em_info := dset w (info_of (em_next_client_id s) now peer identity) (em_info s),
                 em_next_client_id := Suc (em_next_client_id s)\<rparr>;
          s2 = bind_socket event_ops w identity s1
      in s2\<lparr>em_outboxes := dset w [connected] (em_outboxes s2), em_senders := dset w True (em_senders s2)\<rparr>)"

definition disconnect_socket :: "nat \<Rightarrow> event_sockets \<Rightarrow> event_sockets" where
  "disconnect_socket w s = drop_client w (stop_sender w (unbind_socket event_ops w s))"

text \<open>Messages that do not go through the queues: \<open>works\<close> tells which sockets take them.\<close>

definition broadcast_message :: "(nat \<Rightarrow> bool) \<Rightarrow> string \<Rightarrow> event_sockets \<Rightarrow> event_sockets" where
  "broadcast_message works msg s =
     s\<lparr>em_sent := em_sent s @ map (\<lambda>w. (w, Ws_text msg)) (filter works (em_clients s))\<rparr>"

definition send_to_user :: "(nat \<Rightarrow> bool) \<Rightarrow> string \<Rightarrow> string \<Rightarrow> event_sockets \<Rightarrow> event_sockets" where
  "send_to_user works user_id msg s =
     s\<lparr>em_sent := em_sent s @
         map (\<lambda>(w, i). (w, Ws_text msg)) (filter (\<lambda>(w, i). ci_user_id i = Some user_id \<and> works w) (em_info s))\<rparr>"

definition get_clients :: "event_sockets \<Rightarrow> client_info list" where
  "get_clients s = dvalues (em_info s)"

definition disconnecting :: ws_message where
  "disconnecting = Ws_json [(''type'', JStr ''disconnect'')]"

definition broadcast_disconnect :: "(nat \<Rightarrow> bool) \<Rightarrow> event_sockets \<Rightarrow> event_sockets" where
  "broadcast_disconnect works s =
     s\<lparr>em_outboxes := filter (\<lambda>(w, q). dget (em_senders s) w = None) (em_outboxes s), em_senders := [],
       em_sent := em_sent s @ map (\<lambda>w. (w, disconnecting)) (filter works (em_clients s)),
       em_closed := em_closed s @ map (\<lambda>w. (w, 1000, [])) (filter works (em_clients s)),
       em_clients := [], em_info := [], em_principals := []\<rparr>"

interpretation event_socks: session_sockets event_ops "\<lambda>s w. w \<in> set (em_clients s)" em_closed
  by unfold_locales (auto simp: event_ops_def event_session_ended_def drop_client_def stop_sender_def)


section \<open>Log sockets\<close>

record log_sockets =
  lm_bound :: "(nat, auth_context) dict"
  lm_clients :: "(nat, nat \<times> string option) dict"
  lm_next_id :: nat
  lm_sent :: "(nat \<times> ws_message) list"
  lm_closed :: "(nat \<times> int \<times> string) list"

definition new_log_sockets :: log_sockets where
  "new_log_sockets = \<lparr>lm_bound = [], lm_clients = [], lm_next_id = 0, lm_sent = [], lm_closed = []\<rparr>"

definition LEVEL_ORDER :: "(string, nat) dict" where
  "LEVEL_ORDER = [(''verbose'', 0), (''debug'', 1), (''information'', 2), (''warning'', 3), (''error'', 4), (''fatal'', 5)]"

definition should_send_log :: "string option \<Rightarrow> string \<Rightarrow> bool" where
  "should_send_log filter_level log_level =
     (case filter_level of
        None \<Rightarrow> True
      | Some f \<Rightarrow>
          if f = [] then True
          else case (dget LEVEL_ORDER (py_lower f), dget LEVEL_ORDER (py_lower log_level)) of
                 (Some m, Some n) \<Rightarrow> m \<le> n | _ \<Rightarrow> True)"

definition map_log_level :: "int \<Rightarrow> string" where
  "map_log_level n =
     (if n \<le> 10 then ''debug'' else if n \<le> 20 then ''information'' else if n \<le> 30 then ''warning''
      else if n \<le> 40 then ''error'' else ''fatal'')"

definition format_log_message :: "string \<Rightarrow> string \<Rightarrow> string \<Rightarrow> string option \<Rightarrow> ws_message" where
  "format_log_message now level msg category =
     Ws_json [(''type'', JStr ''log''), (''timestamp'', JStr now), (''level'', JStr (py_lower level)),
              (''message'', JStr msg), (''category'', case category of None \<Rightarrow> JNull | Some c \<Rightarrow> JStr c)]"

text \<open>\<open>works\<close> tells which sockets take a message; a failed send is ignored.\<close>

definition broadcast_log ::
    "(nat \<Rightarrow> bool) \<Rightarrow> string \<Rightarrow> string \<Rightarrow> string \<Rightarrow> string option \<Rightarrow> log_sockets \<Rightarrow> log_sockets" where
  "broadcast_log works now level msg category s =
     (let targets = map fst (filter (\<lambda>(w, f). should_send_log f level) (dvalues (lm_clients s)))
      in s\<lparr>lm_sent := lm_sent s @ map (\<lambda>w. (w, format_log_message now level msg category)) (filter works targets)\<rparr>)"

definition log_session_ended :: "nat \<Rightarrow> log_sockets \<Rightarrow> log_sockets" where
  "log_session_ended w s = s\<lparr>lm_clients := filter (\<lambda>(i, v, f). v \<noteq> w) (lm_clients s)\<rparr>"

definition log_ops :: "log_sockets socket_ops" where
  "log_ops =
     \<lparr>so_bound = lm_bound, so_set_bound = (\<lambda>d s. s\<lparr>lm_bound := d\<rparr>), so_session_ended = log_session_ended,
      so_close = (\<lambda>w c r s. s\<lparr>lm_closed := lm_closed s @ [(w, c, r)]\<rparr>)\<rparr>"

definition log_connect :: "nat \<Rightarrow> string option \<Rightarrow> auth_context option \<Rightarrow> log_sockets \<Rightarrow> nat \<times> log_sockets" where
  "log_connect w level_filter identity s =
     (let s1 = s\<lparr>lm_clients := dset (lm_next_id s) (w, level_filter) (lm_clients s), lm_next_id := Suc (lm_next_id s)\<rparr>;
          s2 = bind_socket log_ops w identity s1
      in (lm_next_id s, s2\<lparr>lm_sent := lm_sent s2 @ [(w, connected)]\<rparr>))"

definition log_disconnect :: "nat \<Rightarrow> nat \<Rightarrow> log_sockets \<Rightarrow> log_sockets" where
  "log_disconnect w client_id s =
     (let s1 = unbind_socket log_ops w s in s1\<lparr>lm_clients := dpop client_id (lm_clients s1)\<rparr>)"

definition log_broadcast_disconnect :: "(nat \<Rightarrow> bool) \<Rightarrow> log_sockets \<Rightarrow> log_sockets" where
  "log_broadcast_disconnect works s =
     (let targets = filter works (map fst (dvalues (lm_clients s)))
      in s\<lparr>lm_sent := lm_sent s @ map (\<lambda>w. (w, disconnecting)) targets,
           lm_closed := lm_closed s @ map (\<lambda>w. (w, 1000, [])) targets, lm_clients := []\<rparr>)"

interpretation log_socks: session_sockets log_ops "\<lambda>s w. \<exists>(i, v, f) \<in> set (lm_clients s). v = w" lm_closed
  by unfold_locales (auto simp: log_ops_def log_session_ended_def)

end
