(* ===== verification/EventFacts.thy ===== *)
theory EventFacts
  imports EventSockets AuthFacts SignIn
begin

text \<open>
  What holds of events: who receives one, in which order, that queues stay bounded, and that a socket ends
  with its session.
\<close>

section \<open>The tables of the event sockets\<close>

definition sockets_ok :: "event_sockets \<Rightarrow> bool" where
  "sockets_ok s \<longleftrightarrow>
     distinct (em_clients s) \<and> dict_ok (em_bound s) \<and> dict_ok (em_principals s) \<and> dict_ok (em_outboxes s)
     \<and> fst ` set (em_outboxes s) \<subseteq> fst ` set (em_senders s)
     \<and> fst ` set (em_principals s) \<union> fst ` set (em_outboxes s) \<subseteq> set (em_clients s)
     \<and> (\<forall>w q. dget (em_outboxes s) w = Some q \<longrightarrow> length q \<le> MAX_PENDING_EVENTS)"

inductive socket_step :: "event_sockets \<Rightarrow> event_sockets \<Rightarrow> bool" where
  connect: "socket_step s (connect_socket w now peer identity s)"
| disconnect: "socket_step s (disconnect_socket w s)"
| published: "socket_step s (publish_event requires_auth ev s)"
| sent: "socket_step s (send_step w ok s)"
| recheck: "socket_step s (request_recheck event_ops check s)"
| to_all: "socket_step s (broadcast_message works msg s)"
| to_user: "socket_step s (send_to_user works user_id msg s)"
| shutdown: "socket_step s (broadcast_disconnect works s)"

lemma dset_keys: "fst ` set (dset k v d) = insert k (fst ` set d)"
  by (induction d) auto

lemma dpop_keys: "fst ` set (dpop k d) = fst ` set d - {k}"
  by (auto simp: set_dpop)

lemma enqueue_outboxes:
  "dget (em_outboxes (enqueue msg w s)) v =
     (case dget (em_outboxes s) v of
        None \<Rightarrow> None
      | Some q \<Rightarrow> Some (if v = w \<and> length q < MAX_PENDING_EVENTS then q @ [msg] else q))"
  by (auto simp: enqueue_def dget_dset split: option.splits)

lemma enqueue_frame [simp]:
  "em_clients (enqueue msg w s) = em_clients s" "em_principals (enqueue msg w s) = em_principals s"
  "em_bound (enqueue msg w s) = em_bound s" "em_senders (enqueue msg w s) = em_senders s"
  "em_sent (enqueue msg w s) = em_sent s" "em_info (enqueue msg w s) = em_info s"
  "em_closed (enqueue msg w s) = em_closed s" "fst ` set (em_outboxes (enqueue msg w s)) = fst ` set (em_outboxes s)"
  "dict_ok (em_outboxes s) \<Longrightarrow> dict_ok (em_outboxes (enqueue msg w s))"
  by (auto simp: enqueue_def dset_keys split: option.splits) (force dest: map_of_SomeD)+

lemma publish_fold:
  fixes requires_auth :: bool
  defines "step \<equiv> \<lambda>ev t w. if receives (dget (em_principals t) w) (ce_audience ev) requires_auth
                   then enqueue (Ws_json (to_message ev)) w t else t"
  assumes "distinct ws"
  shows "em_clients (foldl (step ev) s ws) = em_clients s \<and> em_principals (foldl (step ev) s ws) = em_principals s
    \<and> em_bound (foldl (step ev) s ws) = em_bound s \<and> em_senders (foldl (step ev) s ws) = em_senders s
    \<and> em_sent (foldl (step ev) s ws) = em_sent s
    \<and> fst ` set (em_outboxes (foldl (step ev) s ws)) = fst ` set (em_outboxes s)
    \<and> (dict_ok (em_outboxes s) \<longrightarrow> dict_ok (em_outboxes (foldl (step ev) s ws)))
    \<and> (\<forall>v. dget (em_outboxes (foldl (step ev) s ws)) v =
         map_option (\<lambda>q. if v \<in> set ws \<and> receives (dget (em_principals s) v) (ce_audience ev) requires_auth
                            \<and> length q < MAX_PENDING_EVENTS
                          then q @ [Ws_json (to_message ev)] else q) (dget (em_outboxes s) v))"
  using assms(2)
proof (induction ws arbitrary: s)
  case Nil
  then show ?case by (simp add: option.map_ident)
next
  case (Cons w ws)
  have frame: "em_clients (step ev s w) = em_clients s" "em_principals (step ev s w) = em_principals s"
    "em_bound (step ev s w) = em_bound s" "em_senders (step ev s w) = em_senders s" "em_sent (step ev s w) = em_sent s"
    "fst ` set (em_outboxes (step ev s w)) = fst ` set (em_outboxes s)"
    "dict_ok (em_outboxes s) \<longrightarrow> dict_ok (em_outboxes (step ev s w))"
    "dget (em_outboxes (step ev s w)) v =
       map_option (\<lambda>q. if v = w \<and> receives (dget (em_principals s) v) (ce_audience ev) requires_auth
                          \<and> length q < MAX_PENDING_EVENTS
                        then q @ [Ws_json (to_message ev)] else q) (dget (em_outboxes s) v)" for v
    by (simp_all add: step_def) (auto simp: enqueue_outboxes split: option.splits)
  have out: "dget (em_outboxes (foldl (step ev) (step ev s w) ws)) v =
       map_option (\<lambda>q. if v \<in> set (w # ws) \<and> receives (dget (em_principals s) v) (ce_audience ev) requires_auth
                          \<and> length q < MAX_PENDING_EVENTS
                        then q @ [Ws_json (to_message ev)] else q) (dget (em_outboxes s) v)" for v
  proof -
    have "dget (em_outboxes (foldl (step ev) (step ev s w) ws)) v =
       map_option (\<lambda>q. if v \<in> set ws \<and> receives (dget (em_principals (step ev s w)) v) (ce_audience ev) requires_auth
                          \<and> length q < MAX_PENDING_EVENTS
                        then q @ [Ws_json (to_message ev)] else q) (dget (em_outboxes (step ev s w)) v)"
      using Cons.IH [of "step ev s w"] Cons.prems by simp
    with Cons.prems show ?thesis
      unfolding frame by (cases "dget (em_outboxes s) v"; cases "v = w") simp_all
  qed
  show ?case using Cons.IH [of "step ev s w"] Cons.prems out by (simp add: frame)
qed


lemma publish_effect:
  assumes "sockets_ok s"
  shows "em_clients (publish_event ra ev s) = em_clients s" "em_principals (publish_event ra ev s) = em_principals s"
    "em_bound (publish_event ra ev s) = em_bound s" "em_senders (publish_event ra ev s) = em_senders s"
    "em_sent (publish_event ra ev s) = em_sent s"
    "fst ` set (em_outboxes (publish_event ra ev s)) = fst ` set (em_outboxes s)"
    "dict_ok (em_outboxes (publish_event ra ev s))"
    "dget (em_outboxes (publish_event ra ev s)) w =
       map_option (\<lambda>q. if receives (dget (em_principals s) w) (ce_audience ev) ra \<and> length q < MAX_PENDING_EVENTS
                        then q @ [Ws_json (to_message ev)] else q) (dget (em_outboxes s) w)"
proof -
  have ok: "distinct (em_clients s)" "dict_ok (em_outboxes s)" using assms by (simp_all add: sockets_ok_def)
  note fold = publish_fold [OF ok(1), of ev ra s, folded publish_event_def]
  show "em_clients (publish_event ra ev s) = em_clients s" "em_principals (publish_event ra ev s) = em_principals s"
    "em_bound (publish_event ra ev s) = em_bound s" "em_senders (publish_event ra ev s) = em_senders s"
    "em_sent (publish_event ra ev s) = em_sent s"
    "fst ` set (em_outboxes (publish_event ra ev s)) = fst ` set (em_outboxes s)"
    "dict_ok (em_outboxes (publish_event ra ev s))"
    using fold ok(2) by auto
  have "dget (em_outboxes s) w \<noteq> None \<Longrightarrow> w \<in> set (em_clients s)"
    using assms by (auto simp: sockets_ok_def dest!: map_of_SomeD intro: rev_image_eqI)
  with fold show "dget (em_outboxes (publish_event ra ev s)) w =
       map_option (\<lambda>q. if receives (dget (em_principals s) w) (ce_audience ev) ra \<and> length q < MAX_PENDING_EVENTS
                        then q @ [Ws_json (to_message ev)] else q) (dget (em_outboxes s) w)"
    by (cases "dget (em_outboxes s) w") auto
qed


lemma drop_ok: "sockets_ok s \<Longrightarrow> sockets_ok (drop_client w (stop_sender w s))"
  by (auto simp: sockets_ok_def drop_client_def stop_sender_def dpop_keys distinct_removeAll dget_dpop split: if_splits)

lemma unbind_ok: "sockets_ok s \<Longrightarrow> sockets_ok (unbind_socket event_ops w s)"
  by (simp add: sockets_ok_def unbind_socket_def event_ops_def)

lemma check_ok: "sockets_ok s \<Longrightarrow> sockets_ok (check_socket event_ops alive w s)"
proof -
  assume "sockets_ok s"
  then have "sockets_ok (event_session_ended w (unbind_socket event_ops w s))"
    by (simp add: event_session_ended_def drop_ok unbind_ok)
  with \<open>sockets_ok s\<close> show ?thesis by (auto simp: check_socket_def event_ops_def sockets_ok_def)
qed

lemma checks_ok: "sockets_ok s \<Longrightarrow> sockets_ok (check_sockets event_ops alive ws s)"
  by (induction event_ops alive ws s rule: check_sockets.induct) (simp_all add: check_ok)

lemma connect_ok: "sockets_ok s \<Longrightarrow> sockets_ok (connect_socket w now peer identity s)"
  by (cases identity)
    (auto simp: sockets_ok_def connect_socket_def bind_socket_def event_ops_def Let_def dset_keys dget_dset
      MAX_PENDING_EVENTS_def split: if_splits)

lemma publish_ok: "sockets_ok s \<Longrightarrow> sockets_ok (publish_event ra ev s)"
  using publish_effect [of s ra ev] by (auto simp: sockets_ok_def split: if_splits)

lemma shorter_outbox_ok:
  "sockets_ok s \<Longrightarrow> dget (em_outboxes s) w = Some (msg # q) \<Longrightarrow> sockets_ok (s\<lparr>em_outboxes := dset w q (em_outboxes s)\<rparr>)"
proof -
  assume s: "sockets_ok s" and q: "dget (em_outboxes s) w = Some (msg # q)"
  from q have w: "w \<in> fst ` set (em_outboxes s)" by (auto dest: map_of_SomeD intro: rev_image_eqI)
  have "length q \<le> MAX_PENDING_EVENTS" using s q by (force simp: sockets_ok_def)
  with s w show ?thesis by (auto simp: sockets_ok_def dset_keys insert_absorb dget_dset split: if_splits)
qed

lemma send_step_cases:
  obtains "send_step w ok s = s"
  | msg q where "dget (em_outboxes s) w = Some (msg # q)" "ok"
      "send_step w ok s = s\<lparr>em_outboxes := dset w q (em_outboxes s), em_sent := em_sent s @ [(w, msg)]\<rparr>"
  | msg q where "dget (em_outboxes s) w = Some (msg # q)" "\<not> ok"
      "send_step w ok s = s\<lparr>em_outboxes := dset w q (em_outboxes s), em_senders := dset w False (em_senders s)\<rparr>"
  by (cases "dget (em_outboxes s) w"; cases "the (dget (em_outboxes s) w)"; cases "dget (em_senders s) w = Some True"; cases ok)
    (simp_all add: send_step_def split: option.splits bool.splits)

lemma send_ok:
  assumes "sockets_ok s"
  shows "sockets_ok (send_step w ok s)"
proof (cases rule: send_step_cases [of w ok s])
  case (2 msg q)
  with shorter_outbox_ok [OF assms 2(1)] show ?thesis by (simp add: sockets_ok_def)
next
  case (3 msg q)
  with shorter_outbox_ok [OF assms 3(1)] show ?thesis by (simp add: sockets_ok_def) (simp only: dset_keys subset_insertI2)
qed (simp add: assms)

lemma shutdown_ok:
  assumes "sockets_ok s"
  shows "sockets_ok (broadcast_disconnect works s)"
proof -
  have sub: "fst ` set (em_outboxes s) \<subseteq> fst ` set (em_senders s)" using assms by (simp add: sockets_ok_def)
  have "dget (em_senders s) w \<noteq> None" if "(w, q) \<in> set (em_outboxes s)" for w q
  proof -
    have "w \<in> fst ` set (em_outboxes s)" using that by (rule rev_image_eqI) simp
    with sub show ?thesis by (auto simp: map_of_eq_None_iff)
  qed
  then have "filter (\<lambda>(w, q). dget (em_senders s) w = None) (em_outboxes s) = []"
    by (auto simp: filter_empty_conv)
  with assms show ?thesis by (simp add: sockets_ok_def broadcast_disconnect_def)
qed

interpretation event_system: invariant_system "\<lambda>s. s = new_event_sockets" socket_step sockets_ok
proof
  fix s t assume "sockets_ok s" "socket_step s t"
  from this(2,1) show "sockets_ok t"
    by (induction rule: socket_step.induct)
      (simp_all add: connect_ok publish_ok send_ok shutdown_ok checks_ok drop_ok unbind_ok disconnect_socket_def
        request_recheck_def broadcast_message_def send_to_user_def sockets_ok_def [of "_\<lparr>em_sent := _\<rparr>"]
        split: option.split, simp_all add: sockets_ok_def)
qed (simp add: new_event_sockets_def sockets_ok_def)


section \<open>What a socket receives, and in which order\<close>

datatype socket_op =
    Do_connect nat string "string option" "auth_context option"
  | Do_disconnect nat
  | Do_publish bool cli_event
  | Do_send nat bool
  | Do_recheck "(auth_context \<Rightarrow> bool) option"
  | Do_broadcast "nat \<Rightarrow> bool" string
  | Do_user "nat \<Rightarrow> bool" string string

fun do_op :: "event_sockets \<Rightarrow> socket_op \<Rightarrow> event_sockets" where
  "do_op s (Do_connect w now peer identity) = connect_socket w now peer identity s"
| "do_op s (Do_disconnect w) = disconnect_socket w s"
| "do_op s (Do_publish ra ev) = publish_event ra ev s"
| "do_op s (Do_send w ok) = send_step w ok s"
| "do_op s (Do_recheck check) = request_recheck event_ops check s"
| "do_op s (Do_broadcast works msg) = broadcast_message works msg s"
| "do_op s (Do_user works i msg) = send_to_user works i msg s"

lemma do_op_step: "socket_step s (do_op s x)"
  by (cases x) (auto intro: socket_step.intros)

text \<open>The operations that leave socket \<open>w\<close> of caller \<open>p\<close> connected.\<close>

fun stays :: "nat \<Rightarrow> auth_context option \<Rightarrow> socket_op \<Rightarrow> bool" where
  "stays w p (Do_connect v now peer identity) = (v \<noteq> w)"
| "stays w p (Do_disconnect v) = (v \<noteq> w)"
| "stays w p (Do_recheck (Some alive)) = (\<forall>c. p = Some c \<longrightarrow> alive c)"
| "stays w p x = True"

fun for_socket :: "auth_context option \<Rightarrow> socket_op \<Rightarrow> ws_message list" where
  "for_socket p (Do_publish ra ev) = (if receives p (ce_audience ev) ra then [Ws_json (to_message ev)] else [])"
| "for_socket p x = []"

definition events_for :: "auth_context option \<Rightarrow> socket_op list \<Rightarrow> ws_message list" where
  "events_for p xs = concat (map (for_socket p) xs)"

definition is_json :: "ws_message \<Rightarrow> bool" where
  "is_json m = (case m of Ws_json _ \<Rightarrow> True | Ws_text _ \<Rightarrow> False)"

text \<open>What went through the queue of a socket.\<close>

definition sent_to :: "nat \<Rightarrow> event_sockets \<Rightarrow> ws_message list" where
  "sent_to w s = map snd (filter (\<lambda>(v, m). v = w \<and> is_json m) (em_sent s))"

definition view :: "nat \<Rightarrow> event_sockets \<Rightarrow>
    ws_message list option \<times> auth_context option \<times> auth_context option \<times> ws_message list" where
  "view w s = (dget (em_outboxes s) w, dget (em_principals s) w, dget (em_bound s) w, sent_to w s)"

lemma view_connect: "v \<noteq> w \<Longrightarrow> view w (connect_socket v now peer identity s) = view w s"
  by (cases identity)
    (simp_all add: view_def sent_to_def connect_socket_def bind_socket_def event_ops_def Let_def dget_dset)

lemma view_ended: "v \<noteq> w \<Longrightarrow> view w (drop_client v (stop_sender v (unbind_socket event_ops v s))) = view w s"
  by (simp add: view_def sent_to_def drop_client_def stop_sender_def unbind_socket_def event_ops_def dget_dpop)

lemma view_check:
  assumes "v = w \<Longrightarrow> alive"
  shows "view w (check_socket event_ops alive v s) = view w s"
proof (cases "alive \<or> dget (em_bound s) v = None")
  case False
  with assms have "v \<noteq> w" by blast
  have "check_socket event_ops alive v s =
      (let t = drop_client v (stop_sender v (unbind_socket event_ops v s))
       in t\<lparr>em_closed := em_closed t @ [(v, CLOSE_SESSION_ENDED, REASON_SESSION_ENDED)]\<rparr>)"
    using False by (auto simp: check_socket_def event_ops_def event_session_ended_def Let_def)
  then show ?thesis
    using view_ended [OF \<open>v \<noteq> w\<close>, of s] by (simp add: Let_def view_def sent_to_def)
qed (simp add: check_socket_def event_ops_def)

lemma view_checks: "\<forall>d. (w, d) \<in> set ws \<longrightarrow> alive d \<Longrightarrow> view w (check_sockets event_ops alive ws s) = view w s"
proof (induction event_ops alive ws s rule: check_sockets.induct)
  case (2 alive v c ws s)
  then show ?case using view_check [of v w "alive c" s] by auto
qed simp

lemma view_texts:
  "view w (broadcast_message works msg s) = view w s" "view w (send_to_user works i msg s) = view w s"
  by (simp_all add: view_def sent_to_def broadcast_message_def send_to_user_def is_json_def filter_map comp_def case_prod_beta)

lemma view_send_other: "v \<noteq> w \<Longrightarrow> view w (send_step v ok s) = view w s"
  by (cases rule: send_step_cases [of v ok s]) (simp_all add: view_def sent_to_def dget_dset)

definition queue_ok :: "nat \<Rightarrow> auth_context option \<Rightarrow> ws_message list \<Rightarrow> bool \<Rightarrow> event_sockets \<Rightarrow> bool" where
  "queue_ok w p hist all_sent s \<longleftrightarrow>
     sockets_ok s \<and>
     (\<exists>q sent. view w s = (Some q, p, p, sent) \<and> list_all is_json q \<and> subseq (sent @ q) hist
        \<and> (all_sent \<and> length hist \<le> MAX_PENDING_EVENTS \<longrightarrow> sent @ q = hist))"

lemma queue_publish:
  assumes "queue_ok w p hist all_sent s"
  shows "queue_ok w p (hist @ for_socket p (Do_publish ra ev)) all_sent (publish_event ra ev s)"
proof -
  obtain q sent where v: "sockets_ok s" "view w s = (Some q, p, p, sent)" "list_all is_json q" "subseq (sent @ q) hist"
    "all_sent \<and> length hist \<le> MAX_PENDING_EVENTS \<longrightarrow> sent @ q = hist"
    using assms by (auto simp: queue_ok_def)
  note eff = publish_effect [OF v(1), of ra ev]
  let ?m = "Ws_json (to_message ev)"
  let ?q = "if receives p (ce_audience ev) ra \<and> length q < MAX_PENDING_EVENTS then q @ [?m] else q"
  have view: "view w (publish_event ra ev s) = (Some ?q, p, p, sent)"
    using v(2) eff by (simp add: view_def sent_to_def)
  have sub: "subseq (sent @ ?q) (hist @ for_socket p (Do_publish ra ev))"
    using v(4) list_emb_append_mono [OF v(4), of "[?m]" "[?m]"] by (auto intro: list_emb_append2)
  have len: "length q \<le> length hist" using list_emb_length [OF v(4)] by simp
  have json: "list_all is_json ?q" using v(3) by (simp add: is_json_def)
  have "sent @ ?q = hist @ for_socket p (Do_publish ra ev)"
    if "all_sent" "length (hist @ for_socket p (Do_publish ra ev)) \<le> MAX_PENDING_EVENTS"
    using that v(5) len by auto
  with publish_ok [OF v(1)] view json sub show ?thesis unfolding queue_ok_def by blast
qed


lemma queue_send:
  assumes "queue_ok w p hist all_sent s" "all_sent \<longrightarrow> ok"
  shows "queue_ok w p hist all_sent (send_step w ok s)"
proof -
  obtain q sent where v: "sockets_ok s" "view w s = (Some q, p, p, sent)" "list_all is_json q" "subseq (sent @ q) hist"
    "all_sent \<and> length hist \<le> MAX_PENDING_EVENTS \<longrightarrow> sent @ q = hist"
    using assms(1) by (auto simp: queue_ok_def)
  note ok' = send_ok [OF v(1), of w ok]
  show ?thesis
  proof (cases rule: send_step_cases [of w ok s])
    case 1
    with assms(1) show ?thesis by simp
  next
    case (2 msg rest)
    with v(2) have q: "q = msg # rest" by (simp add: view_def)
    have "view w (send_step w ok s) = (Some rest, p, p, sent @ [msg])"
      using 2 v(2,3) q by (simp add: view_def sent_to_def dget_dset)
    with ok' v(3-5) q show ?thesis by (auto simp: queue_ok_def)
  next
    case (3 msg rest)
    with v(2) have q: "q = msg # rest" by (simp add: view_def)
    have "view w (send_step w ok s) = (Some rest, p, p, sent)"
      using 3 v(2) by (simp add: view_def sent_to_def dget_dset)
    moreover have "subseq (sent @ rest) hist"
      using v(4) q by (meson list_emb_append_mono subseq_Cons' subseq_order.order_refl subseq_order.order_trans)
    ultimately show ?thesis using ok' v(3) q assms(2) 3(2) by (auto simp: queue_ok_def)
  qed
qed

lemma queue_other: "queue_ok w p hist all_sent s \<Longrightarrow> sockets_ok t \<Longrightarrow> view w t = view w s \<Longrightarrow> queue_ok w p hist all_sent t"
  by (simp add: queue_ok_def)

definition sends_ok :: "nat \<Rightarrow> socket_op \<Rightarrow> bool" where
  "sends_ok w x \<longleftrightarrow> x \<noteq> Do_send w False"

lemma queue_step:
  assumes "queue_ok w p hist all_sent s" "stays w p x"
  shows "queue_ok w p (hist @ for_socket p x) (all_sent \<and> sends_ok w x) (do_op s x)"
proof -
  have ok: "sockets_ok (do_op s x)"
    using assms(1) event_system.inv_step [OF _ do_op_step] by (auto simp: queue_ok_def)
  have weaker: "queue_ok w p hist (all_sent \<and> b) s" for b
    using assms(1) by (auto simp: queue_ok_def)
  note other = queue_other [OF weaker ok]
  show ?thesis
  proof (cases x)
    case (Do_publish ra ev)
    with queue_publish [OF weaker] show ?thesis by simp
  next
    case (Do_send v okay)
    show ?thesis
    proof (cases "v = w")
      case True
      with Do_send queue_send [OF weaker [of "sends_ok w x"], of okay] show ?thesis by (cases okay) (auto simp: sends_ok_def)
    next
      case False
      with Do_send other [of "sends_ok w x"] show ?thesis by (simp add: view_send_other)
    qed
  next
    case (Do_recheck check)
    have "dict_ok (em_bound s)" "dget (em_bound s) w = p"
      using assms(1) by (auto simp: queue_ok_def sockets_ok_def view_def)
    then have "(w, d) \<in> set (em_bound s) \<Longrightarrow> p = Some d" for d by (simp flip: dget_in)
    with Do_recheck assms(2) have "view w (do_op s x) = view w s"
      by (cases check) (auto simp: request_recheck_def event_ops_def [THEN arg_cong [of _ _ so_bound]] intro!: view_checks)
    with Do_recheck other [of "sends_ok w x"] show ?thesis by simp
  qed (use other [of "sends_ok w x"] assms(2) in \<open>simp_all add: view_connect view_ended view_texts disconnect_socket_def\<close>)
qed

lemma queue_run:
  assumes "queue_ok w p hist True s" "list_all (stays w p) xs"
  shows "queue_ok w p (hist @ events_for p xs) (list_all (sends_ok w) xs) (foldl do_op s xs)"
  using assms(2)
proof (induction xs rule: rev_induct)
  case Nil
  with assms(1) show ?case by (simp add: events_for_def)
next
  case (snoc x xs)
  then show ?case using queue_step [of w p "hist @ events_for p xs" "list_all (sends_ok w) xs" "foldl do_op s xs" x]
    by (simp add: events_for_def)
qed



definition sample_event :: "string \<Rightarrow> event_audience \<Rightarrow> cli_event" where
  "sample_event type a = make_event ''2026-11-06T10:15:00.000Z'' type [] a"

definition sample_socket_ops :: "socket_op list" where
  "sample_socket_ops =
     [Do_publish True (sample_event ''job:started'' (with_permission ''jobs:read'')),
      Do_connect 8 [] None None, Do_publish True (sample_event ''audit:entry'' (audience_user ''nobody'')),
      Do_send 7 True, Do_publish True (sample_event ''server:tick'' everyone), Do_disconnect 8, Do_send 7 True]"


section \<open>Sockets end with their session\<close>




text \<open>
  The permissions of an event socket are those its caller had when it connected: an event still reaches a
  socket whose user has meanwhile lost the permission, as long as the session lives.
\<close>

lemma socket_permissions_are_kept:
  "receives (dget (em_principals (connect_socket w now peer (Some c) s)) w) (with_permission p) ra \<longleftrightarrow> ctx_can c p"
  by (simp add: connect_socket_def bind_socket_def event_ops_def Let_def dget_dset receives_def with_permission_def
      is_everyone_def everyone_def)

section \<open>Log levels\<close>

text \<open>A level filter lets a known level through exactly when it is at least as severe.\<close>

lemma log_levels_ordered:
  assumes "i < length LEVEL_ORDER" "j < length LEVEL_ORDER"
  shows "should_send_log (Some (fst (LEVEL_ORDER ! i))) (fst (LEVEL_ORDER ! j)) \<longleftrightarrow> i \<le> j"
proof -
  have "\<forall>i \<in> set [0..<length LEVEL_ORDER]. \<forall>j \<in> set [0..<length LEVEL_ORDER].
      should_send_log (Some (fst (LEVEL_ORDER ! i))) (fst (LEVEL_ORDER ! j)) = (i \<le> j)" by code_simp
  with assms show ?thesis by simp
qed

section \<open>The bus\<close>

text \<open>
  Publishing runs the matching handlers in the order of their subscription, also after one that raised;
  unsubscribing takes exactly one subscription out, even when the same handler is subscribed twice.
\<close>

lemma publish_runs_handlers:
  "bus_publish now type data audience b s =
     foldl (\<lambda>t h. snd (h (make_event now type data audience) t)) s
       (map (snd \<circ> snd) (filter (\<lambda>(i, pattern, h). event_pattern_matches type pattern) (eb_subscriptions b)))"
proof -
  have "run_handlers ev subs s = foldl (\<lambda>t h. snd (h ev t)) s
       (map (snd \<circ> snd) (filter (\<lambda>(i, pattern, h). event_pattern_matches (ce_type ev) pattern) subs))" for ev subs
    by (induction ev subs s rule: run_handlers.induct) auto
  then show ?thesis by (simp add: bus_publish_def make_event_def Let_def)
qed

lemma unsubscribe_removes_one:
  assumes "\<forall>x \<in> set (eb_subscriptions b). fst x < eb_next b" "subscribe pattern h b = (i, b1)"
  shows "eb_subscriptions (unsubscribe i b1) = eb_subscriptions b"
  using assms by (fastforce simp: subscribe_def unsubscribe_def dpop_filter filter_id_conv)

end
