(* ===== verification/SqliteFiles.thy ===== *)
theory SqliteFiles
  imports MemFiles
begin

text \<open>
  The SQLite file storage provider (\<open>filesystem-sqlite/qodalis_cli_filesystem_sqlite/sqlite_provider.py\<close>).  The
  state is the table \<open>files\<close>, its rows in the order of their ids; a statement is a function on the table.
  Changes of one connection are visible to it before they are committed, so commits are not modelled.  \<open>LIKE\<close>
  is SQLite's: \<open>%\<close> any text, \<open>_\<close> any character, letters without regard to ASCII case, no escape.
\<close>

section \<open>The table\<close>

record file_row =
  rw_path :: string
  rw_name :: string
  rw_type :: string
  rw_content :: "string option"
  rw_size :: nat
  rw_permissions :: string
  rw_created_at :: string
  rw_modified_at :: string
  rw_parent_path :: "string option"

type_synonym file_table = "file_row list"

definition row_at :: "string \<Rightarrow> file_table \<Rightarrow> file_row option" where
  "row_at path t = find (\<lambda>r. rw_path r = path) t"

definition insert_row :: "file_row \<Rightarrow> file_table \<Rightarrow> file_table" where
  "insert_row r t = t @ [r]"

definition delete_where :: "(file_row \<Rightarrow> bool) \<Rightarrow> file_table \<Rightarrow> file_table" where
  "delete_where p t = filter (\<lambda>r. \<not> p r) t"

definition update_where :: "(file_row \<Rightarrow> bool) \<Rightarrow> (file_row \<Rightarrow> file_row) \<Rightarrow> file_table \<Rightarrow> file_table" where
  "update_where p f t = map (\<lambda>r. if p r then f r else r) t"

definition ascii_lower :: "char \<Rightarrow> char" where
  "ascii_lower c = (let n = (of_char c :: nat) in if 65 \<le> n \<and> n \<le> 90 then char_of (n + 32) else c)"

fun sql_like :: "string \<Rightarrow> string \<Rightarrow> bool" where
  "sql_like [] s = (s = [])"
| "sql_like (a # p) [] = (a = CHR ''%'' \<and> sql_like p [])"
| "sql_like (a # p) (c # s) =
     (if a = CHR ''%'' then sql_like p (c # s) \<or> sql_like (a # p) s
      else (a = CHR ''_'' \<or> ascii_lower a = ascii_lower c) \<and> sql_like p s)"

section \<open>Paths\<close>

definition sq_parts :: "string \<Rightarrow> string list" where
  "sq_parts path =
     (let p = py_strip path in if p \<in> {[], ''.'', ''/''} then [] else foldl path_step [] (py_split SLASH p))"

definition sq_normalize :: "string \<Rightarrow> string" where
  "sq_normalize path = ''/'' @ py_join [SLASH] (sq_parts path)"

text \<open>\<open>path[:path.rfind("/")]\<close>, and \<open>/\<close> when the last slash is the first character.\<close>

definition before_last_slash :: "string \<Rightarrow> string" where
  "before_last_slash path = rev (drop 1 (dropWhile (\<lambda>c. c \<noteq> SLASH) (rev path)))"

definition sq_parent_path :: "string \<Rightarrow> string option" where
  "sq_parent_path path =
     (if path = ''/'' then None
      else Some (if before_last_slash path = [] then ''/'' else before_last_slash path))"

text \<open>\<open>path.rsplit("/", 1)[-1]\<close>.\<close>

definition base_name :: "string \<Rightarrow> string" where
  "base_name path = rev (takeWhile (\<lambda>c. c \<noteq> SLASH) (rev path))"

section \<open>Operations\<close>

definition dir_row :: "string \<Rightarrow> string \<Rightarrow> string \<Rightarrow> string option \<Rightarrow> file_row" where
  "dir_row now path name parent =
     \<lparr>rw_path = path, rw_name = name, rw_type = ''directory'', rw_content = None, rw_size = 0,
      rw_permissions = ''drwxr-xr-x'', rw_created_at = now, rw_modified_at = now, rw_parent_path = parent\<rparr>"

definition sq_open :: "string \<Rightarrow> file_table \<Rightarrow> file_table" where
  "sq_open now t = (if row_at ''/'' t = None then insert_row (dir_row now ''/'' [] None) t else t)"

fun sq_ensure_loop :: "string \<Rightarrow> string \<Rightarrow> string list \<Rightarrow> (fs_error, unit, file_table) act" where
  "sq_ensure_loop now current [] t = (Inr (), t)"
| "sq_ensure_loop now current (part # parts) t =
     (let cur = current @ ''/'' @ part
      in case row_at cur t of
           Some r \<Rightarrow> if rw_type r \<noteq> ''directory'' then (Inl (Fs_not_a_directory cur), t)
                     else sq_ensure_loop now cur parts t
         | None \<Rightarrow> sq_ensure_loop now cur parts (insert_row (dir_row now cur part (sq_parent_path cur)) t))"

definition sq_ensure_parents :: "string \<Rightarrow> string \<Rightarrow> (fs_error, unit, file_table) act" where
  "sq_ensure_parents now path t =
     (let norm = sq_normalize path
      in if norm = ''/'' then (Inr (), t)
         else sq_ensure_loop now [] (py_split SLASH (py_strip_chars (\<lambda>c. c = SLASH) norm)) t)"

definition sq_list :: "string \<Rightarrow> file_table \<Rightarrow> fs_error + file_entry list" where
  "sq_list path t =
     (let norm = sq_normalize path
      in case row_at norm t of
           None \<Rightarrow> Inl (Fs_not_found path)
         | Some r \<Rightarrow>
             if rw_type r \<noteq> ''directory'' then Inl (Fs_not_a_directory path)
             else Inr (map (\<lambda>r. \<lparr>fe_name = rw_name r, fe_type = rw_type r, fe_size = rw_size r,
                                 fe_modified = rw_modified_at r, fe_permissions = rw_permissions r\<rparr>)
                        (sort_key rw_name (filter (\<lambda>r. rw_parent_path r = Some norm) t))))"

definition sq_read_file :: "string \<Rightarrow> file_table \<Rightarrow> fs_error + string" where
  "sq_read_file path t =
     (case row_at (sq_normalize path) t of
        None \<Rightarrow> Inl (Fs_not_found path)
      | Some r \<Rightarrow> if rw_type r = ''directory'' then Inl (Fs_is_a_directory path)
                  else Inr (case rw_content r of None \<Rightarrow> [] | Some c \<Rightarrow> c))"

definition sq_stat :: "string \<Rightarrow> file_table \<Rightarrow> fs_error + file_stat" where
  "sq_stat path t =
     (case row_at (sq_normalize path) t of
        None \<Rightarrow> Inl (Fs_not_found path)
      | Some r \<Rightarrow> Inr \<lparr>fst_name = rw_name r, fst_type = rw_type r, fst_size = rw_size r,
                       fst_created = rw_created_at r, fst_modified = rw_modified_at r,
                       fst_permissions = rw_permissions r\<rparr>)"

definition sq_exists :: "string \<Rightarrow> file_table \<Rightarrow> bool" where
  "sq_exists path t = (row_at (sq_normalize path) t \<noteq> None)"

definition sq_download :: "codec \<Rightarrow> string \<Rightarrow> file_table \<Rightarrow> fs_error + string" where
  "sq_download cd path t =
     (case sq_read_file path t of Inl e \<Rightarrow> Inl e | Inr content \<Rightarrow> Inr (cd_encode cd content))"

definition sq_text :: "codec \<Rightarrow> file_data \<Rightarrow> string" where
  "sq_text cd data = (case data of Text s \<Rightarrow> s | Bytes b \<Rightarrow> cd_decode cd b)"

definition sq_write_file :: "codec \<Rightarrow> string \<Rightarrow> string \<Rightarrow> file_data \<Rightarrow> (fs_error, unit, file_table) act" where
  "sq_write_file cd now path data t =
     (let norm = sq_normalize path; content = sq_text cd data; k = length (cd_encode cd content);
          parent = sq_parent_path norm
      in if norm = ''/'' then (Inl (Fs_is_a_directory path), t)
         else case (if parent \<noteq> None \<and> parent \<noteq> Some ''/'' then sq_ensure_parents now (the parent) t else (Inr (), t)) of
           (Inl e, t1) \<Rightarrow> (Inl e, t1)
         | (Inr _, t1) \<Rightarrow>
             (case row_at norm t1 of
                Some r \<Rightarrow>
                  if rw_type r = ''directory'' then (Inl (Fs_is_a_directory path), t1)
                  else (Inr (), update_where (\<lambda>r. rw_path r = norm)
                          (\<lambda>r. r\<lparr>rw_content := Some content, rw_size := k, rw_modified_at := now\<rparr>) t1)
              | None \<Rightarrow>
                  (Inr (), insert_row
                     \<lparr>rw_path = norm, rw_name = base_name norm, rw_type = ''file'', rw_content = Some content, rw_size = k,
                      rw_permissions = ''-rw-r--r--'', rw_created_at = now, rw_modified_at = now, rw_parent_path = parent\<rparr> t1)))"

definition sq_upload_file :: "codec \<Rightarrow> string \<Rightarrow> string \<Rightarrow> string \<Rightarrow> (fs_error, unit, file_table) act" where
  "sq_upload_file cd now path content = sq_write_file cd now path (Bytes content)"

definition sq_mkdir :: "string \<Rightarrow> string \<Rightarrow> bool \<Rightarrow> (fs_error, unit, file_table) act" where
  "sq_mkdir now path recursive t =
     (let norm = sq_normalize path; parent = sq_parent_path norm
      in if norm = ''/'' then (Inr (), t)
         else if recursive then sq_ensure_parents now norm t
         else case (case parent of None \<Rightarrow> Inr () | Some p \<Rightarrow>
                      (case row_at p t of None \<Rightarrow> Inl (Fs_not_found path)
                       | Some r \<Rightarrow> if rw_type r \<noteq> ''directory'' then Inl (Fs_not_a_directory path) else Inr ())) of
           Inl e \<Rightarrow> (Inl e, t)
         | Inr _ \<Rightarrow>
             (case row_at norm t of
                Some r \<Rightarrow> if rw_type r \<noteq> ''directory'' then (Inl (Fs_exists path), t) else (Inr (), t)
              | None \<Rightarrow> (Inr (), insert_row (dir_row now norm (base_name norm) parent) t)))"

definition below :: "string \<Rightarrow> file_row \<Rightarrow> bool" where
  "below norm r = sql_like (norm @ ''/%'') (rw_path r)"

definition sq_remove :: "string \<Rightarrow> bool \<Rightarrow> (fs_error, unit, file_table) act" where
  "sq_remove path recursive t =
     (let norm = sq_normalize path
      in if norm = ''/'' then (Inl (Fs_permission path), t)
         else case row_at norm t of
           None \<Rightarrow> (Inl (Fs_not_found path), t)
         | Some r \<Rightarrow>
             if rw_type r = ''directory'' \<and> \<not> recursive \<and> list_ex (\<lambda>x. rw_parent_path x = Some norm) t
             then (Inl (Fs_not_a_directory path), t)
             else if recursive then (Inr (), delete_where (\<lambda>x. rw_path x = norm \<or> below norm x) t)
             else (Inr (), delete_where (\<lambda>x. rw_path x = norm) t))"

definition put_row :: "file_row \<Rightarrow> file_table \<Rightarrow> file_table" where
  "put_row r t = insert_row r (delete_where (\<lambda>x. rw_path x = rw_path r) t)"

definition copied_row :: "string \<Rightarrow> string \<Rightarrow> string \<Rightarrow> file_row \<Rightarrow> file_row" where
  "copied_row now path name r =
     r\<lparr>rw_path := path, rw_name := name, rw_created_at := now, rw_modified_at := now, rw_parent_path := sq_parent_path path\<rparr>"

definition sq_copy :: "string \<Rightarrow> string \<Rightarrow> string \<Rightarrow> (fs_error, unit, file_table) act" where
  "sq_copy now src dest t =
     (let src_norm = sq_normalize src; dest_norm = sq_normalize dest; dest_parent = sq_parent_path dest_norm
      in if dest_norm = ''/'' then (Inl (Fs_is_a_directory dest), t)
         else case row_at src_norm t of
           None \<Rightarrow> (Inl (Fs_not_found src), t)
         | Some src_row \<Rightarrow>
             (case (if dest_parent \<noteq> None \<and> dest_parent \<noteq> Some ''/''
                    then sq_ensure_parents now (the dest_parent) t else (Inr (), t)) of
                (Inl e, t1) \<Rightarrow> (Inl e, t1)
              | (Inr _, t1) \<Rightarrow>
                  (let t2 = put_row (copied_row now dest_norm (base_name dest_norm) src_row) t1
                   in (Inr (),
                       if rw_type src_row = ''directory''
                       then foldl (\<lambda>u desc. put_row (copied_row now (dest_norm @ drop (length src_norm) (rw_path desc))
                                                      (rw_name desc) desc) u)
                              t2 (filter (below src_norm) t2)
                       else t2))))"

definition sq_move :: "string \<Rightarrow> string \<Rightarrow> string \<Rightarrow> (fs_error, unit, file_table) act" where
  "sq_move now src dest t =
     (let src_norm = sq_normalize src; dest_norm = sq_normalize dest
      in if src_norm = ''/'' then (Inl (Fs_permission src), t)
         else if dest_norm = ''/'' then (Inl (Fs_is_a_directory dest), t)
         else case row_at src_norm t of
           None \<Rightarrow> (Inl (Fs_not_found src), t)
         | Some _ \<Rightarrow>
             (case sq_copy now src dest t of
                (Inl e, t1) \<Rightarrow> (Inl e, t1)
              | (Inr _, t1) \<Rightarrow> (Inr (), delete_where (\<lambda>x. rw_path x = src_norm \<or> below src_norm x) t1)))"

definition sq_apply :: "codec \<Rightarrow> string \<Rightarrow> fs_op \<Rightarrow> (fs_error, unit, file_table) act" where
  "sq_apply cd now x =
     (case x of
        Op_write p d \<Rightarrow> sq_write_file cd now p d
      | Op_mkdir p rec \<Rightarrow> sq_mkdir now p rec
      | Op_remove p rec \<Rightarrow> sq_remove p rec
      | Op_copy src dest \<Rightarrow> sq_copy now src dest
      | Op_move src dest \<Rightarrow> sq_move now src dest)"

end
