(* ===== verification/SqliteFacts.thy ===== *)
theory SqliteFacts
  imports SqliteFiles
begin

text \<open>
  What holds of the SQLite provider: its table keeps one row per path and its root, a written text is read
  back and nothing else changes, and what a recursive removal takes: exactly the directory as long as no
  other path looks like it to \<open>LIKE\<close>, and other directories when one does.
\<close>

section \<open>Rows\<close>

lemma row_at_insert:
  "row_at p (insert_row r t) = (case row_at p t of Some x \<Rightarrow> Some x | None \<Rightarrow> if rw_path r = p then Some r else None)"
  by (induction t) (auto simp: row_at_def insert_row_def)

lemma row_at_delete: "(\<And>r. rw_path r = p \<Longrightarrow> \<not> P r) \<Longrightarrow> row_at p (delete_where P t) = row_at p t"
  by (induction t) (auto simp: row_at_def delete_where_def)

lemma row_at_update:
  "(\<And>r. rw_path (f r) = rw_path r) \<Longrightarrow>
     row_at p (update_where P f t) = map_option (\<lambda>r. if P r then f r else r) (row_at p t)"
  by (induction t) (auto simp: row_at_def update_where_def)

lemma row_at_put: "row_at p (put_row r t) = (if p = rw_path r then Some r else row_at p t)"
proof (cases "p = rw_path r")
  case True
  have "row_at (rw_path r) (delete_where (\<lambda>x. rw_path x = rw_path r) t) = None"
    by (induction t) (auto simp: row_at_def delete_where_def)
  with True show ?thesis by (simp add: put_row_def row_at_insert)
next
  case False
  with row_at_delete [of p "\<lambda>x. rw_path x = rw_path r" t] show ?thesis
    by (simp add: put_row_def row_at_insert split: option.split)
qed

lemma row_at_in: "row_at p t = Some r \<Longrightarrow> r \<in> set t \<and> rw_path r = p"
  by (auto simp: row_at_def find_Some_iff)

lemma row_at_None: "row_at p t = None \<longleftrightarrow> p \<notin> rw_path ` set t"
  by (auto simp: row_at_def find_None_iff)

definition table_ok :: "file_table \<Rightarrow> bool" where
  "table_ok t \<longleftrightarrow> distinct (map rw_path t) \<and> (\<exists>r. row_at ''/'' t = Some r \<and> rw_type r = ''directory'')"

lemma insert_ok: "table_ok t \<Longrightarrow> row_at (rw_path r) t = None \<Longrightarrow> table_ok (insert_row r t)"
  by (auto simp: table_ok_def row_at_insert) (simp add: insert_row_def row_at_None)

lemma put_ok: "table_ok t \<Longrightarrow> rw_path r \<noteq> ''/'' \<Longrightarrow> table_ok (put_row r t)"
  by (auto simp: table_ok_def row_at_put)
    (auto simp: put_row_def insert_row_def delete_where_def distinct_map_filter)

lemma delete_ok: "table_ok t \<Longrightarrow> (\<And>r. rw_path r = ''/'' \<Longrightarrow> \<not> P r) \<Longrightarrow> table_ok (delete_where P t)"
  by (auto simp: table_ok_def row_at_delete) (simp add: delete_where_def distinct_map_filter)

lemma update_ok:
  "table_ok t \<Longrightarrow> (\<And>r. rw_path (f r) = rw_path r) \<Longrightarrow> (\<And>r. rw_type (f r) = rw_type r) \<Longrightarrow> table_ok (update_where P f t)"
proof -
  assume t: "table_ok t" and f: "\<And>r. rw_path (f r) = rw_path r" "\<And>r. rw_type (f r) = rw_type r"
  have "map rw_path (update_where P f t) = map rw_path t" by (simp add: update_where_def f)
  moreover obtain r where "row_at ''/'' t = Some r" "rw_type r = ''directory''" using t by (auto simp: table_ok_def)
  then have "row_at ''/'' (update_where P f t) = Some (if P r then f r else r)" "rw_type (if P r then f r else r) = ''directory''"
    by (simp_all add: row_at_update f)
  ultimately show ?thesis using t unfolding table_ok_def by auto
qed

lemma foldl_put_ok:
  "table_ok t \<Longrightarrow> (\<And>r. rw_path (f r) \<noteq> ''/'') \<Longrightarrow> table_ok (foldl (\<lambda>u r. put_row (f r) u) t rs)"
  by (induction rs arbitrary: t) (simp_all add: put_ok)

section \<open>LIKE\<close>

lemma like_length: "sql_like p s \<Longrightarrow> length (filter (\<lambda>a. a \<noteq> CHR ''%'') p) \<le> length s"
  by (induction p s rule: sql_like.induct) (auto split: if_splits)

lemma like_any: "sql_like [CHR ''%''] s"
  by (induction s) simp_all

text \<open>The texts a pattern without \<open>%\<close> matches.\<close>

definition lookalike :: "string \<Rightarrow> string \<Rightarrow> bool" where
  "lookalike p q \<longleftrightarrow> list_all2 (\<lambda>a c. a = CHR ''_'' \<or> ascii_lower a = ascii_lower c) p q"

lemma like_append:
  "CHR ''%'' \<notin> set p \<Longrightarrow>
     sql_like (p @ r) s \<longleftrightarrow> length p \<le> length s \<and> lookalike p (take (length p) s) \<and> sql_like r (drop (length p) s)"
proof (induction p arbitrary: s)
  case (Cons a p)
  then show ?case by (cases s) (auto simp: lookalike_def)
qed (simp add: lookalike_def)

lemma ascii_lower_slash: "ascii_lower (CHR ''/'') = ascii_lower c \<longleftrightarrow> c = CHR ''/''"
proof -
  have "(of_char c :: nat) < 256" by (cases c) simp
  then show ?thesis
    by (auto simp: ascii_lower_def Let_def of_char_of dest: arg_cong [where f = "of_char :: char \<Rightarrow> nat"])
qed

lemma like_below:
  "CHR ''%'' \<notin> set p \<Longrightarrow> sql_like (p @ ''/%'') s \<longleftrightarrow> (\<exists>q x. s = q @ ''/'' @ x \<and> lookalike p q)"
proof -
  assume p: "CHR ''%'' \<notin> set p"
  have slash: "sql_like ''/%'' u \<longleftrightarrow> (\<exists>x. u = CHR ''/'' # x)" for u
    using like_any by (cases u) (auto simp: ascii_lower_slash)
  show ?thesis
  proof
    assume "sql_like (p @ ''/%'') s"
    then have l: "length p \<le> length s" "lookalike p (take (length p) s)" "sql_like ''/%'' (drop (length p) s)"
      using like_append [OF p] by auto
    then obtain x where "drop (length p) s = CHR ''/'' # x" using slash by blast
    then have "s = take (length p) s @ ''/'' @ x" by (metis append_Cons append_Nil append_take_drop_id)
    with l(2) show "\<exists>q x. s = q @ ''/'' @ x \<and> lookalike p q" by blast
  next
    assume "\<exists>q x. s = q @ ''/'' @ x \<and> lookalike p q"
    then obtain q x where s: "s = q @ ''/'' @ x" "lookalike p q" by blast
    then have "length p = length q" by (simp add: lookalike_def list_all2_lengthD)
    with s like_any [of x] show "sql_like (p @ ''/%'') s" by (simp add: like_append [OF p])
  qed
qed


section \<open>One row per path\<close>

lemma normalize_long: "sq_normalize path \<noteq> ''/'' \<Longrightarrow> 2 \<le> length (sq_normalize path)"
  by (cases "py_join [SLASH] (sq_parts path)") (simp_all add: sq_normalize_def)

lemma below_root: "sq_normalize path \<noteq> ''/'' \<Longrightarrow> rw_path r = ''/'' \<Longrightarrow> \<not> below (sq_normalize path) r"
proof
  assume "sq_normalize path \<noteq> ''/''" "rw_path r = ''/''" "below (sq_normalize path) r"
  then have "length (filter (\<lambda>a. a \<noteq> CHR ''%'') (sq_normalize path @ ''/%'')) \<le> 1"
    using like_length [of "sq_normalize path @ ''/%''" "rw_path r"] by (simp add: below_def)
  then show False by (simp add: sq_normalize_def)
qed

lemma dir_row_simps [simp]: "rw_path (dir_row now p n q) = p" "rw_type (dir_row now p n q) = ''directory''"
  by (simp_all add: dir_row_def)

text \<open>Making parents adds directories at new paths, one row at a time.\<close>

lemma ensure_loop_ok:
  assumes "table_ok t" "sq_ensure_loop now cur parts t = (r, t')"
  shows "table_ok t' \<and> (\<forall>p x. row_at p t = Some x \<longrightarrow> row_at p t' = Some x)
    \<and> (\<forall>p x. row_at p t' = Some x \<longrightarrow> row_at p t = Some x \<or> rw_type x = ''directory'')"
  using assms
proof (induction now cur parts t rule: sq_ensure_loop.induct)
  case (2 now current part parts t)
  let ?cur = "current @ ''/'' @ part"
  show ?case
  proof (cases "row_at ?cur t")
    case None
    let ?row = "dir_row now ?cur part (sq_parent_path ?cur)"
    have "table_ok (insert_row ?row t)" by (rule insert_ok [OF 2(3)]) (use None in simp)
    note IH = 2(1) [OF refl None this]
    have run: "sq_ensure_loop now ?cur parts (insert_row ?row t) = (r, t')" using 2(4) None by (simp add: Let_def)
    have ins: "row_at p (insert_row ?row t) = (if p = ?cur then Some ?row else row_at p t)" for p
      using None by (simp add: row_at_insert split: option.split)
    have "row_at p (insert_row ?row t) = Some x" if "row_at p t = Some x" for p x
      unfolding ins using that None by auto
    moreover have "row_at p t = Some x \<or> rw_type x = ''directory''" if "row_at p (insert_row ?row t) = Some x" for p x
      using that [unfolded ins] by (auto split: if_splits)
    ultimately show ?thesis using IH [OF run] by blast
  next
    case (Some x)
    with 2 show ?thesis by (cases "rw_type x = ''directory''") (simp_all add: Let_def)
  qed
qed simp

lemma parents_ok:
  assumes "table_ok t"
    and "(if q \<noteq> None \<and> q \<noteq> Some ''/'' then sq_ensure_parents now (the q) t else (Inr (), t)) = (r, t')"
  shows "table_ok t' \<and> (\<forall>p x. row_at p t = Some x \<longrightarrow> row_at p t' = Some x)
    \<and> (\<forall>p x. row_at p t' = Some x \<longrightarrow> row_at p t = Some x \<or> rw_type x = ''directory'')"
  using assms ensure_loop_ok by (simp add: sq_ensure_parents_def Let_def split: if_splits)

lemma write_ok: "table_ok t \<Longrightarrow> table_ok (snd (sq_write_file cd now path data t))"
proof (cases "sq_normalize path = ''/''")
  case False
  assume t: "table_ok t"
  let ?q = "sq_parent_path (sq_normalize path)"
  obtain r t1 where mk: "(if ?q \<noteq> None \<and> ?q \<noteq> Some ''/'' then sq_ensure_parents now (the ?q) t else (Inr (), t)) = (r, t1)"
    by fastforce
  note t1 = conjunct1 [OF parents_ok [OF t mk]]
  from False mk t1 show ?thesis
    by (simp add: sq_write_file_def Let_def split: sum.split option.split) (auto intro!: update_ok insert_ok)
qed (simp add: sq_write_file_def)

lemma mkdir_ok: "table_ok t \<Longrightarrow> table_ok (snd (sq_mkdir now path recursive t))"
proof (cases "sq_normalize path = ''/''")
  case False
  assume t: "table_ok t"
  have "table_ok (snd (sq_ensure_parents now p t))" for p
  proof (cases "sq_ensure_parents now p t")
    case (Pair r t')
    then show ?thesis
      using ensure_loop_ok [OF t, of now "[]"] t by (auto simp: sq_ensure_parents_def Let_def split: if_splits)
  qed
  with False t show ?thesis
    by (auto simp: sq_mkdir_def Let_def intro!: insert_ok split: option.split sum.split)
qed (simp add: sq_mkdir_def)

lemma remove_ok: "table_ok t \<Longrightarrow> table_ok (snd (sq_remove path recursive t))"
  using below_root by (auto simp: sq_remove_def Let_def intro!: delete_ok split: option.split)

lemma copy_ok: "table_ok t \<Longrightarrow> table_ok (snd (sq_copy now src dest t))"
proof (cases "sq_normalize dest = ''/'' \<or> row_at (sq_normalize src) t = None")
  case False
  assume t: "table_ok t"
  let ?q = "sq_parent_path (sq_normalize dest)"
  obtain r t1 where mk: "(if ?q \<noteq> None \<and> ?q \<noteq> Some ''/'' then sq_ensure_parents now (the ?q) t else (Inr (), t)) = (r, t1)"
    by fastforce
  note t1 = conjunct1 [OF parents_ok [OF t mk]]
  have "sq_normalize dest @ x \<noteq> ''/''" for x
    using False normalize_long [of dest] by (cases "sq_normalize dest"; cases "tl (sq_normalize dest)") auto
  with False mk t1 show ?thesis
    by (auto simp: sq_copy_def Let_def copied_row_def split: sum.split intro!: foldl_put_ok put_ok)
qed (auto simp: sq_copy_def Let_def)

lemma move_ok: "table_ok t \<Longrightarrow> table_ok (snd (sq_move now src dest t))"
  using copy_ok [of t now src dest] below_root [of src]
  by (auto simp: sq_move_def Let_def intro!: delete_ok split: option.split sum.split prod.splits)


section \<open>Properties\<close>

lemma sq_apply_ok: "table_ok t \<Longrightarrow> table_ok (snd (sq_apply cd now x t))"
  by (cases x) (simp_all add: sq_apply_def write_ok mkdir_ok remove_ok copy_ok move_ok)

lemma new_table_ok: "table_ok (sq_open now [])"
  by (simp add: sq_open_def row_at_def insert_row_def table_ok_def)

lemma run_table_ok: "run_ops (\<lambda>(now, x). sq_apply cd now x) xs s = (rs, t') \<Longrightarrow> table_ok s \<Longrightarrow> table_ok t'"
proof (induction xs arbitrary: s rs)
  case (Cons y xs)
  obtain now x where y: "y = (now, x)" by fastforce
  with Cons show ?case using sq_apply_ok [of s cd now x] by (auto simp: Let_def split: prod.splits)
qed simp

text \<open>
  Whatever operations run on a newly opened SQLite provider, its table has at most one row for a path,
  so no insertion ever violates the uniqueness of paths, and the row of the root directory stays.
\<close>

theorem sqlite_one_row_per_path:
  assumes "run_ops (\<lambda>(now, x). sq_apply cd now x) xs (sq_open now0 []) = (rs, t)"
  shows "distinct (map rw_path t) \<and> (\<exists>r. row_at ''/'' t = Some r \<and> rw_type r = ''directory'')"
  using run_table_ok [OF assms new_table_ok] by (simp add: table_ok_def)

definition utf8_free :: codec where
  "utf8_free = \<lparr>cd_encode = id, cd_decode = id\<rparr>"

definition sample_sqlite_ops :: "(string \<times> fs_op) list" where
  "sample_sqlite_ops =
     [(''t1'', Op_write ''/docs/a.txt'' (Text ''one'')), (''t2'', Op_write ''Docs/b.txt'' (Text ''two'')),
      (''t3'', Op_copy ''/docs'' ''/docs/old''), (''t4'', Op_write ''/docs/a.txt'' (Bytes ''three''))]"

definition sample_table :: file_table where
  "sample_table = snd (run_ops (\<lambda>(now, x). sq_apply utf8_free now x) sample_sqlite_ops (sq_open ''t0'' []))"

theorem sqlite_one_row_per_path_witness:
  "distinct (map rw_path sample_table) \<and> (\<exists>r. row_at ''/'' sample_table = Some r \<and> rw_type r = ''directory'')"
  unfolding sample_table_def by (rule sqlite_one_row_per_path [OF prod.collapse [symmetric]])

text \<open>
  After a text has been written, reading its path gives that text, and every other file reads as
  before.
\<close>

theorem sqlite_write_read:
  assumes "table_ok t" and "sq_write_file cd now path (Text content) t = (Inr (), t')"
  shows "sq_read_file path t' = Inr content
    \<and> (\<forall>q. sq_normalize q \<noteq> sq_normalize path \<longrightarrow> (\<forall>c. sq_read_file q t = Inr c \<longleftrightarrow> sq_read_file q t' = Inr c))"
proof -
  let ?n = "sq_normalize path"
  let ?q = "sq_parent_path ?n"
  have root: "?n \<noteq> ''/''" using assms(2) by (auto simp: sq_write_file_def)
  obtain r t1 where mk: "(if ?q \<noteq> None \<and> ?q \<noteq> Some ''/'' then sq_ensure_parents now (the ?q) t else (Inr (), t)) = (r, t1)"
    by fastforce
  note t1 = parents_ok [OF assms(1) mk]
  from assms(2) root mk obtain u where r: "r = Inr u" by (cases r) (simp_all add: sq_write_file_def Let_def)
  have same: "sq_read_file q t = Inr c \<longleftrightarrow> sq_read_file q t1 = Inr c" for q c
    using t1 by (auto simp: sq_read_file_def split: option.splits if_splits) force+
  show ?thesis
  proof (cases "row_at ?n t1")
    case None
    then have t': "row_at p t' = (if p = ?n then Some \<lparr>rw_path = ?n, rw_name = base_name ?n, rw_type = ''file'',
        rw_content = Some content, rw_size = length (cd_encode cd content), rw_permissions = ''-rw-r--r--'',
        rw_created_at = now, rw_modified_at = now, rw_parent_path = ?q\<rparr> else row_at p t1)" for p
      using assms(2) root mk r by (auto simp: sq_write_file_def Let_def sq_text_def row_at_insert split: option.split)
    have "sq_read_file q t1 = Inr c \<longleftrightarrow> sq_read_file q t' = Inr c" if "sq_normalize q \<noteq> ?n" for q c
      using that by (simp add: sq_read_file_def t')
    moreover have "sq_read_file path t' = Inr content" by (simp add: sq_read_file_def t')
    ultimately show ?thesis by (simp add: same)
  next
    case (Some x)
    with assms(2) root mk r have x: "rw_type x \<noteq> ''directory''"
      by (auto simp: sq_write_file_def Let_def)
    have t': "t' = update_where (\<lambda>r. rw_path r = ?n)
        (\<lambda>r. r\<lparr>rw_content := Some content, rw_size := length (cd_encode cd content), rw_modified_at := now\<rparr>) t1"
      using assms(2) root mk r Some x by (simp add: sq_write_file_def Let_def sq_text_def)
    have rows: "row_at p t' = (if p = ?n then Some (x\<lparr>rw_content := Some content, rw_size := length (cd_encode cd content),
        rw_modified_at := now\<rparr>) else row_at p t1)" for p
      unfolding t' using Some row_at_in [OF Some] by (cases "row_at p t1") (auto simp: row_at_update dest: row_at_in)
    have "sq_read_file q t1 = Inr c \<longleftrightarrow> sq_read_file q t' = Inr c" if "sq_normalize q \<noteq> ?n" for q c
      using that by (simp add: sq_read_file_def rows)
    moreover have "sq_read_file path t' = Inr content" using x by (simp add: sq_read_file_def rows)
    ultimately show ?thesis by (simp add: same)
  qed
qed

theorem sqlite_write_read_witness:
  "sq_read_file ''docs/./a.txt'' (snd (sq_write_file utf8_free ''t5'' ''/docs/a.txt'' (Text ''four'') sample_table)) = Inr ''four''
   \<and> sq_read_file ''/docs/old/a.txt'' (snd (sq_write_file utf8_free ''t5'' ''/docs/a.txt'' (Text ''four'') sample_table)) = Inr ''one''"
proof -
  have ok: "table_ok sample_table"
    unfolding sample_table_def by (rule run_table_ok [OF prod.collapse [symmetric] new_table_ok])
  have "fst (sq_write_file utf8_free ''t5'' ''/docs/a.txt'' (Text ''four'') sample_table) = Inr ()" by code_simp
  then have run: "sq_write_file utf8_free ''t5'' ''/docs/a.txt'' (Text ''four'') sample_table
      = (Inr (), snd (sq_write_file utf8_free ''t5'' ''/docs/a.txt'' (Text ''four'') sample_table))"
    by (simp add: prod_eq_iff)
  have n: "sq_normalize ''docs/./a.txt'' = sq_normalize ''/docs/a.txt''"
    "sq_normalize ''/docs/old/a.txt'' \<noteq> sq_normalize ''/docs/a.txt''"
    "sq_read_file ''/docs/old/a.txt'' sample_table = Inr ''one''" by code_simp+
  from sqlite_write_read [OF ok run] n show ?thesis by (auto simp: sq_read_file_def split: option.splits if_splits)
qed


section \<open>What a recursive removal takes\<close>

lemma remove_all:
  "sq_remove path True t = (Inr (), t') \<Longrightarrow>
     set t' = {r \<in> set t. rw_path r \<noteq> sq_normalize path \<and> \<not> below (sq_normalize path) r}"
  by (auto simp: sq_remove_def delete_where_def Let_def split: option.splits if_splits)

text \<open>
  As long as the path has no \<open>%\<close> and no other directory of the table looks like it to \<open>LIKE\<close>, a recursive
  removal that succeeds takes exactly the row of the path and the rows below it.
\<close>

theorem sqlite_remove_exact:
  assumes "sq_remove path True t = (Inr (), t')" and "CHR ''%'' \<notin> set (sq_normalize path)"
    and "\<forall>r \<in> set t. \<forall>q x. rw_path r = q @ ''/'' @ x \<longrightarrow> lookalike (sq_normalize path) q \<longrightarrow> q = sq_normalize path"
  shows "set t' = {r \<in> set t. rw_path r \<noteq> sq_normalize path \<and> \<not> prefix (sq_normalize path @ ''/'') (rw_path r)}"
proof -
  have self: "lookalike p p" for p by (simp add: lookalike_def list.rel_refl)
  have "below (sq_normalize path) r \<longleftrightarrow> prefix (sq_normalize path @ ''/'') (rw_path r)" if "r \<in> set t" for r
    using that assms(3) self unfolding below_def like_below [OF assms(2)] prefix_def by fastforce
  then show ?thesis unfolding remove_all [OF assms(1)] by blast
qed

theorem sqlite_remove_exact_witness:
  "map rw_path (snd (sq_remove ''/docs/old'' True sample_table)) = [''/'', ''/docs'', ''/docs/a.txt'', ''/Docs'', ''/Docs/b.txt'']
   \<and> set (snd (sq_remove ''/docs/old'' True sample_table)) =
       {r \<in> set sample_table. rw_path r \<noteq> ''/docs/old'' \<and> \<not> prefix ''/docs/old/'' (rw_path r)}"
proof -
  have n: "sq_normalize ''/docs/old'' = ''/docs/old''" by code_simp
  have run: "sq_remove ''/docs/old'' True sample_table = (Inr (), snd (sq_remove ''/docs/old'' True sample_table))"
  proof -
    have "fst (sq_remove ''/docs/old'' True sample_table) = Inr ()" by code_simp
    then show ?thesis by (simp add: prod_eq_iff)
  qed
  have paths: "map rw_path sample_table =
      [''/'', ''/docs'', ''/docs/a.txt'', ''/Docs'', ''/Docs/b.txt'', ''/docs/old'', ''/docs/old/a.txt'', ''/docs/old/b.txt'', ''/docs/old/old'']"
    by code_simp
  have "q = ''/docs/old''" if r: "r \<in> set sample_table" "rw_path r = q @ ''/'' @ x" and l: "lookalike ''/docs/old'' q" for r q x
  proof -
    have "length q = 9" using l by (simp add: lookalike_def list_all2_lengthD [symmetric])
    then have "q = take 9 (rw_path r)" "drop 9 (rw_path r) = CHR ''/'' # x" using r(2) by simp_all
    moreover have "rw_path r \<in> set (map rw_path sample_table)" using r(1) by simp
    ultimately show ?thesis unfolding paths by auto
  qed
  then have only: "\<forall>r \<in> set sample_table. \<forall>q x. rw_path r = q @ ''/'' @ x \<longrightarrow> lookalike (sq_normalize ''/docs/old'') q \<longrightarrow>
      q = sq_normalize ''/docs/old''" unfolding n by blast
  have "CHR ''%'' \<notin> set (sq_normalize ''/docs/old'')" unfolding n by simp
  from sqlite_remove_exact [OF run this only] have "set (snd (sq_remove ''/docs/old'' True sample_table)) =
       {r \<in> set sample_table. rw_path r \<noteq> ''/docs/old'' \<and> \<not> prefix ''/docs/old/'' (rw_path r)}"
    unfolding n by simp
  moreover have "map rw_path (snd (sq_remove ''/docs/old'' True sample_table)) =
      [''/'', ''/docs'', ''/docs/a.txt'', ''/Docs'', ''/Docs/b.txt'']" by code_simp
  ultimately show ?thesis by blast
qed

text \<open>
  C34. Otherwise it takes too much: removing a path also removes everything below every other directory whose
  path differs only in the case of ASCII letters, or where the path has an underscore.
\<close>

theorem sqlite_remove_takes_lookalikes:
  assumes "sq_remove path True t = (Inr (), t')" and "CHR ''%'' \<notin> set (sq_normalize path)"
    and "lookalike (sq_normalize path) q"
  shows "\<forall>r \<in> set t'. \<not> prefix (q @ ''/'') (rw_path r)"
  unfolding remove_all [OF assms(1)]
  using assms(3) by (auto simp: below_def like_below [OF assms(2)] prefix_def)

theorem sqlite_remove_takes_lookalikes_witness:
  "sq_read_file ''/Docs/b.txt'' sample_table = Inr ''two''
   \<and> fst (sq_remove ''/docs'' True sample_table) = Inr ()
   \<and> filter (\<lambda>r. prefix ''/Docs/'' (rw_path r)) (snd (sq_remove ''/docs'' True sample_table)) = []"
proof -
  have n: "sq_normalize ''/docs'' = ''/docs''" by code_simp
  have ok: "fst (sq_remove ''/docs'' True sample_table) = Inr ()" by code_simp
  then have run: "sq_remove ''/docs'' True sample_table = (Inr (), snd (sq_remove ''/docs'' True sample_table))"
    by (simp add: prod_eq_iff)
  have "CHR ''%'' \<notin> set (sq_normalize ''/docs'')" "lookalike (sq_normalize ''/docs'') ''/Docs''"
    unfolding n lookalike_def by code_simp+
  from sqlite_remove_takes_lookalikes [OF run this]
  have "filter (\<lambda>r. prefix ''/Docs/'' (rw_path r)) (snd (sq_remove ''/docs'' True sample_table)) = []"
    by (simp add: filter_empty_conv)
  moreover have "sq_read_file ''/Docs/b.txt'' sample_table = Inr ''two''" by code_simp
  ultimately show ?thesis using ok by blast
qed

text \<open>
  Copying keeps less of the tree than the other providers do: the root is copied without its contents, and
  a file copied over a directory leaves the rows below it, files inside a file.
\<close>

lemma sqlite_copy_root_is_empty:
  "map rw_path (snd (sq_copy ''t9'' ''/'' ''/all'' sample_table)) = map rw_path sample_table @ [''/all'']"
  by code_simp

lemma sqlite_copy_leaves_orphans:
  "(case row_at ''/Docs'' (snd (sq_copy ''t9'' ''/docs/a.txt'' ''/Docs'' sample_table)) of
      Some r \<Rightarrow> rw_type r = ''file'' | None \<Rightarrow> False)
   \<and> sq_read_file ''/Docs/b.txt'' (snd (sq_copy ''t9'' ''/docs/a.txt'' ''/Docs'' sample_table)) = Inr ''two''"
  by code_simp

end
