(* ===== verification/UsersRoutes.thy ===== *)
theory UsersRoutes
  imports Protection UsersService Complex_Main
begin

text \<open>
  The routes of the users plugin (\<open>controllers/*.py\<close>, the views of \<open>models.py\<close>, \<open>UsersApiRoute\<close> of
  \<open>errors.py\<close>) over the services: what a caller may ask for, the order of the checks, and the answer.  A
  handler is an action on the state of the authentication service that is given the caller; \<open>serve_users\<close>
  is the whole interface, from the request to the answer.
\<close>

section \<open>Views\<close>

datatype reply = Reply int json | No_content

definition strs :: "string list \<Rightarrow> json" where "strs xs = JArr (map JStr xs)"

definition opt_int :: "int option \<Rightarrow> json" where
  "opt_int v = (case v of None \<Rightarrow> JNull | Some i \<Rightarrow> JInt i)"

definition given_str :: "string \<Rightarrow> string option \<Rightarrow> (string \<times> json) list" where
  "given_str k v = (case v of None \<Rightarrow> [] | Some s \<Rightarrow> [(k, JStr s)])"

definition user_to_dict :: "user \<Rightarrow> json" where
  "user_to_dict u = JObj
     ([(''id'', JStr (u_id u)), (''name'', JStr (u_name u)), (''email'', JStr (u_email u)), (''groups'', strs (u_groups u)),
       (''disabled'', JBool (u_disabled u)), (''mustChangePassword'', JBool (u_must_change_password u)),
       (''createdAt'', JInt (u_created_at u)), (''updatedAt'', JInt (u_updated_at u))]
      @ given_str ''homeDir'' (u_home_dir u)
      @ (case u_last_login_at u of None \<Rightarrow> [] | Some t \<Rightarrow> [(''lastLoginAt'', JInt t)])
      @ (case u_data u of None \<Rightarrow> [] | Some d \<Rightarrow> [(''data'', JObj d)]))"

definition metadata_to_dict :: "session_metadata \<Rightarrow> json" where
  "metadata_to_dict m = JObj (given_str ''userAgent'' (sm_user_agent m) @ given_str ''remoteAddress'' (sm_remote_address m))"

definition to_listing_dict :: "session \<Rightarrow> int \<Rightarrow> int option \<Rightarrow> string option \<Rightarrow> bool \<Rightarrow> json" where
  "to_listing_dict se timeout_ms max_lifetime_ms user_name current = JObj
     [(''id'', JStr (se_id se)), (''userId'', JStr (se_user_id se)),
      (''userName'', JStr (or_else user_name (se_user_name se))), (''createdAt'', JInt (se_created_at se)),
      (''lastActivity'', JInt (se_last_activity se)), (''expiresAt'', JInt (session_expires_at se timeout_ms max_lifetime_ms)),
      (''metadata'', metadata_to_dict (se_metadata se)), (''current'', JBool current)]"

definition to_view :: "api_token \<Rightarrow> string \<Rightarrow> json" where
  "to_view t user_name = JObj
     ([(''id'', JStr (at_id t)), (''name'', JStr (at_name t)), (''userId'', JStr (at_user_id t)), (''userName'', JStr user_name),
       (''createdAt'', JInt (at_created_at t)), (''expiresAt'', opt_int (at_expires_at t)),
       (''lastUsedAt'', opt_int (at_last_used_at t))]
      @ (case at_permissions t of None \<Rightarrow> [] | Some ps \<Rightarrow> [(''permissions'', strs ps)]))"

definition group_to_dict :: "group \<Rightarrow> json" where
  "group_to_dict g = JObj
     ([(''id'', JStr (g_id g)), (''name'', JStr (g_name g)), (''permissions'', strs (g_permissions g)),
       (''builtIn'', JBool (g_built_in g)), (''createdAt'', JInt (g_created_at g)), (''updatedAt'', JInt (g_updated_at g))]
      @ given_str ''description'' (g_description g))"

definition session_payload :: "env \<Rightarrow> session \<Rightarrow> user \<Rightarrow> string list \<Rightarrow> json" where
  "session_payload e se u permissions = JObj
     [(''id'', JStr (se_id se)), (''user'', user_to_dict u), (''permissions'', strs permissions),
      (''loginTime'', JInt (se_created_at se)), (''lastActivity'', JInt (se_last_activity se)),
      (''expiresAt'', JInt (session_expires_at se (session_timeout_ms (e_opts e)) (Some (max_session_lifetime_ms (e_opts e))))),
      (''usersReadOnly'', JBool (read_only_users (e_opts e))), (''groupsReadOnly'', JBool (read_only_groups (e_opts e)))]"

definition api_token_view :: "api_token \<Rightarrow> auth \<Rightarrow> json" where
  "api_token_view t s =
     to_view t (case us_get_user (at_user_id t) (a_users s) of Some u \<Rightarrow> u_name u | None \<Rightarrow> [])"

section \<open>API tokens\<close>

definition MAX_TOKENS_PER_USER :: nat where "MAX_TOKENS_PER_USER = 20"
definition DEFAULT_EXPIRES_IN_DAYS :: int where "DEFAULT_EXPIRES_IN_DAYS = 90"
definition MAX_EXPIRES_IN_DAYS :: int where "MAX_EXPIRES_IN_DAYS = 365"
definition DAY_MS :: int where "DAY_MS = 24 * 60 * 60 * 1000"

definition TOKEN_NAME_RE :: "string \<Rightarrow> bool" where
  "TOKEN_NAME_RE = re_dollar (\<lambda>s. s \<noteq> [] \<and> length s \<le> 64 \<and> (\<forall>c \<in> set s. is_alnum c \<or> c \<in> set ''._ -''))"

text \<open>
  The body: a missing \<open>name\<close> or \<open>permissions\<close> is \<open>null\<close>; \<open>expiresInDays\<close> may be missing (\<open>None\<close>) and, unlike
  elsewhere, a float (finite).
\<close>

datatype body_value = Plain json | Float rat

record token_request =
  tr_name :: json
  tr_expires_in_days :: "body_value option"
  tr_permissions :: json

definition token_name :: "json \<Rightarrow> api_error + string" where
  "token_name raw =
     (case raw of
        JStr n \<Rightarrow> if TOKEN_NAME_RE n then Inr n else Inl (bad_request ''name must be 1-64 characters of [A-Za-z0-9._ -]'')
      | _ \<Rightarrow> Inl (bad_request ''name must be 1-64 characters of [A-Za-z0-9._ -]''))"

definition token_days :: "body_value \<Rightarrow> int option" where
  "token_days v =
     (case v of
        Plain (JInt d) \<Rightarrow> Some d
      | Float r \<Rightarrow> if r = of_int \<lfloor>r\<rfloor> then Some \<lfloor>r\<rfloor> else None
      | _ \<Rightarrow> None)"

definition token_expires_at :: "token_request \<Rightarrow> bool \<Rightarrow> int \<Rightarrow> api_error + int option" where
  "token_expires_at body allow_never now =
     (case tr_expires_in_days body of
        None \<Rightarrow> Inr (Some (now + DEFAULT_EXPIRES_IN_DAYS * DAY_MS))
      | Some v \<Rightarrow>
          if v = Plain JNull
          then if allow_never then Inr None else Inl (bad_request ''non-expiring tokens are not allowed'')
          else (case token_days v of
                  Some days \<Rightarrow>
                    if 1 \<le> days \<and> days \<le> MAX_EXPIRES_IN_DAYS then Inr (Some (now + days * DAY_MS))
                    else Inl (bad_request ''expiresInDays must be an integer between 1 and 365'')
                | None \<Rightarrow> Inl (bad_request ''expiresInDays must be an integer between 1 and 365'')))"

definition token_scope :: "auth_context \<Rightarrow> json \<Rightarrow> api_error + string list option" where
  "token_scope ctx raw =
     (case raw of
        JNull \<Rightarrow> Inr None
      | JArr vs \<Rightarrow>
          let words = List.map_filter (\<lambda>v. case v of JStr p \<Rightarrow> or_none p | _ \<Rightarrow> None) vs
          in if length words \<noteq> length vs then Inl (bad_request ''permissions must be an array of strings'')
             else (case validate_permissions (Some words) of
                     Inl er \<Rightarrow> Inl er
                   | Inr perms \<Rightarrow>
                       (case find (\<lambda>p. \<not> ctx_can ctx p) (or_else perms []) of
                          Some p \<Rightarrow> Inl (forbidden (''forbidden: cannot grant '' @ or_else (sanitize (Some p) (Some 128)) []))
                        | None \<Rightarrow> Inr (Some (or_else perms []))))
      | _ \<Rightarrow> Inl (bad_request ''permissions must be an array of strings''))"

definition list_tokens :: "string option \<Rightarrow> auth_context \<Rightarrow> (api_error, reply, auth) act" where
  "list_tokens all_param ctx =
     andThen (guard (all_param \<in> {None, Some ''true'', Some ''false''}) (bad_request ''all must be true or false'')) (\<lambda>_.
     let every = (all_param = Some ''true'')
     in andThen (guard (\<not> (every \<and> \<not> ctx_can ctx ''tokens:read'')) (forbidden ''forbidden: missing permission tokens:read'')) (\<lambda>_.
     reads (\<lambda>s. Reply 200 (JArr (map (\<lambda>t. api_token_view t s)
              (sort_key at_created_at (ts_get_tokens (if every then None else Some (u_id (cx_user ctx))) (a_tokens s))))))))"

definition generate_api_token :: "env \<Rightarrow> auth \<Rightarrow> string \<times> auth" where
  "generate_api_token e s = (let (w, s) = fresh e s in (API_TOKEN_PREFIX @ w, s))"

definition token_args :: "auth_context \<Rightarrow> api_token \<Rightarrow> audit_args" where
  "token_args ctx t =
     \<lparr>aa_details = Some (at_name t @ '' ('' @ at_id t @ '')''), aa_actor = Some (u_name (cx_user ctx)),
      aa_metadata = Some [(''tokenId'', JStr (at_id t)), (''tokenName'', JStr (at_name t))],
      aa_user_id = Some (at_user_id t), aa_actor_id = Some (u_id (cx_user ctx)), aa_target = None\<rparr>"

definition token_event :: "env \<Rightarrow> string \<Rightarrow> auth_context \<Rightarrow> api_token \<Rightarrow> auth \<Rightarrow> auth" where
  "token_event e event_type ctx t s =
     publish e event_type
       [(''tokenId'', Some (at_id t)), (''name'', Some (at_name t)), (''userId'', Some (at_user_id t)),
        (''actor'', Some (u_name (cx_user ctx)))] (Some ''tokens:read'') (Some (at_user_id t)) s"

definition store_new_token ::
    "env \<Rightarrow> auth_context \<Rightarrow> string \<Rightarrow> int option \<Rightarrow> string list option \<Rightarrow> auth \<Rightarrow> (string \<times> api_token) \<times> auth" where
  "store_new_token e ctx name expires_at permissions s =
     (let (token, s) = generate_api_token e s;
          (i, s) = fresh e s;
          (t, d) = ts_create_token \<lparr>at_id = i, at_user_id = u_id (cx_user ctx), at_name = name,
             at_token_hash = hash_token e token, at_created_at = e_now e, at_expires_at = expires_at,
             at_last_used_at = None, at_permissions = permissions\<rparr> (a_tokens s);
          s = s\<lparr>a_tokens := d\<rparr>;
          s = audit e ''token_created'' (u_name (cx_user ctx)) (token_args ctx t) s
      in ((token, t), token_event e ''token:created'' ctx t s))"

definition create_token ::
    "env \<Rightarrow> auth_context \<Rightarrow> token_request \<Rightarrow> (api_error, string \<times> api_token, auth) act" where
  "create_token e ctx body =
     andThen (guard (cx_api_token ctx = None) (forbidden ''forbidden: API tokens cannot create tokens'')) (\<lambda>_.
     andThen (guard (cx_session ctx \<noteq> None \<and> \<not> cx_external ctx)
                (ApiError 501 ''Authentication is managed by the host application'')) (\<lambda>_.
     andThen (lift (token_name (tr_name body))) (\<lambda>name.
     andThen (lift (token_expires_at body (allow_non_expiring_tokens (e_opts e)) (e_now e))) (\<lambda>expires_at.
     andThen (lift (token_scope ctx (tr_permissions body))) (\<lambda>permissions.
     andThen (reads (\<lambda>s. ts_get_tokens (Some (u_id (cx_user ctx))) (a_tokens s))) (\<lambda>existing.
     andThen (guard (\<not> list_ex (\<lambda>t. py_lower (at_name t) = py_lower name) existing)
                (conflict (''token '' @ [char_of (39 :: nat)] @ name @ [char_of (39 :: nat)] @ '' already exists''))) (\<lambda>_.
     andThen (guard (length (filter (\<lambda>t. \<not> token_is_expired t (e_now e)) existing) < MAX_TOKENS_PER_USER)
                (bad_request ''a user may have at most 20 tokens'')) (\<lambda>_.
     update_with (store_new_token e ctx name expires_at permissions)))))))))"

definition create_token_route :: "env \<Rightarrow> token_request \<Rightarrow> auth_context \<Rightarrow> (api_error, reply, auth) act" where
  "create_token_route e body ctx =
     andThen (create_token e ctx body) (\<lambda>(token, t).
       ret (Reply 201 (JObj [(''token'', JStr token), (''apiToken'', to_view t (u_name (cx_user ctx)))])))"

definition revoke_token :: "env \<Rightarrow> string \<Rightarrow> auth_context \<Rightarrow> (api_error, reply, auth) act" where
  "revoke_token e token_id ctx =
     andThen (reads_err (\<lambda>s. case ts_get_token token_id (a_tokens s) of
                None \<Rightarrow> Inl (not_found ''token not found'')
              | Some t \<Rightarrow> if at_user_id t \<noteq> u_id (cx_user ctx) \<and> \<not> ctx_can ctx ''tokens:revoke''
                          then Inl (not_found ''token not found'') else Inr t)) (\<lambda>t.
     andThen (modify (\<lambda>s. s\<lparr>a_tokens := ts_delete_token (at_id t) (a_tokens s)\<rparr>)) (\<lambda>_.
     andThen (modify (\<lambda>s. audit e ''token_revoked''
                (case us_get_user (at_user_id t) (a_users s) of Some u \<Rightarrow> u_name u | None \<Rightarrow> at_user_id t) (token_args ctx t) s)) (\<lambda>_.
     andThen (modify (token_event e ''token:revoked'' ctx t)) (\<lambda>_. ret No_content))))"

section \<open>Users\<close>

definition load_target :: "string \<Rightarrow> auth_context \<Rightarrow> string \<Rightarrow> bool \<Rightarrow> auth \<Rightarrow> api_error + user" where
  "load_target id_or_name ctx permission allow_self s =
     (let target = us_get_user id_or_name (a_users s);
          allowed = (ctx_can ctx permission \<or> (allow_self \<and> (case target of None \<Rightarrow> False | Some u \<Rightarrow> ctx_is_self ctx u)))
      in if \<not> allowed then Inl (forbidden (''missing permission: '' @ permission))
         else case target of None \<Rightarrow> Inl (not_found (''user not found: '' @ id_or_name)) | Some u \<Rightarrow> Inr u)"

record user_request =
  ur_name :: "string option"
  ur_email :: "string option"
  ur_groups :: "string list option"
  ur_disabled :: "bool option"
  ur_home_dir :: "string option"
  ur_data :: "(string, json) dict option"

definition list_users_route :: "string option \<Rightarrow> nat \<Rightarrow> nat option \<Rightarrow> auth_context \<Rightarrow> (api_error, reply, auth) act" where
  "list_users_route query skip tk ctx =
     reads (\<lambda>s. Reply 200 (JArr (map user_to_dict (list_users query skip tk s))))"

text \<open>The name and the e-mail of a new user are required; its password is an argument of its own.\<close>

definition create_user_route ::
    "env \<Rightarrow> string \<Rightarrow> string \<Rightarrow> string option \<Rightarrow> user_request \<Rightarrow> auth_context \<Rightarrow> (api_error, reply, auth) act" where
  "create_user_route e name email password body ctx =
     andThen (create_user e (Some ctx) name email (ur_groups body) password (ur_disabled body) (ur_home_dir body) (ur_data body))
       (\<lambda>u. ret (Reply 201 (user_to_dict u)))"

definition get_user_route :: "string \<Rightarrow> auth_context \<Rightarrow> (api_error, reply, auth) act" where
  "get_user_route i ctx =
     andThen (reads_err (load_target i ctx ''users:read'' True)) (\<lambda>u. ret (Reply 200 (user_to_dict u)))"

definition get_user_permissions :: "string \<Rightarrow> auth_context \<Rightarrow> (api_error, reply, auth) act" where
  "get_user_permissions i ctx =
     andThen (reads_err (load_target i ctx ''users:read'' True)) (\<lambda>u.
     reads (\<lambda>s. Reply 200 (JObj [(''userId'', JStr (u_id u)), (''groups'', strs (u_groups u)),
                                (''permissions'', strs (effective_permissions (u_groups u) s))])))"

definition update_user_route :: "env \<Rightarrow> string \<Rightarrow> user_request \<Rightarrow> auth_context \<Rightarrow> (api_error, reply, auth) act" where
  "update_user_route e i body ctx =
     andThen (reads_err (load_target i ctx ''users:update'' True)) (\<lambda>target.
     andThen (guard (ctx_can ctx ''users:update''
                \<or> (ur_name body = None \<and> ur_groups body = None \<and> ur_disabled body = None \<and> ur_home_dir body = None))
                (forbidden ''missing permission: users:update'')) (\<lambda>_.
     andThen (update_user e (Some ctx) target (ur_name body) (ur_email body) (ur_groups body) (ur_disabled body)
                (ur_home_dir body) (ur_data body)) (\<lambda>u.
     ret (Reply 200 (user_to_dict u)))))"

definition delete_user_route :: "env \<Rightarrow> string \<Rightarrow> auth_context \<Rightarrow> (api_error, reply, auth) act" where
  "delete_user_route e i ctx =
     andThen (reads_err (load_target i ctx ''users:delete'' False)) (\<lambda>target.
     andThen (delete_user e (Some ctx) target) (\<lambda>_. ret No_content))"

text \<open>The address of the caller: the values of \<open>X-Forwarded-For\<close> and the peer of the socket.\<close>

definition header_values :: "string \<Rightarrow> http_request \<Rightarrow> string list" where
  "header_values name rq = map snd (filter (\<lambda>(k, v). py_lower k = name) (rq_headers rq))"

definition count_attempt :: "env \<Rightarrow> http_request \<Rightarrow> string option \<Rightarrow> (api_error, unit, auth) act" where
  "count_attempt e rq peer = check_rate_limit e (header_values ''x-forwarded-for'' rq) peer"

definition ensure_password_changed :: "auth_context \<Rightarrow> (api_error, unit, auth) act" where
  "ensure_password_changed ctx = guard (\<not> must_change ctx) (forbidden ''password change required'')"

record password_request =
  pq_password :: "string option"
  pq_current_password :: "string option"
  pq_temporary :: "bool option"
  pq_new_password :: "string option"

definition confirm_current_password ::
    "env \<Rightarrow> auth_context \<Rightarrow> user \<Rightarrow> string option \<Rightarrow> (api_error, unit, auth) act" where
  "confirm_current_password e ctx target current =
     (case current of
        None \<Rightarrow> raise (bad_request ''currentPassword is required'')
      | Some w \<Rightarrow>
          if w = [] then raise (bad_request ''currentPassword is required'')
          else andThen (check_password_attempt e ctx target w) (\<lambda>valid.
                 guard valid (forbidden ''current password is incorrect'')))"

definition change_password_route ::
    "env \<Rightarrow> http_request \<Rightarrow> string option \<Rightarrow> string \<Rightarrow> password_request \<Rightarrow> auth_context \<Rightarrow> (api_error, reply, auth) act" where
  "change_password_route e rq peer i body ctx =
     andThen (guard (cx_api_token ctx = None) (forbidden ''forbidden: API tokens cannot change passwords'')) (\<lambda>_.
     andThen (reads (\<lambda>s. case us_get_user i (a_users s) of None \<Rightarrow> False | Some u \<Rightarrow> ctx_is_self ctx u)) (\<lambda>is_self.
     andThen (if \<not> is_self then ensure_password_changed ctx else ret ()) (\<lambda>_.
     andThen (reads_err (load_target i ctx ''users:update'' True)) (\<lambda>target.
     case (case pq_password body of Some p \<Rightarrow> Some p | None \<Rightarrow> pq_new_password body) of
       None \<Rightarrow> raise (bad_request ''password is required'')
     | Some password \<Rightarrow>
         andThen (if is_self then count_attempt e rq peer else ret ()) (\<lambda>_.
         andThen (if is_self \<and> (\<not> ctx_can ctx ''users:update'' \<or> must_change ctx)
                  then confirm_current_password e ctx target (pq_current_password body) else ret ()) (\<lambda>_.
         andThen (change_password e ctx target password (pq_temporary body)) (\<lambda>_. ret No_content)))))))"

definition verify_password_route ::
    "env \<Rightarrow> http_request \<Rightarrow> string option \<Rightarrow> string \<Rightarrow> string \<Rightarrow> auth_context \<Rightarrow> (api_error, reply, auth) act" where
  "verify_password_route e rq peer i password ctx =
     andThen (reads_err (load_target i ctx ''users:update'' True)) (\<lambda>target.
     andThen (reads_err (ensure_covers_user ctx target)) (\<lambda>_.
     andThen (count_attempt e rq peer) (\<lambda>_.
     andThen (check_password_attempt e ctx target password) (\<lambda>valid.
     ret (Reply 200 (JObj [(''valid'', JBool valid)]))))))"

section \<open>Sessions\<close>

definition login_route ::
    "env \<Rightarrow> ready \<Rightarrow> http_request \<Rightarrow> string option \<Rightarrow> string \<Rightarrow> string \<Rightarrow> (request_error, reply, auth) act" where
  "login_route e ready rq peer username password =
     andThen (ensure_ready ready) (\<lambda>_.
     andThen (lift_api (count_attempt e rq peer)) (\<lambda>_.
     andThen (lift_api (login e username password
                \<lparr>sm_remote_address = Some (client_ip e (header_values ''x-forwarded-for'' rq) peer),
                 sm_user_agent = scope_header ''user-agent'' rq\<rparr>)) (\<lambda>r.
     ret (Reply 201 (JObj [(''token'', JStr (lr_token r)),
                           (''session'', session_payload e (lr_session r) (lr_user r) (lr_permissions r))])))))"

definition logout_route :: "env \<Rightarrow> auth_context \<Rightarrow> (api_error, reply, auth) act" where
  "logout_route e ctx =
     andThen (guard (cx_api_token ctx = None) (not_found ''not a session'')) (\<lambda>_.
     andThen (modify (\<lambda>s. case cx_token ctx of None \<Rightarrow> s | Some w \<Rightarrow> if w = [] then s else logout e w s)) (\<lambda>_.
     ret No_content))"

definition ws_ticket :: "env \<Rightarrow> auth_context \<Rightarrow> (api_error, reply, auth) act" where
  "ws_ticket e ctx =
     andThen (update_with (issue_ticket e ctx)) (\<lambda>(tk, expires_in).
       ret (Reply 201 (JObj [(''ticket'', JStr tk), (''expiresIn'', JInt expires_in)])))"

definition current_session :: "env \<Rightarrow> auth_context \<Rightarrow> (api_error, reply, auth) act" where
  "current_session e ctx =
     (case cx_session ctx of
        None \<Rightarrow> raise (not_found ''not a session'')
      | Some se \<Rightarrow> ret (Reply 200 (session_payload e se (cx_user ctx) (cx_permissions ctx))))"

text \<open>The listing loop: expired sessions are removed on the way.\<close>

fun list_sessions_loop :: "env \<Rightarrow> auth_context \<Rightarrow> session list \<Rightarrow> json list \<Rightarrow> auth \<Rightarrow> json list \<times> auth" where
  "list_sessions_loop e ctx [] out s = (out, s)"
| "list_sessions_loop e ctx (se # ses) out s =
     (if is_expired e se
      then list_sessions_loop e ctx ses out
             (publish_session_closed e se None (s\<lparr>a_sessions := ss_delete_session_by_id (se_id se) (a_sessions s)\<rparr>))
      else list_sessions_loop e ctx ses
             (out @ [to_listing_dict se (session_timeout_ms (e_opts e)) (Some (max_session_lifetime_ms (e_opts e)))
                       (map_option u_name (us_get_user (se_user_id se) (a_users s)))
                       (case cx_session ctx of None \<Rightarrow> False | Some own \<Rightarrow> se_id se = se_id own)]) s)"

definition list_sessions :: "env \<Rightarrow> auth_context \<Rightarrow> (api_error, reply, auth) act" where
  "list_sessions e ctx =
     update_with (\<lambda>s. let (out, s) = list_sessions_loop e ctx (ss_get_active_sessions (a_sessions s)) [] s
                     in (Reply 200 (JArr out), s))"

definition revoke_session_route :: "env \<Rightarrow> string \<Rightarrow> auth_context \<Rightarrow> (api_error, reply, auth) act" where
  "revoke_session_route e session_id ctx =
     andThen (reads_err (\<lambda>s. case ss_get_session_by_id session_id (a_sessions s) of
                None \<Rightarrow> Inl (not_found (''session not found: '' @ session_id)) | Some se \<Rightarrow> Inr se)) (\<lambda>target.
     andThen (guard (se_user_id target = u_id (cx_user ctx) \<or> ctx_can ctx ''sessions:revoke'')
                (forbidden ''missing permission: sessions:revoke'')) (\<lambda>_.
     andThen (reads (\<lambda>s. us_get_user (se_user_id target) (a_users s))) (\<lambda>user.
     andThen (case user of None \<Rightarrow> ret () | Some u \<Rightarrow> reads_err (ensure_covers_user ctx u)) (\<lambda>_.
     andThen (modify (revoke_session e target ''revoked'' (Some (u_name (cx_user ctx))) (Some (u_id (cx_user ctx)))
                (map_option u_name user))) (\<lambda>_.
     ret No_content)))))"

section \<open>Groups\<close>

definition load_group :: "string \<Rightarrow> auth \<Rightarrow> api_error + group" where
  "load_group name s =
     (case gs_get_group name (a_groups s) of None \<Rightarrow> Inl (not_found (''group not found: '' @ name)) | Some g \<Rightarrow> Inr g)"

definition load_user :: "string \<Rightarrow> auth \<Rightarrow> api_error + user" where
  "load_user i s =
     (case us_get_user i (a_users s) of None \<Rightarrow> Inl (not_found (''user not found: '' @ i)) | Some u \<Rightarrow> Inr u)"

definition list_groups :: "auth_context \<Rightarrow> (api_error, reply, auth) act" where
  "list_groups ctx = reads (\<lambda>s. Reply 200 (JArr (map group_to_dict (gs_get_groups (a_groups s)))))"

definition create_group_route ::
    "env \<Rightarrow> string \<Rightarrow> string option \<Rightarrow> string list option \<Rightarrow> auth_context \<Rightarrow> (api_error, reply, auth) act" where
  "create_group_route e name description permissions ctx =
     andThen (create_group e (Some ctx) name description permissions) (\<lambda>g. ret (Reply 201 (group_to_dict g)))"

definition get_group_route :: "string \<Rightarrow> auth_context \<Rightarrow> (api_error, reply, auth) act" where
  "get_group_route name ctx = andThen (reads_err (load_group name)) (\<lambda>g. ret (Reply 200 (group_to_dict g)))"

definition list_members :: "string \<Rightarrow> auth_context \<Rightarrow> (api_error, reply, auth) act" where
  "list_members name ctx =
     andThen (reads_err (load_group name)) (\<lambda>g.
     andThen (guard (ctx_can ctx ''groups:read'' \<or> in_group (cx_user ctx) (g_name g)) (forbidden ''missing permission: groups:read'')) (\<lambda>_.
     reads (\<lambda>s. Reply 200 (JArr (map user_to_dict (group_members g s))))))"

definition update_group_route ::
    "env \<Rightarrow> string \<Rightarrow> string option \<Rightarrow> string list option \<Rightarrow> auth_context \<Rightarrow> (api_error, reply, auth) act" where
  "update_group_route e name description permissions ctx =
     andThen (reads_err (load_group name)) (\<lambda>g.
     andThen (update_group e (Some ctx) g description permissions) (\<lambda>g. ret (Reply 200 (group_to_dict g))))"

definition delete_group_route :: "env \<Rightarrow> string \<Rightarrow> auth_context \<Rightarrow> (api_error, reply, auth) act" where
  "delete_group_route e name ctx =
     andThen (reads_err (load_group name)) (\<lambda>g. andThen (delete_group e (Some ctx) g) (\<lambda>_. ret No_content))"

definition add_member_route :: "env \<Rightarrow> string \<Rightarrow> string \<Rightarrow> auth_context \<Rightarrow> (api_error, reply, auth) act" where
  "add_member_route e name i ctx =
     andThen (reads_err (\<lambda>s. case gs_get_group name (a_groups s) of
                None \<Rightarrow> Inl (bad_request (''unknown group: '' @ name)) | Some g \<Rightarrow> Inr g)) (\<lambda>g.
     andThen (reads_err (load_user i)) (\<lambda>u.
     andThen (add_member e (Some ctx) g u) (\<lambda>_. ret No_content)))"

definition remove_member_route :: "env \<Rightarrow> string \<Rightarrow> string \<Rightarrow> auth_context \<Rightarrow> (api_error, reply, auth) act" where
  "remove_member_route e name i ctx =
     andThen (reads_err (load_group name)) (\<lambda>g.
     andThen (reads_err (load_user i)) (\<lambda>u.
     andThen (remove_member e (Some ctx) g u) (\<lambda>_. ret No_content)))"

section \<open>The interface\<close>

text \<open>The guard of the routes that write to a store: before authentication.\<close>

definition store_write :: "env \<Rightarrow> bool \<Rightarrow> bool \<Rightarrow> (request_error, unit, auth) act" where
  "store_write e users groups =
     andThen (guard (\<not> (users \<and> read_only_users (e_opts e)))
                (Refused (ApiError 501 ''Users are managed by the host application''))) (\<lambda>_.
     guard (\<not> (groups \<and> read_only_groups (e_opts e)))
                (Refused (ApiError 501 ''Groups are managed by the host application'')))"

datatype users_call =
    Logout | Ws_ticket | Current_session | List_sessions | Revoke_session string
  | List_users "string option" nat "nat option" | Create_user string string "string option" user_request
  | Get_user string | Get_user_permissions string | Update_user string user_request | Delete_user string
  | Change_password string password_request | Verify_password string string
  | List_groups | Create_group string "string option" "string list option" | Get_group string | List_members string
  | Update_group string "string option" "string list option" | Delete_group string
  | Add_member string string | Remove_member string string
  | List_tokens "string option" | Create_token token_request | Revoke_token string

datatype users_request = Sign_in string string | Call users_call

text \<open>
  How a route finds its caller: the dependency it is declared with.  With an external adapter, sign-in,
  sign-out and passwords belong to the host application.
\<close>

datatype dependency = Pending | Authenticated | Needs string

definition dependency_of :: "users_call \<Rightarrow> dependency" where
  "dependency_of c =
     (case c of
        Logout \<Rightarrow> Pending | Current_session \<Rightarrow> Pending | Change_password _ _ \<Rightarrow> Pending
      | List_sessions \<Rightarrow> Needs ''sessions:read'' | List_users _ _ _ \<Rightarrow> Needs ''users:read''
      | Create_user _ _ _ _ \<Rightarrow> Needs ''users:create'' | Delete_user _ \<Rightarrow> Needs ''users:delete''
      | Create_group _ _ _ \<Rightarrow> Needs ''groups:create'' | Update_group _ _ _ \<Rightarrow> Needs ''groups:update''
      | Delete_group _ \<Rightarrow> Needs ''groups:delete'' | Add_member _ _ \<Rightarrow> Needs ''groups:update''
      | Remove_member _ _ \<Rightarrow> Needs ''groups:update''
      | _ \<Rightarrow> Authenticated)"

definition writes_users :: "users_call \<Rightarrow> bool" where
  "writes_users c =
     (case c of
        Create_user _ _ _ _ \<Rightarrow> True | Update_user _ _ \<Rightarrow> True | Delete_user _ \<Rightarrow> True | Change_password _ _ \<Rightarrow> True
      | Add_member _ _ \<Rightarrow> True | Remove_member _ _ \<Rightarrow> True | _ \<Rightarrow> False)"

definition writes_groups :: "users_call \<Rightarrow> bool" where
  "writes_groups c =
     (case c of Create_group _ _ _ \<Rightarrow> True | Update_group _ _ _ \<Rightarrow> True | Delete_group _ \<Rightarrow> True | _ \<Rightarrow> False)"

definition managed_by_host :: "users_call \<Rightarrow> bool" where
  "managed_by_host c =
     (case c of Logout \<Rightarrow> True | Change_password _ _ \<Rightarrow> True | Verify_password _ _ \<Rightarrow> True | _ \<Rightarrow> False)"

fun handle :: "env \<Rightarrow> http_request \<Rightarrow> string option \<Rightarrow> users_call \<Rightarrow> auth_context \<Rightarrow> (api_error, reply, auth) act" where
  "handle e rq peer Logout = logout_route e"
| "handle e rq peer Ws_ticket = ws_ticket e"
| "handle e rq peer Current_session = current_session e"
| "handle e rq peer List_sessions = list_sessions e"
| "handle e rq peer (Revoke_session i) = revoke_session_route e i"
| "handle e rq peer (List_users query skip tk) = list_users_route query skip tk"
| "handle e rq peer (Create_user name email password body) = create_user_route e name email password body"
| "handle e rq peer (Get_user i) = get_user_route i"
| "handle e rq peer (Get_user_permissions i) = get_user_permissions i"
| "handle e rq peer (Update_user i body) = update_user_route e i body"
| "handle e rq peer (Delete_user i) = delete_user_route e i"
| "handle e rq peer (Change_password i body) = change_password_route e rq peer i body"
| "handle e rq peer (Verify_password i password) = verify_password_route e rq peer i password"
| "handle e rq peer List_groups = list_groups"
| "handle e rq peer (Create_group name description permissions) = create_group_route e name description permissions"
| "handle e rq peer (Get_group name) = get_group_route name"
| "handle e rq peer (List_members name) = list_members name"
| "handle e rq peer (Update_group name description permissions) = update_group_route e name description permissions"
| "handle e rq peer (Delete_group name) = delete_group_route e name"
| "handle e rq peer (Add_member name i) = add_member_route e name i"
| "handle e rq peer (Remove_member name i) = remove_member_route e name i"
| "handle e rq peer (List_tokens every) = list_tokens every"
| "handle e rq peer (Create_token body) = create_token_route e body"
| "handle e rq peer (Revoke_token i) = revoke_token e i"


definition caller ::
    "users_call \<Rightarrow> env \<Rightarrow> ready \<Rightarrow> (adapter \<times> (http_request \<Rightarrow> bool)) option \<Rightarrow> http_request
       \<Rightarrow> (request_error, auth_context, auth) act" where
  "caller c e ready mode rq =
     (case dependency_of c of
        Pending \<Rightarrow> get_auth_pending e ready mode rq
      | Authenticated \<Rightarrow> get_auth e ready mode rq
      | Needs p \<Rightarrow> require_permission p e ready mode rq)"

definition managed_by_host_error :: request_error where
  "managed_by_host_error = Refused (ApiError 501 ''Authentication is managed by the host application'')"

definition serve_users ::
    "env \<Rightarrow> ready \<Rightarrow> (adapter \<times> (http_request \<Rightarrow> bool)) option \<Rightarrow> http_request \<Rightarrow> string option \<Rightarrow> users_request
       \<Rightarrow> (request_error, reply, auth) act" where
  "serve_users e ready mode rq peer r =
     (case r of
        Sign_in username password \<Rightarrow>
          if mode \<noteq> None then raise managed_by_host_error else login_route e ready rq peer username password
      | Call c \<Rightarrow>
          if mode \<noteq> None \<and> managed_by_host c then raise managed_by_host_error
          else andThen (store_write e (writes_users c) (writes_groups c)) (\<lambda>_.
               andThen (caller c e ready mode rq) (\<lambda>ctx. lift_api (handle e rq peer c ctx))))"

text \<open>
  \<open>UsersApiRoute\<close>: bodies are capped, errors become \<open>{"error": message}\<close>.  \<open>chunks\<close> are the sizes of the
  parts of the body; \<open>None\<close> is an error that escapes.
\<close>

definition BODY_MAX_BYTES :: int where "BODY_MAX_BYTES = 1024 * 1024"

fun read_body_capped :: "int \<Rightarrow> nat list \<Rightarrow> bool" where
  "read_body_capped read [] = True"
| "read_body_capped read (n # ns) = (if read + int n > BODY_MAX_BYTES then False else read_body_capped (read + int n) ns)"

definition declared_too_large :: "http_request \<Rightarrow> bool" where
  "declared_too_large rq =
     (case scope_header ''content-length'' rq of
        None \<Rightarrow> False
      | Some v \<Rightarrow> (case py_int v of None \<Rightarrow> True | Some n \<Rightarrow> n > BODY_MAX_BYTES))"

definition users_error :: "int \<Rightarrow> string \<Rightarrow> reply" where
  "users_error code message = Reply code (JObj [(''error'', JStr message)])"

definition users_api_route ::
    "http_request \<Rightarrow> nat list \<Rightarrow> (request_error, reply, auth) act \<Rightarrow> auth \<Rightarrow> reply option \<times> auth" where
  "users_api_route rq chunks original s =
     (if declared_too_large rq
         \<or> (rq_method rq \<in> {''POST'', ''PUT'', ''PATCH''} \<and> \<not> read_body_capped 0 chunks)
      then (Some (users_error 400 ''request body too large''), s)
      else case original s of
        (Inr r, s1) \<Rightarrow> (Some r, s1)
      | (Inl (Refused (ApiError code message)), s1) \<Rightarrow> (Some (users_error code message), s1)
      | (Inl (Adapter_http code detail), s1) \<Rightarrow> (Some (users_error code detail), s1)
      | (Inl _, s1) \<Rightarrow> (None, s1))"

end
