(* ===== verification/FileRoutes.thy ===== *)
theory FileRoutes
  imports UsersRoutes SqliteFiles JsonFiles JobStorage Events
begin

text \<open>
  The file API (\<open>controllers/filesystem_controller.py\<close>): the routes over a storage provider, the provider
  that publishes \<open>fs:changed\<close> (\<open>filesystem/event_publishing_provider.py\<close>), and the older routes over the
  operating system behind \<open>filesystem/filesystem_path_validator.py\<close>.  A provider is a record of its methods,
  so that the routes and the publishing provider are written once for all of them.
\<close>

section \<open>Providers\<close>

text \<open>The first argument of a method that changes the store is the time it reads.\<close>

record 's file_provider =
  pv_list :: "string \<Rightarrow> 's \<Rightarrow> fs_error + file_entry list"
  pv_read_file :: "string \<Rightarrow> 's \<Rightarrow> fs_error + string"
  pv_stat :: "string \<Rightarrow> 's \<Rightarrow> fs_error + file_stat"
  pv_exists :: "string \<Rightarrow> 's \<Rightarrow> bool"
  pv_download :: "string \<Rightarrow> 's \<Rightarrow> fs_error + string"
  pv_write_file :: "string \<Rightarrow> string \<Rightarrow> file_data \<Rightarrow> (fs_error, unit, 's) act"
  pv_upload_file :: "string \<Rightarrow> string \<Rightarrow> string \<Rightarrow> (fs_error, unit, 's) act"
  pv_mkdir :: "string \<Rightarrow> string \<Rightarrow> bool \<Rightarrow> (fs_error, unit, 's) act"
  pv_remove :: "string \<Rightarrow> string \<Rightarrow> bool \<Rightarrow> (fs_error, unit, 's) act"
  pv_copy :: "string \<Rightarrow> string \<Rightarrow> string \<Rightarrow> (fs_error, unit, 's) act"
  pv_move :: "string \<Rightarrow> string \<Rightarrow> string \<Rightarrow> (fs_error, unit, 's) act"

definition mem_provider :: "codec \<Rightarrow> bytes_node file_provider" where
  "mem_provider cd =
     \<lparr>pv_list = mfs_list, pv_read_file = mfs_read_file cd, pv_stat = mfs_stat, pv_exists = mfs_exists,
      pv_download = mfs_download, pv_write_file = mfs_write_file cd, pv_upload_file = mfs_upload_file cd,
      pv_mkdir = mfs_mkdir, pv_remove = (\<lambda>_. mfs_remove), pv_copy = mfs_copy, pv_move = mfs_move\<rparr>"

definition json_provider :: "codec \<Rightarrow> json_fs file_provider" where
  "json_provider cd =
     \<lparr>pv_list = jfs_list, pv_read_file = jfs_read_file, pv_stat = jfs_stat, pv_exists = jfs_exists,
      pv_download = jfs_download cd, pv_write_file = jfs_write_file cd, pv_upload_file = jfs_upload_file cd,
      pv_mkdir = jfs_mkdir, pv_remove = (\<lambda>_. jfs_remove), pv_copy = jfs_copy, pv_move = jfs_move\<rparr>"

definition sqlite_provider :: "codec \<Rightarrow> file_table file_provider" where
  "sqlite_provider cd =
     \<lparr>pv_list = sq_list, pv_read_file = sq_read_file, pv_stat = sq_stat, pv_exists = sq_exists,
      pv_download = sq_download cd, pv_write_file = sq_write_file cd, pv_upload_file = sq_upload_file cd,
      pv_mkdir = sq_mkdir, pv_remove = (\<lambda>_. sq_remove), pv_copy = sq_copy, pv_move = sq_move\<rparr>"

section \<open>The provider that publishes changes\<close>

definition FILES_READ :: string where "FILES_READ = ''files:read''"

text \<open>
  The state is the store and that of the components that listen on the bus.  \<open>stamp\<close> is the time the bus
  gives an event.
\<close>

definition changed_data :: "string \<Rightarrow> string \<Rightarrow> string option \<Rightarrow> (string, json) dict" where
  "changed_data action path new_path =
     [(''action'', JStr action), (''path'', JStr path)] @ given_str ''newPath'' new_path"

definition fs_changed :: "string \<Rightarrow> 'b event_bus \<Rightarrow> string \<Rightarrow> string \<Rightarrow> string option \<Rightarrow> 'b \<Rightarrow> 'b" where
  "fs_changed stamp bus action path new_path =
     bus_publish stamp ''fs:changed'' (changed_data action path new_path) (with_permission FILES_READ) bus"

definition then_changed ::
    "string \<Rightarrow> 'b event_bus \<Rightarrow> string \<Rightarrow> string \<Rightarrow> string option \<Rightarrow> (fs_error, unit, 's) act
       \<Rightarrow> (fs_error, unit, 's \<times> 'b) act" where
  "then_changed stamp bus action path new_path m sb =
     (case m (fst sb) of
        (Inl e, s') \<Rightarrow> (Inl e, (s', snd sb))
      | (Inr _, s') \<Rightarrow> (Inr (), (s', fs_changed stamp bus action path new_path (snd sb))))"

definition publishing :: "string \<Rightarrow> 'b event_bus \<Rightarrow> 's file_provider \<Rightarrow> ('s \<times> 'b) file_provider" where
  "publishing stamp bus inner =
     \<lparr>pv_list = (\<lambda>p sb. pv_list inner p (fst sb)),
      pv_read_file = (\<lambda>p sb. pv_read_file inner p (fst sb)),
      pv_stat = (\<lambda>p sb. pv_stat inner p (fst sb)),
      pv_exists = (\<lambda>p sb. pv_exists inner p (fst sb)),
      pv_download = (\<lambda>p sb. pv_download inner p (fst sb)),
      pv_write_file = (\<lambda>now p d. then_changed stamp bus ''write'' p None (pv_write_file inner now p d)),
      pv_upload_file = (\<lambda>now p c. then_changed stamp bus ''upload'' p None (pv_upload_file inner now p c)),
      pv_mkdir = (\<lambda>now p rec. then_changed stamp bus ''mkdir'' p None (pv_mkdir inner now p rec)),
      pv_remove = (\<lambda>now p rec. then_changed stamp bus ''delete'' p None (pv_remove inner now p rec)),
      pv_copy = (\<lambda>now src dest. then_changed stamp bus ''copy'' src (Some dest) (pv_copy inner now src dest)),
      pv_move = (\<lambda>now src dest. then_changed stamp bus ''move'' src (Some dest) (pv_move inner now src dest))\<rparr>"

section \<open>Answers\<close>

text \<open>
  \<open>Sends content name\<close> is a download.  \<open>Escapes\<close> is an exception that no handler catches: the server
  answers with an internal error.
\<close>

datatype fs_answer = Answers int json | Sends string string | Escapes

definition detail :: "int \<Rightarrow> string \<Rightarrow> fs_answer" where
  "detail code message = Answers code (JObj [(''detail'', JStr message)])"

definition status_reply :: "string \<Rightarrow> string \<Rightarrow> fs_answer" where
  "status_reply path status = Answers 200 (JObj [(''path'', JStr path), (''status'', JStr status)])"

text \<open>The status and the text of a file-storage error; \<open>None\<close> for an exception that is none.\<close>

fun map_provider_error :: "fs_error \<Rightarrow> (int \<times> string) option" where
  "map_provider_error (Fs_not_found p) = Some (404, ''Path not found: '' @ p)"
| "map_provider_error (Fs_permission p) = Some (403, ''Access denied: '' @ p)"
| "map_provider_error (Fs_not_a_directory p) = Some (400, ''Not a directory: '' @ p)"
| "map_provider_error (Fs_is_a_directory p) = Some (400, ''Is a directory: '' @ p)"
| "map_provider_error (Fs_exists p) = Some (409, ''Path already exists: '' @ p)"
| "map_provider_error _ = None"

text \<open>The classes of an \<open>except\<close> clause.\<close>

datatype fs_class = Not_found | Permission | Exists | Not_a_directory | Is_a_directory

fun class_of :: "fs_error \<Rightarrow> fs_class option" where
  "class_of (Fs_not_found _) = Some Not_found"
| "class_of (Fs_permission _) = Some Permission"
| "class_of (Fs_exists _) = Some Exists"
| "class_of (Fs_not_a_directory _) = Some Not_a_directory"
| "class_of (Fs_is_a_directory _) = Some Is_a_directory"
| "class_of _ = None"

definition catching :: "fs_class list \<Rightarrow> fs_error \<Rightarrow> fs_answer" where
  "catching classes e =
     (if \<exists>c \<in> set classes. class_of e = Some c
      then (case map_provider_error e of Some (code, message) \<Rightarrow> detail code message | None \<Rightarrow> Escapes)
      else Escapes)"

definition entry_dict :: "file_entry \<Rightarrow> json" where
  "entry_dict x = JObj
     [(''name'', JStr (fe_name x)), (''type'', JStr (fe_type x)), (''size'', JInt (int (fe_size x))),
      (''modified'', JStr (fe_modified x)), (''permissions'', JStr (fe_permissions x))]"

definition stat_dict :: "file_stat \<Rightarrow> json" where
  "stat_dict x = JObj
     [(''name'', JStr (fst_name x)), (''type'', JStr (fst_type x)), (''size'', JInt (int (fst_size x))),
      (''created'', JStr (fst_created x)), (''modified'', JStr (fst_modified x)), (''permissions'', JStr (fst_permissions x))]"

text \<open>\<open>path.rstrip("/").rsplit("/", 1)[-1] or "download"\<close>.\<close>

definition download_name :: "string \<Rightarrow> string" where
  "download_name path =
     (let name = base_name (rev (dropWhile (\<lambda>c. c = SLASH) (rev path))) in if name = [] then ''download'' else name)"

section \<open>Uploads\<close>

definition MULTIPART_OVERHEAD :: int where "MULTIPART_OVERHEAD = 1024 * 1024"
definition UPLOAD_CHUNK :: nat where "UPLOAD_CHUNK = 64 * 1024"

text \<open>
  An upload as the form parser sees it: the \<open>Content-Length\<close> header, the sizes of the messages that it
  receives until it is done, and what it finds: an error, or the file, if \<open>file\<close> is one, and the text, if
  \<open>path\<close> is one.
\<close>

datatype form = Bad_form string | Form "string option" "string option"

record upload =
  up_content_length :: "string option"
  up_messages :: "nat list"
  up_form :: form

definition show_int :: "int \<Rightarrow> string" where
  "show_int i = (if i < 0 then ''-'' @ show_nat (nat (- i)) else show_nat (nat i))"

definition fields_required :: fs_answer where
  "fields_required =
     detail 422 ([CHR 39] @ ''file'' @ [CHR 39] @ '' and '' @ [CHR 39] @ ''path'' @ [CHR 39] @ '' form fields are required'')"

definition too_large :: "int \<Rightarrow> fs_answer" where
  "too_large max_bytes =
     detail 413 (''File exceeds the maximum upload size of '' @ show_int max_bytes @ '' bytes'')"

fun limited_receive :: "int \<Rightarrow> int \<Rightarrow> nat list \<Rightarrow> bool" where
  "limited_receive limit received [] = True"
| "limited_receive limit received (n # ns) =
     (if received + int n > limit then False else limited_receive limit (received + int n) ns)"

text \<open>\<open>str.isdigit\<close> on Latin-1 text: the superscripts one, two and three are digits too, though not for \<open>int\<close>.\<close>

definition latin1_isdigit :: "string \<Rightarrow> bool" where
  "latin1_isdigit w = (w \<noteq> [] \<and> list_all (\<lambda>c. py_is_digit c \<or> c \<in> {CHR 0xB2, CHR 0xB3, CHR 0xB9}) w)"

function read_chunks :: "int \<Rightarrow> int \<Rightarrow> string \<Rightarrow> string \<Rightarrow> string option" where
  "read_chunks max_bytes count got rest =
     (let chunk = take UPLOAD_CHUNK rest; count' = count + int (length chunk)
      in if chunk = [] then Some got
         else if count' > max_bytes then None
         else read_chunks max_bytes count' (got @ chunk) (drop UPLOAD_CHUNK rest))"
  by pat_completeness auto
termination
  by (relation "measure (\<lambda>(_, _, _, rest). length rest)") (auto simp: UPLOAD_CHUNK_def)

declare read_chunks.simps [simp del]

definition read_form :: "int \<Rightarrow> upload \<Rightarrow> fs_answer + string \<times> string" where
  "read_form max_bytes up =
     (if \<not> limited_receive (max_bytes + MULTIPART_OVERHEAD) 0 (up_messages up) then Inl (too_large max_bytes)
      else case up_form up of
        Bad_form message \<Rightarrow> Inl (detail 400 message)
      | Form (Some file) (Some path) \<Rightarrow>
          if path = [] then Inl fields_required
          else (case read_chunks max_bytes 0 [] file of None \<Rightarrow> Inl (too_large max_bytes) | Some c \<Rightarrow> Inr (path, c))
      | _ \<Rightarrow> Inl fields_required)"

definition read_upload :: "int \<Rightarrow> upload \<Rightarrow> fs_answer + string \<times> string" where
  "read_upload max_bytes up =
     (case up_content_length up of
        Some v \<Rightarrow>
          if latin1_isdigit v
          then (case py_int v of
                  None \<Rightarrow> Inl Escapes
                | Some n \<Rightarrow> if n > max_bytes + MULTIPART_OVERHEAD then Inl (too_large max_bytes) else read_form max_bytes up)
          else read_form max_bytes up
      | None \<Rightarrow> read_form max_bytes up)"

section \<open>The routes over a provider\<close>

text \<open>
  The body of \<open>mkdir\<close> is any JSON object.  A path that is neither text nor false makes the provider raise
  \<open>AttributeError\<close>.
\<close>

datatype fs_request =
    Fs_ls string
  | Fs_cat string
  | Fs_stat string
  | Fs_download string
  | Fs_upload upload
  | Fs_mkdir "(string, json) dict"
  | Fs_rm string bool

fun json_truthy :: "json \<Rightarrow> bool" where
  "json_truthy JNull = False"
| "json_truthy (JBool b) = b"
| "json_truthy (JInt i) = (i \<noteq> 0)"
| "json_truthy (JStr t) = (t \<noteq> [])"
| "json_truthy (JArr xs) = (xs \<noteq> [])"
| "json_truthy (JObj kvs) = (kvs \<noteq> [])"

definition path_required :: fs_answer where
  "path_required = detail 400 ([CHR 39] @ ''path'' @ [CHR 39] @ '' is required'')"

definition seeing :: "(fs_error + 'a) \<Rightarrow> fs_class list \<Rightarrow> ('a \<Rightarrow> fs_answer) \<Rightarrow> 's \<Rightarrow> fs_answer \<times> 's" where
  "seeing r classes f s = (case r of Inr x \<Rightarrow> (f x, s) | Inl e \<Rightarrow> (catching classes e, s))"

definition doing :: "(fs_error, unit, 's) act \<Rightarrow> fs_class list \<Rightarrow> fs_answer \<Rightarrow> 's \<Rightarrow> fs_answer \<times> 's" where
  "doing m classes reply s =
     (case m s of (Inr _, s') \<Rightarrow> (reply, s') | (Inl e, s') \<Rightarrow> (catching classes e, s'))"

fun provider_route :: "int \<Rightarrow> string \<Rightarrow> 's file_provider \<Rightarrow> fs_request \<Rightarrow> 's \<Rightarrow> fs_answer \<times> 's" where
  "provider_route max_bytes now p (Fs_ls path) s =
     seeing (pv_list p path s) [Permission, Not_found, Not_a_directory]
       (\<lambda>es. Answers 200 (JObj [(''entries'', JArr (map entry_dict es))])) s"
| "provider_route max_bytes now p (Fs_cat path) s =
     seeing (pv_read_file p path s) [Permission, Not_found, Is_a_directory]
       (\<lambda>c. Answers 200 (JObj [(''content'', JStr c)])) s"
| "provider_route max_bytes now p (Fs_stat path) s =
     seeing (pv_stat p path s) [Permission, Not_found] (\<lambda>x. Answers 200 (stat_dict x)) s"
| "provider_route max_bytes now p (Fs_download path) s =
     seeing (pv_download p path s) [Permission, Not_found, Is_a_directory] (\<lambda>c. Sends c (download_name path)) s"
| "provider_route max_bytes now p (Fs_upload up) s =
     (case read_upload max_bytes up of
        Inl answer \<Rightarrow> (answer, s)
      | Inr (path, contents) \<Rightarrow>
          doing (pv_upload_file p now path contents) [Permission, Not_found, Is_a_directory]
            (status_reply path ''uploaded'') s)"
| "provider_route max_bytes now p (Fs_mkdir body) s =
     (case or_else (dget body ''path'') JNull of
        JStr path \<Rightarrow>
          if path = [] then (path_required, s)
          else doing (pv_mkdir p now path (json_truthy (or_else (dget body ''recursive'') (JBool True))))
                 [Permission, Not_found, Exists] (status_reply path ''created'') s
      | v \<Rightarrow> (if json_truthy v then Escapes else path_required, s))"
| "provider_route max_bytes now p (Fs_rm path recursive) s =
     doing (pv_remove p now path recursive) [Permission, Not_found] (status_reply path ''deleted'') s"

text \<open>Requests one after the other, each with the time of the store and of the bus.\<close>

fun serve_files ::
    "int \<Rightarrow> 'b event_bus \<Rightarrow> 's file_provider \<Rightarrow> ((string \<times> string) \<times> fs_request) list \<Rightarrow> 's \<times> 'b
       \<Rightarrow> fs_answer list \<times> 's \<times> 'b" where
  "serve_files max_bytes bus p [] sb = ([], sb)"
| "serve_files max_bytes bus p (((now, stamp), r) # rs) sb =
     (let (a, sb1) = provider_route max_bytes now (publishing stamp bus p) r sb;
          (as, sb2) = serve_files max_bytes bus p rs sb1
      in (a # as, sb2))"

section \<open>Paths of the older routes\<close>

text \<open>
  The operating system is a record of its calls, which see and change its state; an error is the text of
  the \<open>OSError\<close>.  Times and modes are the texts that \<open>isoformat\<close> and \<open>filemode\<close> make.
\<close>

record os_info =
  oi_is_dir :: bool
  oi_size :: nat
  oi_modified :: string
  oi_created :: string
  oi_permissions :: string

record 'o os_calls =
  os_realpath :: "string \<Rightarrow> 'o \<Rightarrow> string"
  os_path_exists :: "string \<Rightarrow> 'o \<Rightarrow> bool"
  os_isdir :: "string \<Rightarrow> 'o \<Rightarrow> bool"
  os_isfile :: "string \<Rightarrow> 'o \<Rightarrow> bool"
  os_listdir :: "string \<Rightarrow> 'o \<Rightarrow> string + string list"
  os_stat :: "string \<Rightarrow> 'o \<Rightarrow> string + os_info"
  os_read_text :: "string \<Rightarrow> 'o \<Rightarrow> string + string"
  os_write :: "string \<Rightarrow> string \<Rightarrow> (string, unit, 'o) act"
  os_makedirs :: "string \<Rightarrow> (string, unit, 'o) act"
  os_rmtree :: "string \<Rightarrow> (string, unit, 'o) act"
  os_remove :: "string \<Rightarrow> (string, unit, 'o) act"

definition validator_init :: "'o os_calls \<Rightarrow> string list \<Rightarrow> 'o \<Rightarrow> string list" where
  "validator_init calls paths s = map (\<lambda>p. os_realpath calls p s) paths"

definition inside :: "string list \<Rightarrow> string \<Rightarrow> bool" where
  "inside allowed p \<longleftrightarrow> (\<exists>a \<in> set allowed. p = a \<or> py_startswith p (a @ ''/''))"

definition validate_path :: "'o os_calls \<Rightarrow> string list \<Rightarrow> string \<Rightarrow> 'o \<Rightarrow> string + string" where
  "validate_path calls allowed path s =
     (let resolved = os_realpath calls path s
      in if inside allowed resolved then Inr resolved
         else Inl (''Access denied: '' @ [CHR 39] @ path @ [CHR 39] @ '' is outside the allowed paths''))"

text \<open>\<open>os.path.dirname\<close> and \<open>os.path.join\<close> with a name.\<close>

definition os_dirname :: "string \<Rightarrow> string" where
  "os_dirname p =
     (let head = rev (dropWhile (\<lambda>c. c \<noteq> SLASH) (rev p))
      in if list_all (\<lambda>c. c = SLASH) head then head else rev (dropWhile (\<lambda>c. c = SLASH) (rev head)))"

definition os_join :: "string \<Rightarrow> string \<Rightarrow> string" where
  "os_join a b =
     (if py_startswith b ''/'' then b else if a = [] \<or> last a = SLASH then a @ b else a @ ''/'' @ b)"

section \<open>The older routes\<close>

datatype legacy_request =
    Old_ls string
  | Old_cat string
  | Old_stat string
  | Old_download string
  | Old_upload upload
  | Old_mkdir "(string, string) dict"
  | Old_rm string

datatype legacy_answer = Old fs_answer | Sends_file string string

definition listed :: "'o os_calls \<Rightarrow> string \<Rightarrow> 'o \<Rightarrow> string \<Rightarrow> json option" where
  "listed calls resolved s name =
     (case os_stat calls (os_join resolved name) s of
        Inl _ \<Rightarrow> None
      | Inr i \<Rightarrow> Some (JObj
          [(''name'', JStr name), (''type'', JStr (if oi_is_dir i then ''directory'' else ''file'')),
           (''size'', JInt (int (oi_size i))), (''modified'', JStr (oi_modified i)), (''permissions'', JStr (oi_permissions i))]))"

definition os_entry :: "string \<Rightarrow> os_info \<Rightarrow> json" where
  "os_entry resolved i = JObj
     [(''name'', JStr (base_name resolved)), (''type'', JStr (if oi_is_dir i then ''directory'' else ''file'')),
      (''size'', JInt (int (oi_size i))), (''modified'', JStr (oi_modified i)), (''created'', JStr (oi_created i)),
      (''permissions'', JStr (oi_permissions i))]"

definition os_doing :: "(string, unit, 'o) act \<Rightarrow> fs_answer \<Rightarrow> 'o \<Rightarrow> legacy_answer \<times> 'o" where
  "os_doing m reply s =
     (case m s of (Inr _, s') \<Rightarrow> (Old reply, s') | (Inl message, s') \<Rightarrow> (Old (detail 500 message), s'))"

definition validated ::
    "'o os_calls \<Rightarrow> string list \<Rightarrow> string \<Rightarrow> (string \<Rightarrow> 'o \<Rightarrow> legacy_answer \<times> 'o) \<Rightarrow> 'o \<Rightarrow> legacy_answer \<times> 'o" where
  "validated calls allowed path f s =
     (case validate_path calls allowed path s of
        Inl message \<Rightarrow> (Old (detail 403 message), s) | Inr resolved \<Rightarrow> f resolved s)"

fun legacy_route ::
    "int \<Rightarrow> 'o os_calls \<Rightarrow> string list \<Rightarrow> legacy_request \<Rightarrow> 'o \<Rightarrow> legacy_answer \<times> 'o" where
  "legacy_route max_bytes calls allowed (Old_ls path) s =
     validated calls allowed path (\<lambda>resolved s.
       if \<not> os_path_exists calls resolved s then (Old (detail 404 ''Path not found''), s)
       else if \<not> os_isdir calls resolved s then (Old (detail 400 ''Path is not a directory''), s)
       else case os_listdir calls resolved s of
         Inl message \<Rightarrow> (Old (detail 500 message), s)
       | Inr names \<Rightarrow>
           (Old (Answers 200 (JObj [(''entries'',
              JArr (List.map_filter (listed calls resolved s) (sort_key (\<lambda>n. n) names)))])), s)) s"
| "legacy_route max_bytes calls allowed (Old_cat path) s =
     validated calls allowed path (\<lambda>resolved s.
       if \<not> os_path_exists calls resolved s then (Old (detail 404 ''Path not found''), s)
       else if \<not> os_isfile calls resolved s then (Old (detail 400 ''Path is not a file''), s)
       else case os_read_text calls resolved s of
         Inl message \<Rightarrow> (Old (detail 500 message), s)
       | Inr content \<Rightarrow> (Old (Answers 200 (JObj [(''content'', JStr content)])), s)) s"
| "legacy_route max_bytes calls allowed (Old_stat path) s =
     validated calls allowed path (\<lambda>resolved s.
       if \<not> os_path_exists calls resolved s then (Old (detail 404 ''Path not found''), s)
       else case os_stat calls resolved s of
         Inl message \<Rightarrow> (Old (detail 500 message), s)
       | Inr i \<Rightarrow> (Old (Answers 200 (os_entry resolved i)), s)) s"
| "legacy_route max_bytes calls allowed (Old_download path) s =
     validated calls allowed path (\<lambda>resolved s.
       if \<not> os_path_exists calls resolved s then (Old (detail 404 ''Path not found''), s)
       else if \<not> os_isfile calls resolved s then (Old (detail 400 ''Path is not a file''), s)
       else (Sends_file resolved (base_name resolved), s)) s"
| "legacy_route max_bytes calls allowed (Old_upload up) s =
     (case read_upload max_bytes up of
        Inl answer \<Rightarrow> (Old answer, s)
      | Inr (path, contents) \<Rightarrow>
          validated calls allowed path (\<lambda>resolved s.
            if \<not> os_isdir calls (os_dirname resolved) s then (Old (detail 400 ''Parent directory does not exist''), s)
            else os_doing (os_write calls resolved contents) (status_reply resolved ''uploaded'') s) s)"
| "legacy_route max_bytes calls allowed (Old_mkdir body) s =
     (case or_else (dget body ''path'') [] of
        [] \<Rightarrow> (Old path_required, s)
      | c # cs \<Rightarrow>
          validated calls allowed (c # cs) (\<lambda>resolved.
            os_doing (os_makedirs calls resolved) (status_reply resolved ''created'')) s)"
| "legacy_route max_bytes calls allowed (Old_rm path) s =
     validated calls allowed path (\<lambda>resolved s.
       if resolved \<in> set allowed
       then (Old (detail 403 (''Access denied: '' @ [CHR 39] @ path @ [CHR 39] @ '' is an allowed root'')), s)
       else if \<not> os_path_exists calls resolved s then (Old (detail 404 ''Path not found''), s)
       else os_doing (if os_isdir calls resolved s then os_rmtree calls resolved else os_remove calls resolved)
              (status_reply resolved ''deleted'') s) s"

fun serve_legacy ::
    "int \<Rightarrow> 'o os_calls \<Rightarrow> string list \<Rightarrow> legacy_request list \<Rightarrow> 'o \<Rightarrow> legacy_answer list \<times> 'o" where
  "serve_legacy max_bytes calls allowed [] s = ([], s)"
| "serve_legacy max_bytes calls allowed (r # rs) s =
     (let (a, s1) = legacy_route max_bytes calls allowed r s;
          (as, s2) = serve_legacy max_bytes calls allowed rs s1
      in (a # as, s2))"

end
