(* ===== verification/FileRoutesFacts.thy ===== *)
theory FileRoutesFacts
  imports FileRoutes FilesFacts
begin

text \<open>
  What the file API promises, whatever the requests: every change of the store is announced to whoever may
  read files, no upload brings in more than the configured size, a route changes the store only when it
  answers with success, and the older routes stay inside the shared directories.
\<close>

section \<open>Uploads\<close>

text \<open>The loop over chunks of 64 KiB is a test of the length.\<close>

lemma read_chunks_is [code]:
  "read_chunks max_bytes n got rest =
     (if rest \<noteq> [] \<and> n + int (length rest) > max_bytes then None else Some (got @ rest))"
proof (induction max_bytes n got rest rule: read_chunks.induct)
  case (1 max_bytes n got rest)
  define chunk later where "chunk = take UPLOAD_CHUNK rest" and "later = drop UPLOAD_CHUNK rest"
  have parts: "rest = chunk @ later" by (simp add: chunk_def later_def)
  have nil: "chunk = [] \<longleftrightarrow> rest = []" by (simp add: chunk_def UPLOAD_CHUNK_def)
  have step: "read_chunks max_bytes n got rest =
      (if chunk = [] then Some got else if n + int (length chunk) > max_bytes then None
       else read_chunks max_bytes (n + int (length chunk)) (got @ chunk) later)"
    by (subst read_chunks.simps) (simp only: Let_def chunk_def later_def)
  show ?case
  proof (cases "chunk = [] \<or> n + int (length chunk) > max_bytes")
    case True
    with nil show ?thesis unfolding step by (auto simp: parts)
  next
    case False
    with 1 [OF chunk_def refl, folded later_def]
    have "read_chunks max_bytes (n + int (length chunk)) (got @ chunk) later =
        (if later \<noteq> [] \<and> n + int (length chunk) + int (length later) > max_bytes then None
         else Some ((got @ chunk) @ later))" by blast
    with False show ?thesis unfolding step by (cases "later = []") (simp_all add: parts)
  qed
qed

lemma read_upload_capped: "read_upload max_bytes up = Inr (path, c) \<Longrightarrow> c = [] \<or> int (length c) \<le> max_bytes"
  by (auto simp: read_upload_def read_form_def read_chunks_is split: option.splits if_splits form.splits)

section \<open>What a request changes, and what it announces\<close>

text \<open>The change that a request asks for, with the action of its event.\<close>

fun requested :: "int \<Rightarrow> fs_request \<Rightarrow> (fs_op \<times> string \<times> string) option" where
  "requested max_bytes (Fs_upload up) =
     (case read_upload max_bytes up of Inr (path, c) \<Rightarrow> Some (Op_write path (Bytes c), ''upload'', path) | Inl _ \<Rightarrow> None)"
| "requested max_bytes (Fs_mkdir body) =
     (case dget body ''path'' of
        Some (JStr path) \<Rightarrow>
          if path = [] then None
          else Some (Op_mkdir path (json_truthy (or_else (dget body ''recursive'') (JBool True))), ''mkdir'', path)
      | _ \<Rightarrow> None)"
| "requested max_bytes (Fs_rm path recursive) = Some (Op_remove path recursive, ''delete'', path)"
| "requested max_bytes _ = None"

definition succeeded :: "fs_answer \<Rightarrow> bool" where
  "succeeded a = (case a of Answers code _ \<Rightarrow> code = 200 | _ \<Rightarrow> False)"

definition fs_event :: "string \<Rightarrow> string \<Rightarrow> string \<Rightarrow> cli_event" where
  "fs_event stamp action path =
     \<lparr>ce_type = ''fs:changed'', ce_timestamp = stamp, ce_data = [(''action'', JStr action), (''path'', JStr path)],
      ce_audience = with_permission FILES_READ\<rparr>"

text \<open>The events of a history: one for each request for a change that was answered with success.\<close>

fun announced :: "int \<Rightarrow> ((string \<times> string) \<times> fs_request) list \<Rightarrow> fs_answer list \<Rightarrow> cli_event list" where
  "announced max_bytes (((now, stamp), r) # rs) (a # as) =
     (case requested max_bytes r of
        Some (x, action, path) \<Rightarrow> if succeeded a then [fs_event stamp action path] else []
      | None \<Rightarrow> []) @ announced max_bytes rs as"
| "announced max_bytes _ _ = []"

text \<open>What the components that listen make of some events.\<close>

definition hears :: "'b event_bus \<Rightarrow> cli_event list \<Rightarrow> 'b \<Rightarrow> 'b" where
  "hears bus evs b = fold (\<lambda>ev. run_handlers ev (eb_subscriptions bus)) evs b"

lemma hears_append: "hears bus (xs @ ys) b = hears bus ys (hears bus xs b)"
  by (simp add: hears_def)

lemma hears_simps [simp]: "hears bus [] b = b" "hears bus [ev] b = run_handlers ev (eb_subscriptions bus) b"
  by (simp_all add: hears_def)

lemma fs_changed_hears: "fs_changed stamp bus action path None b = hears bus [fs_event stamp action path] b"
  by (simp add: fs_changed_def bus_publish_def make_event_def changed_data_def given_str_def fs_event_def)

lemma caught_fails [simp]: "\<not> succeeded (catching classes e)"
  by (cases e) (auto simp: catching_def detail_def succeeded_def)

lemma detail_fails [simp]: "succeeded (detail code message) \<longleftrightarrow> code = 200"
  by (simp add: detail_def succeeded_def)

lemma status_succeeds [simp]: "succeeded (status_reply path status)"
  by (simp add: status_reply_def succeeded_def)

lemma seeing_state [simp]: "snd (seeing r classes f s) = s"
  by (simp add: seeing_def split: sum.split)

lemma doing_changed:
  "doing (then_changed stamp bus action path None m) classes (status_reply path st) (s, b) = (a, (s', b')) \<Longrightarrow>
     \<exists>r. m s = (r, s') \<and> (succeeded a \<longleftrightarrow> r = Inr ())
       \<and> b' = hears bus (if succeeded a then [fs_event stamp action path] else []) b"
  by (auto simp: doing_def then_changed_def fs_changed_hears split: prod.splits sum.splits)

text \<open>A provider whose methods are the operations of a store.\<close>

locale provided_store = file_storage +
  fixes prov :: "'a file_provider"
  assumes upload: "pv_upload_file prov now p c = apply_op now (Op_write p (Bytes c))"
    and mkdir: "pv_mkdir prov now p rec = apply_op now (Op_mkdir p rec)"
    and remove: "pv_remove prov now p rec = apply_op now (Op_remove p rec)"
begin

lemma route_changes:
  assumes "provider_route max_bytes now (publishing stamp bus prov) r (s, b) = (a, (s', b'))"
  shows "(case requested max_bytes r of
            None \<Rightarrow> s' = s
          | Some (x, _) \<Rightarrow> \<exists>res. apply_op now x s = (res, s') \<and> (succeeded a \<longleftrightarrow> res = Inr ()))
     \<and> b' = hears bus (announced max_bytes [((now, stamp), r)] [a]) b"
proof (cases r)
  case (Fs_upload up)
  with assms show ?thesis
    by (auto simp: publishing_def upload split: sum.splits dest!: doing_changed)
next
  case (Fs_mkdir body)
  with assms show ?thesis
    by (auto simp: publishing_def mkdir or_else_def split: json.splits if_splits option.splits dest!: doing_changed)
next
  case (Fs_rm path recursive)
  with assms show ?thesis by (auto simp: publishing_def remove dest!: doing_changed)
qed (use assms in \<open>auto simp: seeing_def split: sum.splits\<close>)

end

text \<open>An event tells of a change at every place at or below its path.\<close>

definition announces :: "cli_event \<Rightarrow> string list \<Rightarrow> bool" where
  "announces ev qs \<longleftrightarrow> ce_type ev = ''fs:changed'' \<and> ce_audience ev = with_permission FILES_READ
     \<and> (case dget (ce_data ev) ''path'' of Some (JStr path) \<Rightarrow> prefix (path_parts path) qs | _ \<Rightarrow> False)"

definition within_cap :: "int \<Rightarrow> string \<Rightarrow> bool" where
  "within_cap max_bytes c \<longleftrightarrow> c = [] \<or> int (length c) \<le> max_bytes"

context provided_store
begin

text \<open>One request: what it makes of the files, by its answer.\<close>

lemma route_files:
  assumes "provider_route max_bytes now (publishing stamp bus prov) r (s, b) = (a, (s', b'))" "ok s"
  shows "ok s'"
    and "files s' qs \<noteq> files s qs \<Longrightarrow> \<exists>ev \<in> set (announced max_bytes [((now, stamp), r)] [a]). announces ev qs"
    and "files s' qs = files s qs \<or> files s' qs = None \<or> (\<exists>d. files s' qs = Some (enc (Bytes d)) \<and> within_cap max_bytes d)"
proof -
  note ch = conjunct1 [OF route_changes [OF assms(1)]]
  have st: "ok s' \<and> files s' = spec_step clears enc x res (files s)" if "apply_op now x s = (res, s')" for x res
    using step [OF assms(2) that] .
  show "ok s'" using ch st assms(2) by (auto split: option.splits prod.splits)
  show "\<exists>ev \<in> set (announced max_bytes [((now, stamp), r)] [a]). announces ev qs" if "files s' qs \<noteq> files s qs"
    using ch that
    by (cases r) (auto simp: announces_def fs_event_def dest!: st split: sum.splits option.splits json.splits if_splits)
  show "files s' qs = files s qs \<or> files s' qs = None \<or> (\<exists>d. files s' qs = Some (enc (Bytes d)) \<and> within_cap max_bytes d)"
    using ch by (cases r) (auto simp: within_cap_def dest!: st read_upload_capped
        split: sum.splits option.splits json.splits if_splits)
qed

lemma serve_store:
  assumes "serve_files max_bytes bus prov rs (s, b) = (as, (s', b'))" "ok s"
  shows "ok s' \<and> b' = hears bus (announced max_bytes rs as) b
    \<and> (\<forall>qs. files s' qs \<noteq> files s qs \<longrightarrow> (\<exists>ev \<in> set (announced max_bytes rs as). announces ev qs))
    \<and> (\<forall>qs. files s' qs = files s qs \<or> files s' qs = None
         \<or> (\<exists>d. files s' qs = Some (enc (Bytes d)) \<and> within_cap max_bytes d))"
  using assms
proof (induction rs arbitrary: s b as)
  case (Cons x rs)
  obtain now stamp r where x: "x = ((now, stamp), r)" by (cases x) auto
  obtain a s1 b1 where one: "provider_route max_bytes now (publishing stamp bus prov) r (s, b) = (a, (s1, b1))"
    by (metis prod.exhaust)
  obtain as' where rest: "serve_files max_bytes bus prov rs (s1, b1) = (as', (s', b'))" and as: "as = a # as'"
    using Cons.prems(1) one x by (auto split: prod.splits)
  note first = route_files [OF one Cons.prems(2)]
  note ih = Cons.IH [OF rest first(1)]
  have evs: "announced max_bytes (x # rs) as = announced max_bytes [((now, stamp), r)] [a] @ announced max_bytes rs as'"
    by (simp add: x as)
  from conjunct2 [OF route_changes [OF one]] ih have "b' = hears bus (announced max_bytes (x # rs) as) b"
    by (simp add: evs hears_append)
  moreover have "\<exists>ev \<in> set (announced max_bytes (x # rs) as). announces ev qs" if "files s' qs \<noteq> files s qs" for qs
    using that first(2) [of qs] ih unfolding evs set_append by (metis Un_iff)
  moreover have "files s' qs = files s qs \<or> files s' qs = None
      \<or> (\<exists>d. files s' qs = Some (enc (Bytes d)) \<and> within_cap max_bytes d)" for qs
    using first(3) [of qs] ih by metis
  ultimately show ?case using ih by blast
qed simp

end

interpretation mem_api: provided_store "mem_apply cd" "mfs_read_file cd" files_at sound_tree False "raw_of cd" "cd_decode cd"
  "mem_provider cd" for cd
  by unfold_locales (simp_all add: mem_provider_def mem_apply_def mfs_upload_file_def)

interpretation json_api: provided_store "json_apply cd" jfs_read_file "\<lambda>s. files_at (jp_root s)" json_ok True "text_of cd"
  "\<lambda>c. c" "json_provider cd" for cd
  by unfold_locales (simp_all add: json_provider_def json_apply_def jfs_upload_file_def)

section \<open>The routes over the in-memory provider\<close>

text \<open>
  C28.  Whatever requests reach the routes, the components that listen on the bus hear exactly one
  \<open>fs:changed\<close> event for each change that was answered with success, in order, and no file appears, changes or
  disappears without an event at or above its path for whoever may read files.
\<close>

theorem changes_are_announced:
  assumes "sound_tree s" and "serve_files max_bytes bus (mem_provider cd) rs (s, b) = (as, (s', b'))"
  shows "b' = hears bus (announced max_bytes rs as) b
    \<and> (\<forall>qs. files_at s' qs \<noteq> files_at s qs \<longrightarrow> (\<exists>ev \<in> set (announced max_bytes rs as). announces ev qs))"
  using mem_api.serve_store [OF assms(2,1)] by blast

text \<open>
  After any requests every file is what it was or no larger than the configured upload size, whatever
  length the requests declared and however their bodies were cut.
\<close>

theorem uploads_stay_capped:
  assumes "sound_tree s" and "serve_files max_bytes bus (mem_provider cd) rs (s, b) = (as, (s', b'))"
    and "files_at s' qs = Some c"
  shows "files_at s qs = Some c \<or> within_cap max_bytes c"
proof -
  from mem_api.serve_store [OF assms(2,1)]
  have "files_at s' qs = files_at s qs \<or> files_at s' qs = None
      \<or> (\<exists>d. files_at s' qs = Some (raw_of cd (Bytes d)) \<and> within_cap max_bytes d)" by blast
  with assms(3) show ?thesis by (auto simp: raw_of_def)
qed

text \<open>The same holds of the provider that keeps its tree in a JSON file.\<close>

lemma json_changes_are_announced:
  assumes "json_ok s" and "serve_files max_bytes bus (json_provider cd) rs (s, b) = (as, (s', b'))"
  shows "b' = hears bus (announced max_bytes rs as) b
    \<and> (\<forall>qs. files_at (jp_root s') qs \<noteq> files_at (jp_root s) qs \<longrightarrow> (\<exists>ev \<in> set (announced max_bytes rs as). announces ev qs))"
  using json_api.serve_store [OF assms(2,1)] by blast

text \<open>Requests that are not about a place leave it alone.\<close>

definition about :: "int \<Rightarrow> fs_request \<Rightarrow> string list \<Rightarrow> bool" where
  "about max_bytes r qs = (case requested max_bytes r of Some (x, _) \<Rightarrow> touches x qs | None \<Rightarrow> False)"

context provided_store
begin

lemma serve_elsewhere:
  assumes "serve_files max_bytes bus prov rs (s, b) = (as, (s', b'))" "ok s"
    and "\<forall>(t, r) \<in> set rs. \<not> about max_bytes r qs"
  shows "files s' qs = files s qs"
  using assms
proof (induction rs arbitrary: s b as)
  case (Cons x rs)
  obtain now stamp r where x: "x = ((now, stamp), r)" by (cases x) auto
  obtain a s1 b1 where one: "provider_route max_bytes now (publishing stamp bus prov) r (s, b) = (a, (s1, b1))"
    by (metis prod.exhaust)
  obtain as' where rest: "serve_files max_bytes bus prov rs (s1, b1) = (as', (s', b'))"
    using Cons.prems(1) one x by (auto split: prod.splits)
  have "files s1 qs = files s qs"
    using conjunct1 [OF route_changes [OF one]] Cons.prems(3) step [OF Cons.prems(2)]
    by (fastforce simp: x about_def untouched_step split: option.splits)
  with Cons.IH [OF rest route_files(1) [OF one Cons.prems(2)]] Cons.prems(3) show ?case by simp
qed simp

end

text \<open>
  What an upload brought in is what a download gives, byte for byte, after any requests that are not
  about its path.
\<close>

theorem upload_then_download:
  assumes "sound_tree s" and "read_upload max_bytes up = Inr (path, c)"
    and "provider_route max_bytes now (publishing stamp bus (mem_provider cd)) (Fs_upload up) (s, b) = (a, (s1, b1))"
    and "succeeded a" and "serve_files max_bytes bus (mem_provider cd) rs (s1, b1) = (as, (s2, b2))"
    and "\<forall>(t, r) \<in> set rs. \<not> about max_bytes r (path_parts path)"
  shows "provider_route max_bytes now' (publishing stamp' bus (mem_provider cd)) (Fs_download path) (s2, b2)
     = (Sends c (download_name path), (s2, b2))"
proof -
  have "files_at s1 (path_parts path) = Some c"
    using conjunct1 [OF mem_api.route_changes [OF assms(3)]] mem_fs.step [OF assms(1)] assms(2,4)
    by (fastforce simp: raw_of_def)
  with mem_api.serve_elsewhere [OF assms(5) mem_api.route_files(1) [OF assms(3,1)] assms(6)]
  have "files_at s2 (path_parts path) = Some c" by simp
  then have "mfs_download path s2 = Inr c"
    by (auto simp: mfs_download_def resolve_normalize files_at_def info_at_def is_dir_def split: option.splits if_splits)
  then show ?thesis by (simp add: publishing_def mem_provider_def seeing_def)
qed

section \<open>Errors that the routes do not catch\<close>

lemma parents_below_file:
  "ds \<noteq> [] \<Longrightarrow> walk ds n = Some x \<Longrightarrow> \<not> is_dir x \<Longrightarrow>
     ensure_parents blank create now path (ds @ ms) n = Inl (Fs_not_a_directory path)"
proof (induction ds arbitrary: n)
  case (Cons d ds)
  then obtain m where m: "get_child d n = Some m" "walk ds m = Some x" by (auto split: if_splits option.splits)
  with Cons.prems(3) have "is_dir m \<Longrightarrow> ds \<noteq> []" by auto
  with m Cons.IH [of m] Cons.prems(3) show ?case by simp
qed simp

text \<open>
  An upload to a path below a file and a \<open>mkdir\<close> of it end in an internal error: the provider says that
  a part of the path is not a directory, which these routes do not catch although the error has a status.
  Nothing is changed or announced.
\<close>

theorem below_file_escapes:
  assumes "walk ds s = Some n" "\<not> is_dir n" "ds \<noteq> []" and "strict_prefix ds (path_parts path)"
    and "read_upload max_bytes up = Inr (path, c)"
  shows "provider_route max_bytes now (publishing stamp bus (mem_provider cd)) (Fs_upload up) (s, b) = (Escapes, (s, b))
    \<and> provider_route max_bytes now (publishing stamp bus (mem_provider cd)) (Fs_mkdir [(''path'', JStr path)]) (s, b)
        = (Escapes, (s, b))
    \<and> map_provider_error (Fs_not_a_directory path) = Some (400, ''Not a directory: '' @ path)"
proof -
  note blocked = parents_below_file [OF assms(3,1,2)]
  obtain m ms where p: "path_parts path = ds @ m # ms" using assms(4) by (auto elim: strict_prefixE')
  have "path \<noteq> []" using p by (auto simp: path_parts_def py_strip_def py_strip_chars_def)
  with p assms(3,5) show ?thesis
    by (simp add: publishing_def mem_provider_def mfs_upload_file_def mem_write_is tree_store_def mem_mkdir_is
        tree_mkdir_def Let_def butlast_append or_else_def blocked doing_def then_changed_def catching_def)
qed

section \<open>A run of the file API\<close>

text \<open>A store of one directory and one file, a bus whose subscriber keeps every event, and a codec.\<close>

definition demo_codec :: codec where
  "demo_codec = \<lparr>cd_encode = (\<lambda>t. t), cd_decode = (\<lambda>t. t)\<rparr>"

definition demo_listener :: "cli_event list event_bus" where
  "demo_listener = snd (subscribe ''fs:*'' (\<lambda>ev evs. (True, evs @ [ev])) new_bus)"

definition demo_upload :: "string \<Rightarrow> string \<Rightarrow> upload" where
  "demo_upload path c = \<lparr>up_content_length = None, up_messages = [length c], up_form = Form (Some c) (Some path)\<rparr>"

definition demo_requests :: "((string \<times> string) \<times> fs_request) list" where
  "demo_requests =
     [((''t1'', ''u1''), Fs_mkdir [(''path'', JStr ''/docs'')]),
      ((''t2'', ''u2''), Fs_upload (demo_upload ''/docs/a'' ''hi'')),
      ((''t3'', ''u3''), Fs_upload (demo_upload ''/docs/b'' ''too long'')),
      ((''t4'', ''u4''), Fs_rm ''/nothing'' True)]"

definition demo_store :: bytes_node where
  "demo_store = fst (snd (serve_files 4 demo_listener (mem_provider demo_codec) demo_requests (new_mem_files ''t0'', [])))"

definition demo_answers :: "fs_answer list" where
  "demo_answers =
     [status_reply ''/docs'' ''created'', status_reply ''/docs/a'' ''uploaded'', too_large 4,
      detail 404 ''Path not found: /nothing'']"

definition demo_heard :: "cli_event list" where
  "demo_heard = [fs_event ''u1'' ''mkdir'' ''/docs'', fs_event ''u2'' ''upload'' ''/docs/a'']"

lemma demo_run:
  "serve_files 4 demo_listener (mem_provider demo_codec) demo_requests (new_mem_files ''t0'', []) =
     (demo_answers, (demo_store, demo_heard))"
proof -
  have "fst (serve_files 4 demo_listener (mem_provider demo_codec) demo_requests (new_mem_files ''t0'', [])) = demo_answers"
    "snd (snd (serve_files 4 demo_listener (mem_provider demo_codec) demo_requests (new_mem_files ''t0'', []))) = demo_heard"
    by code_simp+
  then show ?thesis by (simp add: demo_store_def prod_eq_iff)
qed

lemma demo_files: "files_at demo_store [''docs'', ''a''] = Some ''hi''" "files_at demo_store [''docs'', ''b''] = None"
  "walk [''docs'', ''a''] demo_store \<noteq> None" "\<not> is_dir (the (walk [''docs'', ''a''] demo_store))"
  by code_simp+

theorem changes_are_announced_witness:
  "demo_heard = hears demo_listener (announced 4 demo_requests demo_answers) []
     \<and> files_at demo_store [''docs'', ''a''] = Some ''hi''
     \<and> (\<exists>ev \<in> set (announced 4 demo_requests demo_answers). announces ev [''docs'', ''a''])"
  using changes_are_announced [OF new_mem_sound(1) demo_run] demo_files(1) by (simp add: new_mem_sound(2))

theorem uploads_stay_capped_witness: "within_cap 4 ''hi''"
  using uploads_stay_capped [OF new_mem_sound(1) demo_run demo_files(1)] by (simp add: new_mem_sound(2))

theorem upload_then_download_witness:
  "\<exists>s1 b1 s2 b2 as.
     provider_route 4 ''t5'' (publishing ''u5'' demo_listener (mem_provider demo_codec)) (Fs_upload (demo_upload ''/docs/c'' ''new'')) (demo_store, [])
       = (status_reply ''/docs/c'' ''uploaded'', (s1, b1))
     \<and> serve_files 4 demo_listener (mem_provider demo_codec) demo_requests (s1, b1) = (as, (s2, b2))
     \<and> provider_route 4 ''t9'' (publishing ''u9'' demo_listener (mem_provider demo_codec)) (Fs_download ''/docs/c'') (s2, b2)
       = (Sends ''new'' ''c'', (s2, b2))"
proof -
  let ?r = "provider_route 4 ''t5'' (publishing ''u5'' demo_listener (mem_provider demo_codec))
      (Fs_upload (demo_upload ''/docs/c'' ''new'')) (demo_store, [])"
  have "fst ?r = status_reply ''/docs/c'' ''uploaded''" by code_simp
  then obtain s1 b1 where up: "?r = (status_reply ''/docs/c'' ''uploaded'', (s1, b1))" by (metis prod.collapse)
  obtain as s2 b2 where later: "serve_files 4 demo_listener (mem_provider demo_codec) demo_requests (s1, b1) = (as, (s2, b2))"
    by (metis prod.exhaust)
  have read: "read_upload 4 (demo_upload ''/docs/c'' ''new'') = Inr (''/docs/c'', ''new'')" by code_simp
  have away: "\<forall>(t, r) \<in> set demo_requests. \<not> about 4 r (path_parts ''/docs/c'')" by code_simp
  have sound: "sound_tree demo_store" using mem_api.serve_store [OF demo_run] new_mem_sound(1) by blast
  have "download_name ''/docs/c'' = ''c''" by code_simp
  with upload_then_download [OF sound read up _ later away] up later show ?thesis by fastforce
qed

theorem below_file_escapes_witness:
  "fst (provider_route 4 ''t5'' (publishing ''u5'' demo_listener (mem_provider demo_codec))
     (Fs_upload (demo_upload ''/docs/a/x'' ''new'')) (demo_store, [])) = Escapes"
proof -
  obtain n where n: "walk [''docs'', ''a''] demo_store = Some n" "\<not> is_dir n" using demo_files(3,4) by auto
  have below: "strict_prefix [''docs'', ''a''] (path_parts ''/docs/a/x'')" by code_simp
  have read: "read_upload 4 (demo_upload ''/docs/a/x'' ''new'') = Inr (''/docs/a/x'', ''new'')" by code_simp
  show ?thesis using conjunct1 [OF below_file_escapes [OF n _ below read]] by (metis fst_conv list.distinct(1))
qed

section \<open>The older routes stay inside the shared directories\<close>

text \<open>
  What the calls of the operating system change, seen through \<open>view\<close> (the content of a path): writing and
  removing change the path, removing a tree also what is below it, making directories also those above it.
\<close>

definition at_or_below :: "string \<Rightarrow> string \<Rightarrow> bool" where
  "at_or_below p q \<longleftrightarrow> q = p \<or> py_startswith q (p @ ''/'')"

definition is_above :: "string \<Rightarrow> string \<Rightarrow> bool" where
  "is_above q p \<longleftrightarrow> q = ''/'' \<or> py_startswith p (q @ ''/'')"

definition calls_local :: "'o os_calls \<Rightarrow> ('o \<Rightarrow> string \<Rightarrow> 'v) \<Rightarrow> bool" where
  "calls_local calls view \<longleftrightarrow>
     (\<forall>p d s q. q \<noteq> p \<longrightarrow> view (snd (os_write calls p d s)) q = view s q)
   \<and> (\<forall>p s q. q \<noteq> p \<longrightarrow> \<not> is_above q p \<longrightarrow> view (snd (os_makedirs calls p s)) q = view s q)
   \<and> (\<forall>p s q. \<not> at_or_below p q \<longrightarrow> view (snd (os_rmtree calls p s)) q = view s q)
   \<and> (\<forall>p s q. q \<noteq> p \<longrightarrow> view (snd (os_remove calls p s)) q = view s q)"

text \<open>A place outside: neither shared nor on the way to a shared directory.\<close>

definition outside :: "string list \<Rightarrow> string \<Rightarrow> bool" where
  "outside allowed q \<longleftrightarrow> \<not> inside allowed q \<and> (\<forall>a \<in> set allowed. \<not> is_above q a)"

lemma startswith_prefix: "py_startswith s p \<longleftrightarrow> prefix p s"
  by (auto simp: py_startswith_def prefix_def) (metis append_take_drop_id)

lemma slash_prefixes: "prefix (a @ ''/'') p \<Longrightarrow> prefix (q @ ''/'') p \<Longrightarrow> a = q \<or> prefix (a @ ''/'') q \<or> prefix (q @ ''/'') a"
  by (drule (1) prefix_same_cases) (auto simp: prefix_snoc)

lemma inside_at_or_below: "inside allowed p \<Longrightarrow> at_or_below p q \<Longrightarrow> inside allowed q"
proof -
  assume "inside allowed p" and q: "at_or_below p q"
  then obtain a where a: "a \<in> set allowed" "p = a \<or> prefix (a @ ''/'') p"
    by (auto simp: inside_def startswith_prefix)
  with q have "q = a \<or> prefix (a @ ''/'') q"
    by (auto simp: at_or_below_def startswith_prefix dest: prefix_order.trans append_prefixD)
  with a(1) show ?thesis by (auto simp: inside_def startswith_prefix)
qed

lemma outside_not_above: "inside allowed p \<Longrightarrow> outside allowed q \<Longrightarrow> q \<noteq> p \<and> \<not> is_above q p"
proof -
  assume p: "inside allowed p" and q: "outside allowed q"
  then obtain a where a: "a \<in> set allowed" "p = a \<or> prefix (a @ ''/'') p"
    by (auto simp: inside_def startswith_prefix)
  have out: "q \<noteq> a" "\<not> prefix (a @ ''/'') q" "q \<noteq> ''/''" "\<not> prefix (q @ ''/'') a"
    using q a(1) by (auto simp: outside_def inside_def is_above_def startswith_prefix)
  with p q slash_prefixes [of a p q] a(2) show ?thesis
    by (auto simp: outside_def is_above_def startswith_prefix)
qed

lemma os_doing_state: "snd (os_doing m reply s) = snd (m s)"
  by (simp add: os_doing_def split: prod.split sum.split)

lemma legacy_route_outside:
  assumes "calls_local calls view" "outside allowed q"
  shows "view (snd (legacy_route max_bytes calls allowed r s)) q = view s q"
proof -
  have local: "view (snd (validated calls allowed path f s)) q = view s q"
    if "\<And>p. inside allowed p \<Longrightarrow> view (snd (f p s)) q = view s q" for path f s
    using that by (simp add: validated_def validate_path_def Let_def)
  have away: "q \<noteq> p" "\<not> is_above q p" "\<not> at_or_below p q" if "inside allowed p" for p
    using outside_not_above [OF that assms(2)] inside_at_or_below [OF that, of q] assms(2)
    by (auto simp: outside_def)
  show ?thesis
    using assms(1) by (cases r)
      (auto intro!: local simp: away os_doing_state calls_local_def split: sum.split list.split)
qed

lemma serve_legacy_outside:
  assumes "calls_local calls view" "outside allowed q"
  shows "view (snd (serve_legacy max_bytes calls allowed rs s)) q = view s q"
proof (induction rs arbitrary: s)
  case (Cons r rs)
  then show ?case
    using legacy_route_outside [OF assms, of max_bytes r s] by (simp add: case_prod_beta Let_def del: legacy_route.simps)
qed simp

lemma legacy_sends_shared:
  "fst (legacy_route max_bytes calls allowed r s) = Sends_file p name \<Longrightarrow> inside allowed p"
  by (cases r) (auto simp: validated_def validate_path_def Let_def os_doing_def split: sum.splits if_splits prod.splits list.splits)

lemma serve_legacy_shared:
  "Sends_file p name \<in> set (fst (serve_legacy max_bytes calls allowed rs s)) \<Longrightarrow> inside allowed p"
proof (induction rs arbitrary: s)
  case (Cons r rs)
  then show ?case
    by (auto simp: case_prod_beta Let_def simp del: legacy_route.simps dest!: sym [of "Sends_file p name"] legacy_sends_shared)
qed simp


text \<open>
  A share of the root directory: its separator is appended to \<open>/\<close>, and no path below it begins with two
  slashes.
\<close>

lemma root_share_denies: "inside [''/''] p \<longleftrightarrow> p = ''/'' \<or> prefix ''//'' p"
  by (simp add: inside_def startswith_prefix)

text \<open>An operating system without links: a path is a directory (\<open>None\<close>) or a file.\<close>

definition demo_os :: "(string, string option) dict os_calls" where
  "demo_os =
     \<lparr>os_realpath = (\<lambda>p s. p), os_path_exists = (\<lambda>p s. dget s p \<noteq> None), os_isdir = (\<lambda>p s. dget s p = Some None),
      os_isfile = (\<lambda>p s. dget s p \<noteq> None \<and> dget s p \<noteq> Some None),
      os_listdir = (\<lambda>p s. Inr (map base_name (filter (\<lambda>q. os_dirname q = p) (dkeys s)))),
      os_stat = (\<lambda>p s. case dget s p of
         None \<Rightarrow> Inl ''no such file''
       | Some c \<Rightarrow> Inr \<lparr>oi_is_dir = (c = None), oi_size = length (or_else c []), oi_modified = [], oi_created = [],
                        oi_permissions = []\<rparr>),
      os_read_text = (\<lambda>p s. Inr (or_else (or_else (dget s p) None) [])),
      os_write = (\<lambda>p d s. (Inr (), dset p (Some d) s)),
      os_makedirs = (\<lambda>p s. (Inr (), if dget s p = None then dset p None s else s)),
      os_rmtree = (\<lambda>p s. (Inr (), filter (\<lambda>(q, _). \<not> at_or_below p q) s)),
      os_remove = (\<lambda>p s. (Inr (), dpop p s))\<rparr>"

lemma dget_filter: "\<not> at_or_below p q \<Longrightarrow> dget (filter (\<lambda>(q, _). \<not> at_or_below p q) s) q = dget s q"
  by (induction s) auto

lemma demo_os_local: "calls_local demo_os dget"
  by (simp add: calls_local_def demo_os_def dget_filter update_conv' delete_conv')

definition demo_disk :: "(string, string option) dict" where
  "demo_disk = [(''/srv'', None), (''/srv/a'', Some ''x''), (''/etc/key'', Some ''secret'')]"

definition demo_legacy :: "legacy_request list" where
  "demo_legacy = [Old_upload (demo_upload ''/srv/b'' ''hi''), Old_rm ''/srv/a'', Old_rm ''/etc/key'', Old_download ''/etc/key'']"

lemma demo_legacy_outside: "outside [''/srv''] ''/etc/key''" "dget demo_disk ''/etc/key'' = Some (Some ''secret'')"
  by code_simp+


end
