(* ===== verification/UsersRoutesFacts.thy ===== *)
theory UsersRoutesFacts
  imports UsersRoutes ProtectionFacts UsersSafety
begin

text \<open>
  What the users interface as a whole guarantees, from the request to the stores: sequences of requests keep
  somebody in charge, names unique and API tokens limited; a caller without management permissions can only
  change what is its own; a token that was created authenticates with its scope and nothing else.
\<close>

section \<open>Effects of actions along a sequence\<close>

lemma sequence_keeps:
  assumes "P (snd (m s))" and "\<And>x s'. m s = (Inr x, s') \<Longrightarrow> P s' \<Longrightarrow> P (snd (f x s'))"
  shows "P (snd (andThen m f s))"
  using assms by (cases "m s"; cases "fst (m s)") (auto simp: andThen_def)

lemma then_reads_err: "P s \<Longrightarrow> (\<And>x. g s = Inr x \<Longrightarrow> P (snd (f x s))) \<Longrightarrow> P (snd (andThen (reads_err g) f s))"
  by (rule sequence_keeps) (auto simp: reads_err_def)

lemma then_lift: "P s \<Longrightarrow> (\<And>x. r = Inr x \<Longrightarrow> P (snd (f x s))) \<Longrightarrow> P (snd (andThen (lift r) f s))"
  by (rule sequence_keeps) (auto simp: lift_def)

lemma then_guard: "P s \<Longrightarrow> (b \<Longrightarrow> P (snd (f () s))) \<Longrightarrow> P (snd (andThen (guard b er) f s))"
  by (rule sequence_keeps) (auto simp: guard_def split: if_splits)

lemma then_reads: "P (snd (f (h s) s)) \<Longrightarrow> P (snd (andThen (reads h) f s))"
  by (simp add: andThen_def reads_def)

lemma then_modify: "P (snd (f () (g s))) \<Longrightarrow> P (snd (andThen (modify g) f s))"
  by (simp add: andThen_def modify_def)

lemma then_ret: "P (snd (f x s)) \<Longrightarrow> P (snd (andThen (ret x) f s))"
  by (simp add: andThen_def ret_def)

lemmas then_rules = then_reads_err then_lift then_guard then_reads then_modify then_ret

lemma snd_act [simp]:
  "snd (ret x s) = s" "snd (raise er s) = s" "snd (reads h s) = s" "snd (modify g s) = g s"
  "snd (reads_err k s) = s" "snd (lift r s) = s" "snd (guard b er s) = s" "snd (lift_api m s) = snd (m s)"
  "snd (update_with f s) = snd (f s)"
  by (simp_all add: act_defs lift_api_def case_prod_beta split: prod.split sum.split)

lemma then_ret_state [simp]: "snd (andThen m (\<lambda>x. ret (g x)) s) = snd (m s)"
  by (simp add: andThen_def ret_def split: prod.split sum.split)

lemma then_ret_pair [simp]: "snd (andThen m (\<lambda>(x, y). ret (g x y)) s) = snd (m s)"
  by (simp add: andThen_def ret_def case_prod_beta split: prod.split sum.split)

lemma keeps_option [keeps_intros]:
  "keeps P m \<Longrightarrow> (\<And>y. keeps P (n y)) \<Longrightarrow> keeps P (case v of None \<Rightarrow> m | Some y \<Rightarrow> n y)"
  by (simp split: option.split)

lemma keeps_let [keeps_intros]: "keeps P (m v) \<Longrightarrow> keeps P (let x = v in m x)"
  by simp

lemma keeps_pair [keeps_intros]: "(\<And>a b. keeps P (f a b)) \<Longrightarrow> keeps P (case x of (a, b) \<Rightarrow> f a b)"
  by (simp split: prod.split)

section \<open>API tokens stay where they are\<close>

text \<open>Everything but creating, revoking and using tokens and deleting their user leaves the token store alone.\<close>

lemma group_event_tokens [simp]: "a_tokens (group_event e ty g c s) = a_tokens s"
  by (simp add: group_event_def)

lemma fold_user_event_tokens [simp]: "a_tokens (fold (\<lambda>u. user_event e ty u c) us s) = a_tokens s"
  by (induction us arbitrary: s) simp_all

lemma keeps_tokens_stores [keeps_intros]:
  "keeps (\<lambda>s. P (a_tokens s)) (update_user_in_store e er i c)"
  "keeps (\<lambda>s. P (a_tokens s)) (create_user_in_store e name email gs data disabled home)"
  by (simp_all add: keeps_def update_user_in_store_def create_user_in_store_def case_prod_beta Let_def
      split: prod.split sum.split store_error.split)

lemma keeps_tokens_drop [keeps_intros]: "keeps (\<lambda>s. P (a_tokens s)) (drop_membership e gname us)"
  by (induction us) (auto intro!: keeps_intros)

lemma tokens_users:
  "keeps (\<lambda>s. P (a_tokens s)) (create_user e ctx name email gs password disabled home_dir data)"
  "keeps (\<lambda>s. P (a_tokens s)) (update_user e ctx target oname oemail ogs odisabled home_dir data)"
  "keeps (\<lambda>s. P (a_tokens s)) (change_password e cctx target pw temporary)"
  unfolding create_user_def update_user_def change_password_def
  by (intro keeps_intros; simp split: option.split)+

lemma tokens_groups:
  "keeps (\<lambda>s. P (a_tokens s)) (create_group e ctx name description perms)"
  "keeps (\<lambda>s. P (a_tokens s)) (update_group e ctx g description perms)"
  "keeps (\<lambda>s. P (a_tokens s)) (delete_group e ctx g)"
  "keeps (\<lambda>s. P (a_tokens s)) (add_member e ctx g u)"
  "keeps (\<lambda>s. P (a_tokens s)) (remove_member e ctx g u)"
  unfolding create_group_def update_group_def delete_group_def add_member_def remove_member_def
  by (intro keeps_intros; simp add: keeps_def case_prod_beta Let_def split: prod.split sum.split)+

lemma tokens_delete_user:
  "keeps (\<lambda>s. P (a_tokens s)) (delete_user e ctx target)" if "\<And>d. P d \<Longrightarrow> P (ts_delete_user_tokens (u_id target) d)"
  unfolding delete_user_def using that by (intro keeps_intros) simp_all

lemma keeps_tokens_login [keeps_intros]:
  "keeps (\<lambda>s. P (a_tokens s)) (login_start e username metadata)"
  "keeps (\<lambda>s. P (a_tokens s)) (login_finish e u key shown metadata valid)"
  by (simp_all add: keeps_def login_start_def login_finish_def open_session_def fresh_def case_prod_beta Let_def
      split: option.split prod.split sum.split)

lemma tokens_login: "keeps (\<lambda>s. P (a_tokens s)) (login e username pw metadata)"
  unfolding login_def by (intro keeps_intros) (simp_all add: keeps_def)

lemma fold_publish_closed_tokens: "a_tokens (fold (\<lambda>se. publish_session_closed e se a) ses s) = a_tokens s"
  by (induction ses arbitrary: s) simp_all

lemma tokens_quiet [simp]:
  "a_tokens (logout e token s) = a_tokens s"
  "a_tokens (snd (issue_ticket e cctx s)) = a_tokens s"
  "a_tokens (snd (check_password_attempt e cctx u pw s)) = a_tokens s"
  "a_tokens (snd (check_rate_limit e xff peer s)) = a_tokens s"
  "a_tokens (cleanup_sessions e s) = a_tokens s"
  subgoal by (simp add: logout_def Let_def split: option.split)
  subgoal by (simp add: issue_ticket_def drop_expired_tickets_def fresh_def Let_def)
  subgoal by (simp add: check_password_attempt_def Let_def case_prod_beta)
  subgoal by (simp add: check_rate_limit_def case_prod_beta Let_def)
  subgoal by (simp add: cleanup_sessions_def Let_def drop_expired_tickets_def fold_publish_closed_tokens)
  done

lemma list_sessions_frame [simp]:
  "a_users (snd (list_sessions_loop e ctx ses out s)) = a_users s"
  "a_groups (snd (list_sessions_loop e ctx ses out s)) = a_groups s"
  "a_tokens (snd (list_sessions_loop e ctx ses out s)) = a_tokens s"
  "a_credentials (snd (list_sessions_loop e ctx ses out s)) = a_credentials s"
  by (induction ses arbitrary: out s) simp_all

lemma context_for_session_tokens [simp]: "a_tokens (snd (context_for_session e se s)) = a_tokens s"
  by (simp add: context_for_session_def split: option.split)

lemma consume_ticket_tokens [simp]: "a_tokens (snd (consume_ticket e tk s)) = a_tokens s"
  by (simp add: consume_ticket_def context_for_session_def Let_def split: option.split sum.split prod.split)

lemma authenticate_token_tokens:
  "a_tokens (snd (authenticate_token e token s)) = a_tokens s
   \<or> (\<exists>t. t \<in> set (dvalues (a_tokens s))
        \<and> a_tokens (snd (authenticate_token e token s)) = ts_update_last_used (at_id t) (e_now e) (a_tokens s))"
proof -
  have api: "a_tokens (snd (authenticate_api_token e token s)) = a_tokens s
     \<or> (\<exists>t. t \<in> set (dvalues (a_tokens s))
        \<and> a_tokens (snd (authenticate_api_token e token s)) = ts_update_last_used (at_id t) (e_now e) (a_tokens s))"
  proof (cases "ts_get_token_by_hash (hash_token e token) (a_tokens s)")
    case (Some t)
    then have "t \<in> set (dvalues (a_tokens s))" by (auto simp: ts_get_token_by_hash_def find_Some_iff)
    then show ?thesis by (auto simp: authenticate_api_token_def Some split: sum.split)
  qed (simp add: authenticate_api_token_def)
  have se: "context_for_session e se s = (r, t) \<Longrightarrow> a_tokens t = a_tokens s" for se r t
    using context_for_session_tokens [of e se s] by simp
  show ?thesis
    using api by (auto simp: authenticate_token_def dest: se split: option.split sum.split prod.split)
qed

section \<open>The limits of API tokens\<close>

definition live_tokens :: "int \<Rightarrow> string \<Rightarrow> api_token_store \<Rightarrow> api_token list" where
  "live_tokens now uid d = filter (\<lambda>t. at_user_id t = uid \<and> \<not> token_is_expired t now) (dvalues d)"

definition same_name :: "api_token \<Rightarrow> api_token \<Rightarrow> bool" where
  "same_name t v \<longleftrightarrow> at_user_id t = at_user_id v \<and> py_lower (at_name t) = py_lower (at_name v)"

definition tokens_ok :: "int \<Rightarrow> api_token_store \<Rightarrow> bool" where
  "tokens_ok now d \<longleftrightarrow> token_store_ok d \<and> (\<forall>uid. length (live_tokens now uid d) \<le> MAX_TOKENS_PER_USER)
     \<and> (\<forall>t \<in> set (dvalues d). \<forall>v \<in> set (dvalues d). same_name t v \<longrightarrow> t = v)"

lemma length_filter_mono: "(\<And>x. P x \<Longrightarrow> Q x) \<Longrightarrow> length (filter P xs) \<le> length (filter Q xs)"
  by (induction xs) auto

lemma length_filter_dset:
  "length (filter P (dvalues (dset k v d))) \<le> length (filter P (dvalues d)) + (if P v then 1 else 0)"
  by (induction d) (auto simp: dvalues_def)

lemma length_filter_replace:
  "dget d k = Some t \<Longrightarrow> (P v \<Longrightarrow> P t) \<Longrightarrow> length (filter P (dvalues (dset k v d))) \<le> length (filter P (dvalues d))"
  by (induction d) (auto simp: dvalues_def split: if_splits)

lemma values_dset: "dict_ok d \<Longrightarrow> x \<in> set (dvalues (dset k v d)) \<longleftrightarrow> x = v \<or> (\<exists>j. j \<noteq> k \<and> dget d j = Some x)"
  by (auto simp: set_dvalues dget_dset split: if_splits)

lemma live_tokens_later: "now \<le> later \<Longrightarrow> length (live_tokens later uid d) \<le> length (live_tokens now uid d)"
  unfolding live_tokens_def by (rule length_filter_mono) (auto simp: token_is_expired_def split: option.splits)

lemma tokens_ok_later: "tokens_ok now d \<Longrightarrow> now \<le> later \<Longrightarrow> tokens_ok later d"
  unfolding tokens_ok_def using live_tokens_later le_trans by blast

lemma token_store_ok_filter: "token_store_ok d \<Longrightarrow> token_store_ok (filter P d)"
  by (auto simp: token_store_ok_def)

lemma tokens_ok_filter: "tokens_ok now d \<Longrightarrow> tokens_ok now (filter P d)"
proof -
  assume ok: "tokens_ok now d"
  have "length (live_tokens now uid (filter P d)) \<le> length (live_tokens now uid d)" for uid
    unfolding live_tokens_def dvalues_def filter_map filter_filter length_map o_def by (rule length_filter_mono) simp
  moreover have "set (dvalues (filter P d)) \<subseteq> set (dvalues d)" by (auto simp: dvalues_def)
  ultimately show ?thesis using ok token_store_ok_filter unfolding tokens_ok_def by (meson le_trans subsetD)
qed

lemma tokens_ok_used: "tokens_ok now (ts_update_last_used i t d)" if ok: "tokens_ok now d"
proof (cases "dget d i")
  case (Some v)
  let ?v = "v\<lparr>at_last_used_at := Some t\<rparr>"
  from ok have st: "dict_ok d" "token_store_ok d" by (auto simp: tokens_ok_def token_store_ok_def)
  have own: "at_id w = k" if "dget d k = Some w" for k w
    using st(2) dget_mem [OF that] by (auto simp: token_store_ok_def)
  have "token_store_ok (dset i ?v d)"
    using st own [OF Some] by (auto simp: token_store_ok_def set_dset)
  moreover have "length (live_tokens now uid (dset i ?v d)) \<le> length (live_tokens now uid d)" for uid
    unfolding live_tokens_def by (rule length_filter_replace [OF Some]) (simp add: token_is_expired_def)
  moreover have "x = y" if "x \<in> set (dvalues (dset i ?v d))" "y \<in> set (dvalues (dset i ?v d))" "same_name x y" for x y
  proof -
    have names: "a = b" if "dget d j = Some a" "dget d k = Some b" "same_name a b" for a b j k
      using ok that dget_value unfolding tokens_ok_def by metis
    have other: False if "dget d j = Some w" "j \<noteq> i" "same_name v w" for j w
      using names [OF Some that(1,3)] own [OF Some] own [OF that(1)] that(2) by simp
    have "same_name ?v w = same_name v w" "same_name w ?v = same_name v w" for w
      by (auto simp: same_name_def)
    with that names other st(1) show ?thesis unfolding values_dset [OF st(1)] by metis
  qed
  ultimately have "tokens_ok now (dset i ?v d)" using ok unfolding tokens_ok_def by (meson le_trans)
  then show ?thesis by (simp add: ts_update_last_used_def Some)
qed (simp add: ts_update_last_used_def that)

lemma tokens_ok_create:
  assumes ok: "tokens_ok now d"
    and few: "length (live_tokens now (at_user_id t) d) < MAX_TOKENS_PER_USER"
    and new: "\<And>v. v \<in> set (dvalues d) \<Longrightarrow> \<not> same_name v t"
  shows "tokens_ok now (snd (ts_create_token t d))"
proof -
  from ok have st: "dict_ok d" "token_store_ok d" by (auto simp: tokens_ok_def token_store_ok_def)
  have "length (live_tokens now uid (dset (at_id t) t d)) \<le> MAX_TOKENS_PER_USER" for uid
    using length_filter_dset [of "\<lambda>v. at_user_id v = uid \<and> \<not> token_is_expired v now" "at_id t" t d] few ok
    unfolding live_tokens_def tokens_ok_def by (cases "at_user_id t = uid") (auto split: if_splits dest: spec [of _ uid])
  moreover have "token_store_ok (dset (at_id t) t d)" using st by (auto simp: token_store_ok_def set_dset)
  moreover have "x = y" if "x \<in> set (dvalues (dset (at_id t) t d))" "y \<in> set (dvalues (dset (at_id t) t d))" "same_name x y" for x y
  proof -
    have "\<not> same_name w t" "\<not> same_name t w" if "dget d k = Some w" for k w
      using new [OF dget_value [OF that]] by (auto simp: same_name_def)
    moreover have "a = b" if "dget d j = Some a" "dget d k = Some b" "same_name a b" for a b j k
      using ok that dget_value unfolding tokens_ok_def by metis
    ultimately show ?thesis using that unfolding values_dset [OF st(1)] by metis
  qed
  ultimately show ?thesis unfolding tokens_ok_def ts_create_token_def by simp
qed

section \<open>Sequences of requests\<close>

definition safe :: "int \<Rightarrow> auth \<Rightarrow> bool" where
  "safe now s \<longleftrightarrow> in_charge s \<and> names_ok (a_users s) \<and> tokens_ok now (a_tokens s)"

lemma in_charge_stores: "a_users t = a_users s \<Longrightarrow> a_groups t = a_groups s \<Longrightarrow> in_charge t = in_charge s"
  by (simp add: in_charge_def)

lemma safe_stores:
  "safe now s \<Longrightarrow> a_users t = a_users s \<Longrightarrow> a_groups t = a_groups s \<Longrightarrow> tokens_ok now (a_tokens t) \<Longrightarrow> safe now t"
  by (simp add: safe_def in_charge_stores [of t s])

lemma keeps_apply: "keeps (\<lambda>s. P (a_tokens s)) m \<Longrightarrow> P (a_tokens s) \<Longrightarrow> P (a_tokens (snd (m s)))"
  by (simp add: keeps_def)

lemma safe_operations:
  assumes "safe now s"
  shows "ids_fresh e s \<Longrightarrow> safe now (snd (create_user e ctx name email gs password disabled home_dir data s))"
    and "target \<in> set (us_get_users (a_users s)) \<Longrightarrow>
           safe now (snd (update_user e ctx target oname oemail ogs odisabled home_dir data s))"
    and "target \<in> set (us_get_users (a_users s)) \<Longrightarrow> safe now (snd (delete_user e ctx target s))"
    and "target \<in> set (us_get_users (a_users s)) \<Longrightarrow> safe now (snd (change_password e cctx target pw temporary s))"
    and "safe now (snd (create_group e ctx name description perms s))"
    and "gs_get_group gname (a_groups s) = Some g \<Longrightarrow> safe now (snd (update_group e ctx g description perms s))"
    and "safe now (snd (delete_group e ctx g s))"
    and "target \<in> set (us_get_users (a_users s)) \<Longrightarrow> safe now (snd (add_member e ctx g target s))"
    and "target \<in> set (us_get_users (a_users s)) \<Longrightarrow> safe now (snd (remove_member e ctx g target s))"
    and "safe now (snd (login e username pw metadata s))"
  using assms unfolding safe_def
  by (simp_all add: create_user_charge update_user_charge delete_user_charge change_password_charge create_group_charge
      update_group_charge delete_group_charge add_member_charge remove_member_charge login_charge
      create_user_names update_user_names delete_user_names change_password_names create_group_users update_group_users
      delete_group_names add_member_names remove_member_names login_names
      keeps_apply [OF tokens_users(1)] keeps_apply [OF tokens_users(2)] keeps_apply [OF tokens_users(3)]
      keeps_apply [OF tokens_groups(1)] keeps_apply [OF tokens_groups(2)] keeps_apply [OF tokens_groups(3)]
      keeps_apply [OF tokens_groups(4)] keeps_apply [OF tokens_groups(5)] keeps_apply [OF tokens_login]
      keeps_apply [OF tokens_delete_user] tokens_ok_filter ts_delete_user_tokens_def
      keeps_apply [where P = "tokens_ok now", OF tokens_delete_user])

lemma load_target_stored: "load_target i ctx p b s = Inr u \<Longrightarrow> us_get_user i (a_users s) = Some u"
  by (auto simp: load_target_def Let_def split: if_splits option.splits)

lemma load_stored:
  "load_user i s = Inr u \<Longrightarrow> u \<in> set (us_get_users (a_users s))"
  "load_group name s = Inr g \<Longrightarrow> gs_get_group name (a_groups s) = Some g"
  by (auto simp: load_user_def load_group_def us_get_user_in split: option.splits)

lemma quiet_attempts [simp]:
  "a_users (snd (check_password_attempt e ctx u pw s)) = a_users s"
  "a_groups (snd (check_password_attempt e ctx u pw s)) = a_groups s"
  "a_users (snd (check_rate_limit e xff peer s)) = a_users s"
  "a_groups (snd (check_rate_limit e xff peer s)) = a_groups s"
  by (simp_all add: check_password_attempt_def check_rate_limit_def Let_def case_prod_beta)

text \<open>A state with the same users, groups and tokens.\<close>

definition same_stores :: "auth \<Rightarrow> auth \<Rightarrow> bool" where
  "same_stores s t \<longleftrightarrow> a_users t = a_users s \<and> a_groups t = a_groups s \<and> a_tokens t = a_tokens s"

lemma same_stores_refl [simp]: "same_stores s s"
  by (simp add: same_stores_def)

lemma same_safe: "same_stores s t \<Longrightarrow> safe now s \<Longrightarrow> safe now t"
  by (auto simp: same_stores_def safe_def in_charge_def)

lemma confirm_stores [simp]: "same_stores s (snd (confirm_current_password e ctx u w s))"
proof (cases w)
  case (Some p)
  have "same_stores s (snd (andThen (check_password_attempt e ctx u p) (\<lambda>valid. guard valid er) s))" for er
    by (rule sequence_keeps) (simp_all add: same_stores_def)
  with Some show ?thesis by (simp add: confirm_current_password_def)
qed (simp add: confirm_current_password_def)

lemma then_mid:
  assumes "R (snd (m s))" and "\<And>s'. R s' \<Longrightarrow> P s'" and "\<And>x s'. R s' \<Longrightarrow> P (snd (f x s'))"
  shows "P (snd (andThen m f s))"
  using assms by (cases "m s"; cases "fst (m s)") (auto simp: andThen_def)

lemmas safe_then = then_rules [where P = "safe now" for now]

lemma change_password_route_safe:
  assumes ok: "safe now s"
  shows "safe now (snd (change_password_route e rq peer i body ctx s))"
proof -
  have fin: "safe now (snd (andThen m1 (\<lambda>_. andThen m2 (\<lambda>_. andThen (change_password e ctx target w tm) (\<lambda>_. ret No_content))) s))"
    if t: "us_get_user i (a_users s) = Some target" and m: "\<And>s. same_stores s (snd (m1 s))" "\<And>s. same_stores s (snd (m2 s))"
    for target w tm and m1 m2 :: "(api_error, unit, auth) act"
  proof (rule then_mid [where R = "same_stores s"])
    show "same_stores s (snd (m1 s))" by (rule m(1))
    fix s1 assume s1: "same_stores s s1"
    show "safe now s1" using same_safe [OF s1 ok] .
    show "safe now (snd (andThen m2 (\<lambda>_. andThen (change_password e ctx target w tm) (\<lambda>_. ret No_content)) s1))"
    proof (rule then_mid [where R = "same_stores s"])
      show "same_stores s (snd (m2 s1))" using s1 m(2) [of s1] by (simp add: same_stores_def)
      fix s2 assume s2: "same_stores s s2"
      show "safe now s2" using same_safe [OF s2 ok] .
      have "target \<in> set (us_get_users (a_users s2))" using t s2 us_get_user_in by (simp add: same_stores_def)
      then show "safe now (snd (andThen (change_password e ctx target w tm) (\<lambda>_. ret No_content) s2))"
        using safe_operations(4) [OF same_safe [OF s2 ok]] by simp
    qed
  qed
  have quiet: "same_stores t (snd (count_attempt e rq peer t))" "same_stores t (snd (ensure_password_changed ctx t))" for t
    by (simp_all add: count_attempt_def ensure_password_changed_def same_stores_def)
  show ?thesis
    unfolding change_password_route_def
  proof (rule safe_then(3) [OF ok], rule safe_then(4), rule sequence_keeps [where P = "safe now"], goal_cases)
    case (2 x s1)
    then have s1: "s1 = s" by (auto simp: ensure_password_changed_def guard_def ret_def split: if_splits)
    show ?case
      unfolding s1
    proof (rule safe_then(1) [OF ok], goal_cases)
      case (1 target)
      from fin [OF load_target_stored [OF 1]] quiet show ?case
        by (cases "pq_password body"; cases "pq_new_password body") (simp_all add: ok)
    qed
  qed (use ok in \<open>simp add: ensure_password_changed_def\<close>)
qed

text \<open>Every handler.\<close>

lemma create_token_tokens:
  "a_tokens (snd (store_new_token e ctx name ea ps s))
     = snd (ts_create_token (snd (fst (store_new_token e ctx name ea ps s))) (a_tokens s))
   \<and> at_user_id (snd (fst (store_new_token e ctx name ea ps s))) = u_id (cx_user ctx)
   \<and> at_name (snd (fst (store_new_token e ctx name ea ps s))) = name
   \<and> a_users (snd (store_new_token e ctx name ea ps s)) = a_users s
   \<and> a_groups (snd (store_new_token e ctx name ea ps s)) = a_groups s"
  by (simp add: store_new_token_def generate_api_token_def fresh_def ts_create_token_def token_event_def Let_def)

lemma create_token_safe:
  assumes ok: "safe now s" and now: "now = e_now e"
  shows "safe now (snd (create_token e ctx body s))"
  unfolding create_token_def
proof (rule safe_then(3) [OF ok], rule safe_then(3) [OF ok], rule safe_then(2) [OF ok], rule safe_then(2) [OF ok],
    rule safe_then(2) [OF ok], rule safe_then(4), rule safe_then(3) [OF ok], rule safe_then(3) [OF ok], goal_cases)
  case (1 name ea ps)
  let ?t = "snd (fst (store_new_token e ctx name ea ps s))" and ?u = "u_id (cx_user ctx)"
  note eff = create_token_tokens [of e ctx name ea ps s]
  have own: "ts_get_tokens (Some ?u) (a_tokens s) = filter (\<lambda>t. at_user_id t = ?u) (dvalues (a_tokens s))"
    by (simp add: ts_get_tokens_def)
  have "length (live_tokens now (at_user_id ?t) (a_tokens s)) < MAX_TOKENS_PER_USER"
    using 1(7) eff unfolding own live_tokens_def now by (simp add: conj_commute)
  moreover have "\<not> same_name v ?t" if "v \<in> set (dvalues (a_tokens s))" for v
    using 1(6) eff that unfolding own by (auto simp: same_name_def list_ex_iff)
  ultimately have "tokens_ok now (snd (ts_create_token ?t (a_tokens s)))"
    using tokens_ok_create ok unfolding safe_def by blast
  then show ?case using safe_stores [OF ok] eff by simp
qed

lemma handle_safe:
  assumes ok: "safe now s" and now: "now = e_now e" and new: "ids_fresh e s"
  shows "safe now (snd (handle e rq peer c ctx s))"
proof (cases c)
  case Logout
  have "safe now (logout e w s)" for w
    by (rule safe_stores [OF ok]) (use ok in \<open>simp_all add: logout_stores safe_def\<close>)
  then have "safe now (snd (logout_route e ctx s))"
    unfolding logout_route_def
    by (intro safe_then(3) [OF ok] safe_then(5)) (simp add: ok split: option.split)
  with Logout show ?thesis by simp
next
  case Ws_ticket
  have "same_stores s (snd (issue_ticket e ctx s))" by (simp add: same_stores_def issue_ticket_quiet)
  then have "safe now (snd (ws_ticket e ctx s))"
    by (simp add: ws_ticket_def same_safe [OF _ ok])
  with Ws_ticket show ?thesis by simp
next
  case Current_session
  then show ?thesis using ok by (simp add: current_session_def split: option.split)
next
  case List_sessions
  have "safe now (snd (list_sessions e ctx s))"
    by (rule safe_stores [OF ok]) (use ok in \<open>simp_all add: list_sessions_def case_prod_beta safe_def\<close>)
  with List_sessions show ?thesis by simp
next
  case (Revoke_session i)
  have "safe now (snd (revoke_session_route e i ctx s))"
    unfolding revoke_session_route_def
  proof (rule safe_then(1) [OF ok], rule safe_then(3) [OF ok], rule safe_then(4), rule sequence_keeps [where P = "safe now"], goal_cases)
    case (2 se x s1)
    then have "safe now (revoke_session e se r a ai n s1)" for r a ai n
      by (intro safe_stores [OF 2(4)]) (simp_all add: safe_def)
    then show ?case by simp
  qed (use ok in \<open>simp split: option.split\<close>)
  with Revoke_session show ?thesis by simp
next
  case (Update_user i body)
  have "safe now (snd (update_user_route e i body ctx s))"
    unfolding update_user_route_def
  proof (rule safe_then(1) [OF ok], rule safe_then(3) [OF ok], goal_cases)
    case (1 target)
    from safe_operations(2) [OF ok us_get_user_in [OF load_target_stored [OF 1(1)]]] show ?case by simp
  qed
  with Update_user show ?thesis by simp
next
  case (Delete_user i)
  have "safe now (snd (delete_user_route e i ctx s))"
    unfolding delete_user_route_def
  proof (rule safe_then(1) [OF ok], goal_cases)
    case (1 target)
    from safe_operations(3) [OF ok us_get_user_in [OF load_target_stored [OF 1(1)]]] show ?case by simp
  qed
  with Delete_user show ?thesis by simp
next
  case (Verify_password i w)
  have "safe now (snd (verify_password_route e rq peer i w ctx s))"
    unfolding verify_password_route_def
  proof (rule safe_then(1) [OF ok], rule safe_then(1) [OF ok], rule then_mid [where R = "same_stores s"], goal_cases)
    case (3 target x y s1)
    then have "same_stores s (snd (check_password_attempt e ctx target w s1))" by (simp add: same_stores_def)
    from same_safe [OF this ok] show ?case by simp
  qed (use same_safe ok in \<open>auto simp: count_attempt_def same_stores_def\<close>)
  with Verify_password show ?thesis by simp
next
  case (Update_group name description perms)
  have "safe now (snd (update_group_route e name description perms ctx s))"
    unfolding update_group_route_def
    by (rule safe_then(1) [OF ok]) (simp add: safe_operations(6) [OF ok load_stored(2)])
  with Update_group show ?thesis by simp
next
  case (Delete_group name)
  have "safe now (snd (delete_group_route e name ctx s))"
    unfolding delete_group_route_def by (rule safe_then(1) [OF ok]) (simp add: safe_operations(7) [OF ok])
  with Delete_group show ?thesis by simp
next
  case (Add_member name i)
  have "safe now (snd (add_member_route e name i ctx s))"
    unfolding add_member_route_def
    by (rule safe_then(1) [OF ok], rule safe_then(1) [OF ok]) (simp add: safe_operations(8) [OF ok load_stored(1)])
  with Add_member show ?thesis by simp
next
  case (Remove_member name i)
  have "safe now (snd (remove_member_route e name i ctx s))"
    unfolding remove_member_route_def
    by (rule safe_then(1) [OF ok], rule safe_then(1) [OF ok]) (simp add: safe_operations(9) [OF ok load_stored(1)])
  with Remove_member show ?thesis by simp
next
  case (Create_token body)
  have "safe now (snd (create_token_route e body ctx s))"
    by (simp add: create_token_route_def create_token_safe [OF ok now])
  with Create_token show ?thesis by simp
next
  case (Revoke_token i)
  have "safe now (snd (revoke_token e i ctx s))"
    unfolding revoke_token_def
    by (rule safe_then(1) [OF ok], rule safe_then(5), rule safe_then(5), rule safe_then(5), rule safe_stores [OF ok])
      (use ok in \<open>simp_all add: token_event_def safe_def ts_delete_token_def dpop_filter tokens_ok_filter\<close>)
  with Revoke_token show ?thesis by simp
next
  case (List_tokens v)
  have "safe now (snd (list_tokens v ctx s))"
    unfolding list_tokens_def Let_def by (rule safe_then(3) [OF ok], rule safe_then(3) [OF ok]) (simp add: ok)
  with List_tokens show ?thesis by simp
next
  case (List_members name)
  have "safe now (snd (list_members name ctx s))"
    unfolding list_members_def by (rule safe_then(1) [OF ok], rule safe_then(3) [OF ok]) (simp add: ok)
  with List_members show ?thesis by simp
next
  case (Get_user_permissions i)
  have "safe now (snd (get_user_permissions i ctx s))"
    unfolding get_user_permissions_def by (rule safe_then(1) [OF ok]) (simp add: ok)
  with Get_user_permissions show ?thesis by simp
qed (use ok new safe_operations [OF ok] change_password_route_safe [OF ok] in
  \<open>simp_all add: list_users_route_def create_user_route_def get_user_route_def list_groups_def create_group_route_def get_group_route_def\<close>)

text \<open>Finding the caller changes no user and no group, at most the time a token was last used.\<close>

definition caller_ok :: "env \<Rightarrow> auth \<Rightarrow> bool" where
  "caller_ok e s \<longleftrightarrow> safe (e_now e) s \<and> ids_fresh e s"

lemma publish_draws [simp]: "a_draws (publish e ty data p uid s) = a_draws s"
  by (simp add: publish_def broadcast_def emit_def Let_def)

lemma context_for_session_draws [simp]: "a_draws (snd (context_for_session e se s)) = a_draws s"
  by (simp add: context_for_session_def publish_session_closed_def split: option.split)

lemma authenticate_token_draws: "a_draws (snd (authenticate_token e token s)) = a_draws s"
proof (cases "py_startswith token API_TOKEN_PREFIX")
  case True
  then show ?thesis by (simp add: authenticate_token_def authenticate_api_token_def split: option.split sum.split)
next
  case False
  have "context_for_session e se s = (r, t) \<Longrightarrow> a_draws t = a_draws s" for se r t
    using context_for_session_draws [of e se s] by simp
  with False show ?thesis by (auto simp: authenticate_token_def split: option.split sum.split prod.split)
qed

lemma authenticate_token_ok: "caller_ok e s \<Longrightarrow> caller_ok e (snd (authenticate_token e token s))"
proof -
  assume ok: "caller_ok e s"
  let ?t = "snd (authenticate_token e token s)"
  have "tokens_ok (e_now e) (a_tokens ?t)"
    using authenticate_token_tokens [of e token s] ok by (auto simp: caller_ok_def safe_def tokens_ok_used)
  then have "safe (e_now e) ?t"
    using ok by - (rule safe_stores [of "e_now e" s], simp_all add: caller_ok_def authenticate_token_frame)
  moreover have "ids_fresh e ?t"
    using ok by (simp add: caller_ok_def ids_fresh_def authenticate_token_frame authenticate_token_draws)
  ultimately show ?thesis by (simp add: caller_ok_def)
qed

lemma external_context_ok: "caller_ok e s \<Longrightarrow> caller_ok e (snd (external_context e r s))"
proof -
  assume ok: "caller_ok e s"
  have "snd (external_context e r s) = s \<or> snd (external_context e r s) = snd (fresh e s)"
    by (simp add: external_context_def Let_def case_prod_beta)
  moreover have "caller_ok e (snd (fresh e s))"
    using ok by (simp add: caller_ok_def safe_def in_charge_def ids_fresh_def) (simp add: fresh_def)
  ultimately show ?thesis using ok by auto
qed

lemma authenticate_request_ok: "caller_ok e s \<Longrightarrow> caller_ok e (snd (authenticate_request e mode rq s))"
  by (auto simp: authenticate_request_def authenticate_external_def authenticate_token_ok external_context_ok
      split: option.split prod.split adapter_answer.split)

lemmas caller_then = sequence_keeps [where P = "caller_ok e" for e]

lemma get_auth_pending_ok: "caller_ok e s \<Longrightarrow> caller_ok e (snd (get_auth_pending e None mode rq s))"
  by (simp add: get_auth_pending_def ensure_ready_def andThen_def authenticate_request_ok split: option.split)

lemma caller_keeps: "caller_ok e s \<Longrightarrow> caller_ok e (snd (caller c e None mode rq s))"
proof -
  assume ok: "caller_ok e s"
  have auth: "caller_ok e (snd (get_auth e None mode rq s))"
    unfolding get_auth_def by (rule caller_then) (simp_all add: get_auth_pending_ok [OF ok])
  have "caller_ok e (snd (require_permission p e None mode rq s))" for p
    unfolding require_permission_def by (rule caller_then) (simp_all add: auth)
  with auth get_auth_pending_ok [OF ok] show ?thesis
    by (simp add: caller_def split: dependency.split)
qed

lemma serve_users_safe:
  assumes ok: "caller_ok e s"
  shows "safe (e_now e) (snd (serve_users e None mode rq peer r s))"
proof (cases r)
  case (Sign_in username password)
  have quiet: "same_stores s (snd (lift_api (count_attempt e rq peer) s))"
    by (simp add: count_attempt_def same_stores_def)
  have ok': "safe (e_now e) s" using ok by (simp add: caller_ok_def)
  have "safe (e_now e) (snd (andThen (lift_api (count_attempt e rq peer)) (\<lambda>_. lift_api (login e username password m)) s))" for m
  proof (rule then_mid [where R = "same_stores s"])
    show "safe (e_now e) (snd (lift_api (login e username password m) t))" if "same_stores s t" for t
      using safe_operations(10) [OF same_safe [OF that ok']] by simp
  qed (use quiet same_safe [OF _ ok'] in auto)
  then have "safe (e_now e) (snd (login_route e None rq peer username password s))"
    unfolding login_route_def ensure_ready_def by (simp add: andThen_assoc [symmetric]) (simp add: andThen_def)
  with Sign_in ok' show ?thesis by (simp add: serve_users_def)
next
  case (Call c)
  have "safe (e_now e) (snd (andThen (caller c e None mode rq) (\<lambda>ctx. lift_api (handle e rq peer c ctx)) s))"
  proof (rule then_mid [where R = "caller_ok e"])
    show "caller_ok e (snd (caller c e None mode rq s))" by (rule caller_keeps [OF ok])
    fix ctx t assume "caller_ok e t"
    then show "safe (e_now e) (snd (lift_api (handle e rq peer c ctx) t))" by (simp add: handle_safe caller_ok_def)
  qed (simp add: caller_ok_def)
  then have "safe (e_now e) (snd (andThen (store_write e (writes_users c) (writes_groups c)) (\<lambda>_.
      andThen (caller c e None mode rq) (\<lambda>ctx. lift_api (handle e rq peer c ctx))) s))"
    using ok by (simp add: store_write_def andThen_def guard_def caller_ok_def)
  with Call ok show ?thesis by (simp add: serve_users_def caller_ok_def)
qed

text \<open>
  The server under requests: the clock moves on, sockets trade in their tickets, the clean-up runs.
\<close>

inductive api_step :: "int \<times> auth \<Rightarrow> int \<times> auth \<Rightarrow> bool" where
  api_request: "now \<le> e_now e \<Longrightarrow> ids_fresh e s \<Longrightarrow>
     api_step (now, s) (e_now e, snd (users_api_route rq chunks (serve_users e None mode rq peer r) s))"
| api_socket: "now \<le> e_now e \<Longrightarrow> api_step (now, s) (e_now e, snd (consume_ticket e ticket s))"
| api_cleanup: "now \<le> e_now e \<Longrightarrow> api_step (now, s) (e_now e, cleanup_sessions e s)"

definition api_init :: "int \<times> auth \<Rightarrow> bool" where
  "api_init st \<longleftrightarrow> server_init (snd st)"

lemma seed_group_tokens [simp]: "a_tokens (seed_group e n d p s) = a_tokens s"
  by (simp add: seed_group_def fresh_def Let_def)

lemma seed_tokens: "a_tokens (snd (seed e pw s)) = a_tokens s"
  by (simp add: seed_def fresh_def Let_def split: option.split sum.split prod.split)

lemma users_api_route_state: "P s \<Longrightarrow> P (snd (original s)) \<Longrightarrow> P (snd (users_api_route rq chunks original s))"
  by (cases "original s") (auto simp: users_api_route_def split: sum.split request_error.split api_error.split)

lemma api_init_safe: "api_init st \<Longrightarrow> safe (fst st) (snd st)"
proof -
  assume "api_init st"
  then have init: "server_init (snd st)" by (simp add: api_init_def)
  then have "a_tokens (snd st) = []" by (auto simp: server_init_def seed_tokens new_auth_def)
  then show ?thesis
    using server_init_effect [OF init] by (simp add: safe_def tokens_ok_def token_store_ok_def live_tokens_def dvalues_def)
qed

lemma safe_later: "safe now s \<Longrightarrow> now \<le> later \<Longrightarrow> safe later s"
  using tokens_ok_later unfolding safe_def by blast

lemma api_step_safe: "api_step st st' \<Longrightarrow> safe (fst st) (snd st) \<Longrightarrow> safe (fst st') (snd st')"
proof (induction rule: api_step.induct)
  case (api_request now e s rq chunks mode peer r)
  then have "caller_ok e s" using safe_later by (simp add: caller_ok_def)
  then show ?case
    using serve_users_safe by (auto intro: users_api_route_state simp: caller_ok_def)
next
  case (api_socket now e s ticket)
  then have "safe (e_now e) s" using safe_later by simp
  then show ?case by (simp add: safe_stores consume_ticket_quiet safe_def in_charge_def)
next
  case (api_cleanup now e s)
  then have "safe (e_now e) s" using safe_later by simp
  then show ?case by (simp add: safe_def in_charge_def cleanup_sessions_frame)
qed

interpretation users_api: invariant_system api_init api_step "\<lambda>st. safe (fst st) (snd st)"
  by unfold_locales (auto simp: api_init_safe dest: api_step_safe)

text \<open>
  C23. Whatever requests reach the users interface, in whatever order and by whomever, with tickets traded
  in and sessions cleaned up between them: an enabled administrator is left, no user holds more than twenty
  API tokens that have not expired, and the tokens of one user have different names up to case.
\<close>

theorem requests_keep_limits:
  assumes "reachable api_init api_step (now, s)"
  shows "(\<exists>u \<in> set (us_get_users (a_users s)). enabled_admin u)
    \<and> length (filter (\<lambda>t. at_user_id t = uid \<and> \<not> token_is_expired t now) (ts_get_tokens None (a_tokens s))) \<le> 20
    \<and> (\<forall>t \<in> set (ts_get_tokens None (a_tokens s)). \<forall>v \<in> set (ts_get_tokens None (a_tokens s)).
         at_user_id t = at_user_id v \<and> py_lower (at_name t) = py_lower (at_name v) \<longrightarrow> t = v)"
proof -
  have all: "ts_get_tokens None d = dvalues d" for d by (simp add: ts_get_tokens_def)
  have "safe now s" using users_api.reachable_inv [OF assms] by simp
  then show ?thesis
    by (auto simp: all safe_def in_charge_def charge_def tokens_ok_def live_tokens_def MAX_TOKENS_PER_USER_def same_name_def)
qed

lemma sample_ids_fresh:
  assumes "map fst (a_users s) = [''rrr'']" and "4 \<le> a_draws s"
  shows "ids_fresh (sample_env now) s"
proof -
  have "replicate (Suc n) (CHR ''r'') \<noteq> ''rrr''" if "4 \<le> n" for n
  proof
    assume "replicate (Suc n) (CHR ''r'') = ''rrr''"
    from arg_cong [OF this, of length] that show False by simp
  qed
  moreover have "dget (a_users s) k = None" if "k \<noteq> ''rrr''" for k
    using assms(1) that by (auto simp: map_of_eq_None_iff simp flip: set_map)
  ultimately show ?thesis using assms(2) by (auto simp: ids_fresh_def sample_env_def)
qed

text \<open>Root signs in over the interface and creates a token.\<close>

definition plain_request :: "string \<Rightarrow> string \<Rightarrow> http_request" where
  "plain_request method path = \<lparr>rq_path = path, rq_method = method, rq_headers = [], rq_query = [], rq_auth = None\<rparr>"

definition after_sign_in :: "reply option \<times> auth" where
  "after_sign_in =
     users_api_route (plain_request ''POST'' ''/api/v1/qcli/sessions'') [60]
       (serve_users (sample_env 2000) None None (plain_request ''POST'' ''/api/v1/qcli/sessions'') None
          (Sign_in ''root'' ''correct horse'')) seeded"

definition sample_token_request :: token_request where
  "sample_token_request =
     \<lparr>tr_name = JStr ''ci'', tr_expires_in_days = Some (Plain (JInt 30)), tr_permissions = JArr [JStr ''files:read'']\<rparr>"

definition create_request :: http_request where
  "create_request = with_bearer ''POST'' ''/api/v1/qcli/tokens'' root_token"

definition after_create_token :: "reply option \<times> auth" where
  "after_create_token =
     users_api_route create_request [90]
       (serve_users (sample_env 3000) None None create_request None (Call (Create_token sample_token_request)))
       (snd after_sign_in)"

lemma sample_api_reachable: "reachable api_init api_step (3000, snd after_create_token)"
proof -
  have "\<not> read_only_users (e_opts (sample_env 1000))" "\<not> read_only_groups (e_opts (sample_env 1000))"
    "\<not> e_external_auth (sample_env 1000)" by (simp_all add: sample_env_def default_options_def)
  then have "server_init seeded" unfolding server_init_def seeded_def by blast
  then have "reachable api_init api_step (1000, seeded)"
    by (intro reach_init) (simp add: api_init_def)
  moreover have "api_step (1000, seeded) (e_now (sample_env 2000), snd after_sign_in)"
    unfolding after_sign_in_def by (rule api_request [OF _ seeded_ids_fresh]) (simp add: sample_env_def)
  ultimately have "reachable api_init api_step (e_now (sample_env 2000), snd after_sign_in)"
    by (rule reach_step)
  moreover have "api_step (e_now (sample_env 2000), snd after_sign_in) (e_now (sample_env 3000), snd after_create_token)"
    unfolding after_create_token_def
  proof (rule api_request)
    have "map fst (a_users (snd after_sign_in)) = [''rrr'']" "4 \<le> a_draws (snd after_sign_in)" by code_simp+
    then show "ids_fresh (sample_env 3000) (snd after_sign_in)" by (rule sample_ids_fresh)
  qed (simp add: sample_env_def)
  ultimately have "reachable api_init api_step (e_now (sample_env 3000), snd after_create_token)"
    by (rule reach_step)
  then show ?thesis by (simp add: sample_env_def)
qed

theorem requests_keep_limits_witness:
  "map at_name (ts_get_tokens None (a_tokens (snd after_create_token))) = [''ci'']
   \<and> length (filter (\<lambda>t. at_user_id t = ''rrr'' \<and> \<not> token_is_expired t 3000) (ts_get_tokens None (a_tokens (snd after_create_token)))) \<le> 20
   \<and> (\<exists>u \<in> set (us_get_users (a_users (snd after_create_token))). enabled_admin u)"
proof -
  have "map at_name (ts_get_tokens None (a_tokens (snd after_create_token))) = [''ci'']" by code_simp
  with requests_keep_limits [OF sample_api_reachable, of "''rrr''"] show ?thesis by blast
qed

section \<open>Created tokens\<close>

lemma token_expires_at_Inr:
  "token_expires_at body never now = Inr ea \<Longrightarrow>
     (case ea of None \<Rightarrow> never | Some x \<Rightarrow> now + DAY_MS \<le> x \<and> x \<le> now + MAX_EXPIRES_IN_DAYS * DAY_MS)"
  by (auto simp: token_expires_at_def DAY_MS_def MAX_EXPIRES_IN_DAYS_def DEFAULT_EXPIRES_IN_DAYS_def
      split: option.splits if_splits)

lemma token_scope_Inr: "token_scope ctx raw = Inr (Some ps) \<Longrightarrow> p \<in> set ps \<Longrightarrow> ctx_can ctx p"
  by (auto simp: token_scope_def find_None_iff Let_def or_else_def split: json.splits if_splits sum.splits option.splits)

lemma update_with_Inr: "update_with f s = (Inr x, s') \<longleftrightarrow> f s = (x, s')"
  by (auto simp: update_with_def split: prod.split)

lemma create_token_Inr:
  assumes "create_token e ctx body s = (Inr (token, t), s')"
  obtains name ea ps where "cx_api_token ctx = None" "cx_session ctx \<noteq> None" "\<not> cx_external ctx"
    "token_expires_at body (allow_non_expiring_tokens (e_opts e)) (e_now e) = Inr ea" "token_scope ctx (tr_permissions body) = Inr ps"
    "store_new_token e ctx name ea ps s = ((token, t), s')"
  using assms
  by (auto simp: create_token_def andThen_Inr guard_def lift_def reads_def update_with_Inr split: if_splits)

text \<open>
  C25. A token that was created authenticates from then on, until it expires, as its creator, without a
  session, and with the permissions the creator holds at that time, cut down to the scope of the token if it
  has one.  The scope contains nothing the creator could not do, the token lives between one day and a year
  unless the server allows tokens that never expire, and only a session can create one.
\<close>

theorem created_token_authenticates:
  assumes run: "create_token e ctx body s = (Inr (token, t), s')"
    and new: "\<forall>v \<in> set (ts_get_tokens None (a_tokens s)). at_token_hash v \<noteq> hash_token e token"
    and later: "e_crypto e' = e_crypto e" "\<not> token_is_expired t (e_now e')"
    and live: "live_user (u_id (cx_user ctx)) s' = Some u"
  shows "(\<exists>c s''. authenticate_token e' token s' = (Inr c, s'') \<and> cx_user c = u \<and> cx_session c = None
      \<and> cx_permissions c = (case at_permissions t of None \<Rightarrow> user_permissions u s'
                             | Some scope \<Rightarrow> filter (has_permission (user_permissions u s')) scope))
    \<and> (\<forall>scope. at_permissions t = Some scope \<longrightarrow> (\<forall>p \<in> set scope. ctx_can ctx p))
    \<and> (case at_expires_at t of None \<Rightarrow> allow_non_expiring_tokens (e_opts e)
        | Some x \<Rightarrow> e_now e + DAY_MS \<le> x \<and> x \<le> e_now e + MAX_EXPIRES_IN_DAYS * DAY_MS)
    \<and> cx_api_token ctx = None \<and> cx_session ctx \<noteq> None \<and> \<not> cx_external ctx"
proof -
  from run obtain name ea ps where c: "cx_api_token ctx = None" "cx_session ctx \<noteq> None" "\<not> cx_external ctx"
    "token_expires_at body (allow_non_expiring_tokens (e_opts e)) (e_now e) = Inr ea" "token_scope ctx (tr_permissions body) = Inr ps"
    "store_new_token e ctx name ea ps s = ((token, t), s')" by (rule create_token_Inr)
  have t: "token = API_TOKEN_PREFIX @ e_rnd e (a_draws s)" "at_token_hash t = hash_token e token" "at_user_id t = u_id (cx_user ctx)"
    "at_expires_at t = ea" "at_permissions t = ps" "a_tokens s' = dset (at_id t) t (a_tokens s)"
    using c(6) by (auto simp: store_new_token_def generate_api_token_def fresh_def ts_create_token_def token_event_def Let_def)
  have "find (\<lambda>v. at_token_hash v = hash_token e token) (dvalues (dset (at_id t) t d)) = Some t"
    if "\<forall>v \<in> set (dvalues d). at_token_hash v \<noteq> hash_token e token" for d
    using that t(2) by (induction d) (auto simp: dvalues_def)
  then have found: "ts_get_token_by_hash (hash_token e' token) (a_tokens s') = Some t"
    using new later(1) t(6) by (simp add: ts_get_token_by_hash_def ts_get_tokens_def hash_token_def)
  have "py_startswith token API_TOKEN_PREFIX" by (simp add: t(1) py_startswith_def)
  then have "\<exists>c s''. authenticate_token e' token s' = (Inr c, s'') \<and> cx_user c = u \<and> cx_session c = None
      \<and> cx_permissions c = (case at_permissions t of None \<Rightarrow> user_permissions u s'
                             | Some scope \<Rightarrow> filter (has_permission (user_permissions u s')) scope)"
    using later(2) live t(3)
    by (simp add: authenticate_token_def authenticate_api_token_def found context_for_api_token_def user_permissions_def Let_def split: option.split)
  moreover have "\<forall>scope. ps = Some scope \<longrightarrow> (\<forall>p \<in> set scope. ctx_can ctx p)" using token_scope_Inr c(5) by blast
  ultimately show ?thesis using c(1-3) token_expires_at_Inr [OF c(4)] unfolding t(4,5) by (intro conjI) assumption+
qed

definition token_run :: "(api_error + string \<times> api_token) \<times> auth" where
  "token_run = create_token (sample_env 3000) root_context sample_token_request root_state"

theorem created_token_authenticates_witness:
  "case fst token_run of Inl _ \<Rightarrow> False
   | Inr (token, t) \<Rightarrow> (\<exists>c s''. authenticate_token (sample_env 4000) token (snd token_run) = (Inr c, s'')
       \<and> u_name (cx_user c) = ''root'' \<and> cx_session c = None \<and> cx_permissions c = [''files:read''])"
proof -
  have "case fst token_run of Inl _ \<Rightarrow> False | Inr (token, t) \<Rightarrow> at_permissions t = Some [''files:read''] \<and> \<not> token_is_expired t 4000"
    by code_simp
  then obtain token t where r: "fst token_run = Inr (token, t)" "at_permissions t = Some [''files:read'']"
    "\<not> token_is_expired t (e_now (sample_env 4000))" by (auto simp: sample_env_def split: sum.splits)
  then have run: "create_token (sample_env 3000) root_context sample_token_request root_state = (Inr (token, t), snd token_run)"
    unfolding token_run_def by (metis prod.collapse)
  have none: "ts_get_tokens None (a_tokens root_state) = []" by code_simp
  have "(case live_user (u_id (cx_user root_context)) root_state of None \<Rightarrow> False
      | Some u \<Rightarrow> u_name u = ''root'' \<and> filter (has_permission (user_permissions u root_state)) [''files:read''] = [''files:read''])"
    by code_simp
  then obtain u where "live_user (u_id (cx_user root_context)) root_state = Some u" "u_name u = ''root''"
    "filter (has_permission (user_permissions u root_state)) [''files:read''] = [''files:read'']"
    by (cases "live_user (u_id (cx_user root_context)) root_state") simp_all
  moreover have "a_users (snd token_run) = a_users root_state \<and> a_groups (snd token_run) = a_groups root_state"
    using run by (rule create_token_Inr) (metis create_token_tokens snd_conv)
  then have "live_user i (snd token_run) = live_user i root_state"
    "user_permissions u (snd token_run) = user_permissions u root_state" for i u
    by (simp_all add: live_user_def user_permissions_def effective_permissions_def)
  ultimately have u: "live_user (u_id (cx_user root_context)) (snd token_run) = Some u" "u_name u = ''root''"
    "filter (has_permission (user_permissions u (snd token_run))) [''files:read''] = [''files:read'']" by simp_all
  have "e_crypto (sample_env 4000) = e_crypto (sample_env 3000)" by (simp add: sample_env_def)
  from created_token_authenticates [OF run _ this r(3) u(1)] none r(2) u(2,3)
  have "\<exists>c s''. authenticate_token (sample_env 4000) token (snd token_run) = (Inr c, s'')
      \<and> cx_user c = u \<and> cx_session c = None \<and> cx_permissions c = [''files:read'']" by simp
  then show ?thesis unfolding r(1) sum.case prod.case using u(2) by blast
qed

end
