(* ===== verification/UsersConfinement.thy ===== *)
theory UsersConfinement
  imports UsersRoutesFacts
begin

text \<open>
  Callers without management permissions are confined to their own account: whatever they ask of the users
  interface, nothing of other accounts and no group changes, and of their own account only e-mail, data,
  password, sessions and API tokens.
\<close>

section \<open>What a caller can change\<close>

definition MANAGEMENT :: "string list" where
  "MANAGEMENT = [''users:create'', ''users:update'', ''users:delete'', ''groups:create'', ''groups:update'', ''groups:delete'',
     ''sessions:revoke'', ''tokens:revoke'']"

definition powerless :: "auth_context \<Rightarrow> bool" where
  "powerless ctx = list_all (\<lambda>p. \<not> ctx_can ctx p) MANAGEMENT"

text \<open>The entries of a store that are not of the account \<open>i\<close>; expired sessions are nobody's.\<close>

definition users_of_others :: "string \<Rightarrow> auth \<Rightarrow> (string, user) dict" where
  "users_of_others i s = filter (\<lambda>p. fst p \<noteq> i) (a_users s)"

definition credentials_of_others :: "string \<Rightarrow> auth \<Rightarrow> (string, credentials) dict" where
  "credentials_of_others i s = filter (\<lambda>p. fst p \<noteq> i) (a_credentials s)"

definition sessions_of_others :: "env \<Rightarrow> string \<Rightarrow> auth \<Rightarrow> (string, session) dict" where
  "sessions_of_others e i s = filter (\<lambda>p. se_user_id (snd p) \<noteq> i \<and> \<not> is_expired e (snd p)) (a_sessions s)"

definition tokens_of_others :: "string \<Rightarrow> auth \<Rightarrow> (string, api_token) dict" where
  "tokens_of_others i s = filter (\<lambda>p. at_user_id (snd p) \<noteq> i) (a_tokens s)"

definition same_account :: "user \<Rightarrow> user \<Rightarrow> bool" where
  "same_account u v \<longleftrightarrow> u_id v = u_id u \<and> u_name v = u_name u \<and> u_groups v = u_groups u \<and> u_disabled v = u_disabled u
     \<and> u_home_dir v = u_home_dir u"

definition confined :: "env \<Rightarrow> string \<Rightarrow> auth \<Rightarrow> auth \<Rightarrow> bool" where
  "confined e i s t \<longleftrightarrow>
     a_groups t = a_groups s \<and> users_of_others i t = users_of_others i s
     \<and> (\<forall>u. dget (a_users s) i = Some u \<longrightarrow> (\<exists>v. dget (a_users t) i = Some v \<and> same_account u v))
     \<and> credentials_of_others i t = credentials_of_others i s
     \<and> sessions_of_others e i t = sessions_of_others e i s
     \<and> tokens_of_others i t = tokens_of_others i s"

lemmas others_defs = users_of_others_def credentials_of_others_def sessions_of_others_def tokens_of_others_def

lemma same_account_refl [simp]: "same_account u u"
  by (simp add: same_account_def)

lemma confined_refl [simp]: "confined e i s s"
  by (simp add: confined_def)

lemma confined_trans: "confined e i s t \<Longrightarrow> confined e i t r \<Longrightarrow> confined e i s r"
  unfolding confined_def same_account_def by metis

lemma confined_stores:
  "a_users t = a_users s \<Longrightarrow> a_groups t = a_groups s \<Longrightarrow> credentials_of_others i t = credentials_of_others i s
   \<Longrightarrow> sessions_of_others e i t = sessions_of_others e i s \<Longrightarrow> tokens_of_others i t = tokens_of_others i s
   \<Longrightarrow> confined e i s t"
  by (simp add: confined_def users_of_others_def)

section \<open>Changes of a store below a filter\<close>

lemma filter_dset:
  "(\<And>w. dget d k = Some w \<Longrightarrow> \<not> Q (k, w)) \<Longrightarrow> \<not> Q (k, v) \<Longrightarrow> filter Q (dset k v d) = filter Q d"
  by (induction d) auto

lemma filter_dpop: "(\<And>p. p \<in> set d \<Longrightarrow> fst p = k \<Longrightarrow> \<not> Q p) \<Longrightarrow> filter Q (dpop k d) = filter Q d"
  unfolding dpop_filter filter_filter by (rule filter_cong) auto

lemma filter_dpop_get: "dict_ok d \<Longrightarrow> (\<And>w. dget d k = Some w \<Longrightarrow> \<not> Q (k, w)) \<Longrightarrow> filter Q (dpop k d) = filter Q d"
  by (rule filter_dpop) (auto simp: dget_in)

lemma filter_delete_by_id:
  assumes d: "dict_ok d" and q: "\<And>p. p \<in> set d \<Longrightarrow> se_id (snd p) = j \<Longrightarrow> \<not> Q p"
  shows "filter Q (ss_delete_session_by_id j d) = filter Q d"
proof (cases "find (\<lambda>p. se_id (snd p) = j) d")
  case (Some p)
  then have p: "p \<in> set d" "se_id (snd p) = j" by (auto simp: find_Some_iff)
  have "x = p" if "x \<in> set d" "fst x = fst p" for x
    using d p(1) that by (metis dget_in option.inject prod.collapse)
  then have "filter Q (dpop (fst p) d) = filter Q d" by (intro filter_dpop) (use p q in blast)
  with Some show ?thesis by (simp add: ss_delete_session_by_id_def)
qed (simp add: ss_delete_session_by_id_def)

lemma delete_by_id_sub: "set (ss_delete_session_by_id j d) \<subseteq> set d" "dict_ok d \<Longrightarrow> dict_ok (ss_delete_session_by_id j d)"
  by (auto simp: ss_delete_session_by_id_def set_dpop split: option.split)

lemma filter_fold_delete:
  "dict_ok d \<Longrightarrow> (\<And>p. p \<in> set d \<Longrightarrow> se_id (snd p) \<in> set js \<Longrightarrow> \<not> Q p)
   \<Longrightarrow> filter Q (fold ss_delete_session_by_id js d) = filter Q d"
proof (induction js arbitrary: d)
  case (Cons j js)
  have "filter Q (fold ss_delete_session_by_id js (ss_delete_session_by_id j d)) = filter Q (ss_delete_session_by_id j d)"
    by (rule Cons.IH) (use Cons.prems delete_by_id_sub [where j = j and d = d] in auto)
  also have "\<dots> = filter Q d" by (rule filter_delete_by_id) (use Cons.prems in auto)
  finally show ?case by simp
qed simp

lemma session_by_id:
  assumes "session_store_ok d" "p \<in> set d" "q \<in> set d" "se_id (snd p) = se_id (snd q)"
  shows "p = q"
  using assms unfolding session_store_ok_def inj_on_def by blast

lemma revoked_others:
  assumes "session_store_ok (a_sessions s)"
  shows "sessions_of_others e i (snd (revoke_user_sessions e i r ac ai ex s)) = sessions_of_others e i s"
proof -
  let ?js = "map se_id (filter (to_revoke i ex) (ss_get_active_sessions (a_sessions s)))"
  have flt: "filter Q (fold ss_delete_session_by_id ?js (a_sessions s)) = filter Q (a_sessions s)"
    if Q: "\<And>p. Q p \<Longrightarrow> se_user_id (snd p) \<noteq> i" for Q
  proof (rule filter_fold_delete)
    show "dict_ok (a_sessions s)" using assms by (simp add: session_store_ok_def)
    fix p assume p: "p \<in> set (a_sessions s)" "se_id (snd p) \<in> set ?js"
    then obtain q where "q \<in> set (a_sessions s)" "se_id (snd p) = se_id (snd q)" "se_user_id (snd q) = i"
      by (auto simp: ss_get_active_sessions_def dvalues_def to_revoke_def)
    with session_by_id [OF assms p(1)] Q show "\<not> Q p" by blast
  qed
  have "a_sessions (snd (revoke_user_sessions e i r ac ai ex s)) = fold ss_delete_session_by_id ?js (a_sessions s)"
    using revoke_user_sessions_effect [of e i r ac ai ex s, OF prod.collapse [symmetric]] by blast
  then show ?thesis unfolding sessions_of_others_def by (simp only:) (rule flt, simp)
qed

section \<open>The operations on the own account\<close>

lemma filter_own [simp]: "filter (\<lambda>p. fst p \<noteq> i) (dset i v d) = filter (\<lambda>p. fst p \<noteq> i) d"
  by (rule filter_dset) simp_all

lemma own_user_changed:
  "uc_name c = None \<Longrightarrow> uc_groups c = None \<Longrightarrow> uc_disabled c = None \<Longrightarrow> uc_home_dir c = None \<Longrightarrow> same_account u (change_user now c u)"
  by (simp add: same_account_def change_user_def or_else_def or_else_opt_def)

lemma update_user_confined:
  "confined e (u_id target) s (snd (update_user e (Some ctx) target None email None None None data s))"
proof -
  have "wp (update_user e (Some ctx) target None email None None None data)
      (\<lambda>_. confined e (u_id target) s) (\<lambda>_. confined e (u_id target) s) s"
    unfolding update_user_def
    by (simp add: wps ret_def split: option.split) (simp add: confined_def others_defs own_user_changed dget_dset)
  then show ?thesis by (simp add: wp_state)
qed


lemma set_password_others [simp]: "credentials_of_others i (set_password e i p s) = credentials_of_others i s"
  by (simp add: credentials_of_others_def set_password_def cs_set_password_def fresh_def Let_def case_prod_beta)

text \<open>Own credentials and the tables of the throttles may change; sessions, users, groups and tokens stay.\<close>

definition quiet :: "string \<Rightarrow> auth \<Rightarrow> auth \<Rightarrow> bool" where
  "quiet i s t \<longleftrightarrow> same_stores s t \<and> a_sessions t = a_sessions s \<and> credentials_of_others i t = credentials_of_others i s"

lemma quiet_refl [simp]: "quiet i s s"
  by (simp add: quiet_def)

lemma quiet_trans: "quiet i s t \<Longrightarrow> quiet i t r \<Longrightarrow> quiet i s r"
  by (simp add: quiet_def same_stores_def)

lemma quiet_confined: "quiet i s t \<Longrightarrow> confined e i s t"
  by (auto simp: quiet_def same_stores_def others_defs intro!: confined_stores)

lemma revoke_confined:
  "session_store_ok (a_sessions s) \<Longrightarrow> confined e i s (snd (revoke_user_sessions e i r ac ai ex s))"
  by (rule confined_stores) (simp_all add: revoked_others credentials_of_others_def tokens_of_others_def)

lemma change_password_confined:
  assumes ok: "session_store_ok (a_sessions s)" and self: "ctx_is_self ctx target"
  shows "confined e (u_id target) s (snd (change_password e ctx target password temporary s))"
proof -
  let ?i = "u_id target" let ?C = "confined e ?i s"
  have rev: "?C (snd (revoke_user_sessions e ?i r ac ai ex t))" if "?C t" "a_sessions t = a_sessions s" for r ac ai ex t
    using confined_trans [OF that(1) revoke_confined] that(2) ok by simp
  have frame: "?C (user_event e ty u c t) = ?C t" "?C (audit e ev n aa t) = ?C t" for ty u c t ev n aa
    by (simp_all add: confined_def others_defs)
  have pw: "?C (set_password e ?i w s)" for w
    by (rule confined_stores) (simp_all add: sessions_of_others_def tokens_of_others_def)
  have upd: "?C ((set_password e ?i w s)\<lparr>a_users := dset ?i (change_user n (no_changes\<lparr>uc_must_change_password := Some False\<rparr>) u) (a_users s)\<rparr>)"
    if "dget (a_users s) ?i = Some u" for u n w
    using that pw [of w] by (simp add: confined_def users_of_others_def credentials_of_others_def sessions_of_others_def
        tokens_of_others_def own_user_changed dget_dset)
  have "wp (change_password e ctx target password temporary) (\<lambda>_. ?C) (\<lambda>_. ?C) s"
    unfolding change_password_def wp_simps wp_update_user_in_store
    by (simp add: self pw upd rev frame split: sum.split option.split)
  then show ?thesis by (simp add: wp_state)
qed

lemma auth_verify_password_others [simp]:
  "credentials_of_others i (snd (auth_verify_password e i w s)) = credentials_of_others i s"
  by (simp add: auth_verify_password_def Let_def split: option.split)

lemma check_password_attempt_quiet: "quiet (u_id u) s (snd (check_password_attempt e ctx u w s))"
proof -
  have "credentials_of_others i (reset_failures k t) = credentials_of_others i t"
    "credentials_of_others i (audit e ev n aa t) = credentials_of_others i t"
    "credentials_of_others i (snd (reserve_attempt e k t)) = credentials_of_others i t" for i k t ev n aa
    by (simp_all add: credentials_of_others_def)
  then show ?thesis
    by (simp add: quiet_def same_stores_def check_password_attempt_def Let_def case_prod_beta)
qed

lemma count_attempt_quiet: "quiet i s (snd (count_attempt e rq peer s))"
  by (simp add: quiet_def same_stores_def credentials_of_others_def count_attempt_def check_rate_limit_def Let_def case_prod_beta)

lemma confirm_quiet: "quiet (u_id u) s (snd (confirm_current_password e ctx u w s))"
proof (cases w)
  case (Some p)
  have "quiet (u_id u) s (snd (andThen (check_password_attempt e ctx u p) (\<lambda>valid. guard valid er) s))" for er
    by (rule sequence_keeps) (simp_all add: check_password_attempt_quiet)
  with Some show ?thesis by (simp add: confirm_current_password_def)
qed (simp add: confirm_current_password_def)

section \<open>The handlers\<close>

definition stores_ok :: "env \<Rightarrow> auth \<Rightarrow> bool" where
  "stores_ok e s \<longleftrightarrow> user_store_ok (a_users s) \<and> session_store_ok (a_sessions s) \<and> token_store_ok (a_tokens s)
     \<and> (\<forall>n \<ge> a_draws s. dget (a_tokens s) (e_rnd e n) = None)"

definition own_login :: "env \<Rightarrow> auth_context \<Rightarrow> auth \<Rightarrow> bool" where
  "own_login e ctx s \<longleftrightarrow>
     (\<forall>w se. cx_token ctx = Some w \<longrightarrow> dget (a_sessions s) (hash_token e w) = Some se \<longrightarrow> se_user_id se = u_id (cx_user ctx))"

lemma powerlessD: "powerless ctx \<Longrightarrow> p \<in> set MANAGEMENT \<Longrightarrow> \<not> ctx_can ctx p"
  by (simp add: powerless_def list_all_iff)

lemma load_target_self:
  "powerless ctx \<Longrightarrow> load_target i ctx ''users:update'' True s = Inr u \<Longrightarrow> ctx_is_self ctx u"
  using powerlessD [of ctx "''users:update''"]
  by (auto simp: load_target_def MANAGEMENT_def Let_def split: if_splits option.splits)

lemma self_id: "ctx_is_self ctx u \<Longrightarrow> u_id u = u_id (cx_user ctx)"
  by (simp add: ctx_is_self_def)

lemma publish_closed_others [simp]:
  "sessions_of_others e i (publish_session_closed e' se ac s) = sessions_of_others e i s"
  by (simp add: sessions_of_others_def)

lemma list_sessions_others:
  "dict_ok (a_sessions s) \<Longrightarrow> (\<And>se p. se \<in> set ses \<Longrightarrow> p \<in> set (a_sessions s) \<Longrightarrow> se_id (snd p) = se_id se \<Longrightarrow> snd p = se)
   \<Longrightarrow> sessions_of_others e i (snd (list_sessions_loop e ctx ses out s)) = sessions_of_others e i s"
proof (induction ses arbitrary: out s)
  case (Cons se ses)
  show ?case
  proof (cases "is_expired e se")
    case True
    let ?d = "ss_delete_session_by_id (se_id se) (a_sessions s)"
    let ?s = "publish_session_closed e se None (s\<lparr>a_sessions := ?d\<rparr>)"
    note sub = delete_by_id_sub [where j = "se_id se" and d = "a_sessions s"]
    have "sessions_of_others e i (snd (list_sessions_loop e ctx ses out ?s)) = sessions_of_others e i ?s"
    proof (rule Cons.IH)
      show "dict_ok (a_sessions ?s)" using sub(2) [OF Cons.prems(1)] by simp
      show "snd p = x" if "x \<in> set ses" "p \<in> set (a_sessions ?s)" "se_id (snd p) = se_id x" for x p
        by (rule Cons.prems(2)) (use that sub(1) in auto)
    qed
    also have "\<dots> = sessions_of_others e i (s\<lparr>a_sessions := ?d\<rparr>)" by simp
    also have "\<dots> = sessions_of_others e i s"
    proof -
      have "filter (\<lambda>p. se_user_id (snd p) \<noteq> i \<and> \<not> is_expired e (snd p)) ?d
          = filter (\<lambda>p. se_user_id (snd p) \<noteq> i \<and> \<not> is_expired e (snd p)) (a_sessions s)"
      proof (rule filter_delete_by_id [OF Cons.prems(1)])
        fix p assume "p \<in> set (a_sessions s)" "se_id (snd p) = se_id se"
        from Cons.prems(2) [OF _ this] True show "\<not> (se_user_id (snd p) \<noteq> i \<and> \<not> is_expired e (snd p))" by simp
      qed
      then show ?thesis by (simp add: sessions_of_others_def)
    qed
    finally show ?thesis using True by simp
  qed (use Cons in simp)
qed simp

abbreviation me :: "auth_context \<Rightarrow> string" where "me ctx \<equiv> u_id (cx_user ctx)"

lemmas confined_then = then_rules [where P = "confined e (me ctx) s" for e ctx s]

lemma logout_confined:
  assumes "session_store_ok (a_sessions s)" "own_login e ctx s"
  shows "confined e (me ctx) s (snd (logout_route e ctx s))"
proof -
  have "confined e (me ctx) s (logout e w s)" if w: "cx_token ctx = Some w" for w
  proof (rule confined_stores)
    have "a_sessions (logout e w s) = dpop (hash_token e w) (a_sessions s)"
      by (simp add: logout_def ss_delete_session_def Let_def split: option.split)
    then show "sessions_of_others e (me ctx) (logout e w s) = sessions_of_others e (me ctx) s"
      unfolding sessions_of_others_def by (simp only:) (rule filter_dpop_get, use assms w in \<open>auto simp: own_login_def session_store_ok_def\<close>)
  qed (simp_all add: logout_stores credentials_of_others_def tokens_of_others_def, simp add: logout_def Let_def split: option.split)
  then show ?thesis
    unfolding logout_route_def by (intro confined_then(3,5)) (simp_all split: option.split)
qed

lemma revoke_session_confined:
  assumes ok: "session_store_ok (a_sessions s)" and p: "powerless ctx"
  shows "confined e (me ctx) s (snd (revoke_session_route e i ctx s))"
  unfolding revoke_session_route_def
proof (rule confined_then(1), simp, rule confined_then(3), simp, rule confined_then(4), goal_cases)
  case (1 se)
  have own: "se_user_id se = me ctx" using 1(2) powerlessD [OF p, of "''sessions:revoke''"] by (simp add: MANAGEMENT_def)
  have se: "\<exists>k. (k, se) \<in> set (a_sessions s)" "ss_get_session_by_id i (a_sessions s) = Some se"
    using 1(1) by (auto simp: ss_get_session_by_id_def dvalues_def find_Some_iff split: option.splits) (metis nth_mem prod.collapse)
  have "sessions_of_others e (me ctx) (revoke_session e se r ac ai n s) = sessions_of_others e (me ctx) s" for r ac ai n
    unfolding sessions_of_others_def revoke_session_frame
  proof (rule filter_delete_by_id)
    show "dict_ok (a_sessions s)" using ok by (simp add: session_store_ok_def)
    fix p assume p: "p \<in> set (a_sessions s)" "se_id (snd p) = se_id se"
    from se(1) obtain k where "(k, se) \<in> set (a_sessions s)" by blast
    from session_by_id [OF ok p(1) this] p(2) own show "\<not> (se_user_id (snd p) \<noteq> me ctx \<and> \<not> is_expired e (snd p))" by simp
  qed
  then have "confined e (me ctx) s (revoke_session e se r ac ai n s)" for r ac ai n
    by (intro confined_stores) (simp_all add: credentials_of_others_def tokens_of_others_def)
  then show ?case
    by - (rule then_mid [where R = "\<lambda>t. t = s"], auto split: option.split)
qed

lemma create_token_confined:
  assumes ok: "stores_ok e s"
  shows "confined e (me ctx) s (snd (create_token e ctx body s))"
proof -
  have "confined e (me ctx) s (snd (store_new_token e ctx name ea ps s))" for name ea ps
  proof (rule confined_stores)
    have "tokens_of_others (me ctx) (s\<lparr>a_tokens := dset (e_rnd e (Suc (a_draws s))) t (a_tokens s)\<rparr>) = tokens_of_others (me ctx) s"
      if that: "at_user_id t = me ctx" for t
    proof -
      have "filter (\<lambda>p. at_user_id (snd p) \<noteq> me ctx) (dset (e_rnd e (Suc (a_draws s))) t (a_tokens s))
          = filter (\<lambda>p. at_user_id (snd p) \<noteq> me ctx) (a_tokens s)"
        by (rule filter_dset) (use ok that in \<open>auto simp: stores_ok_def\<close>)
      then show ?thesis by (simp add: tokens_of_others_def)
    qed
    then show "tokens_of_others (me ctx) (snd (store_new_token e ctx name ea ps s)) = tokens_of_others (me ctx) s"
      by (simp add: tokens_of_others_def store_new_token_def generate_api_token_def fresh_def ts_create_token_def token_event_def Let_def)
  qed (simp_all add: create_token_tokens credentials_of_others_def sessions_of_others_def,
      simp_all add: store_new_token_def generate_api_token_def fresh_def ts_create_token_def token_event_def Let_def)
  then show ?thesis
    unfolding create_token_def by (intro confined_then(2,3,4) confined_refl) simp
qed

lemma revoke_token_confined:
  assumes ok: "token_store_ok (a_tokens s)" and p: "powerless ctx"
  shows "confined e (me ctx) s (snd (revoke_token e i ctx s))"
  unfolding revoke_token_def
proof (rule confined_then(1), simp, rule confined_then(5), rule confined_then(5), rule confined_then(5), goal_cases)
  case (1 t)
  then have t: "dget (a_tokens s) i = Some t" "at_user_id t = me ctx"
    using powerlessD [OF p, of "''tokens:revoke''"] by (auto simp: ts_get_token_def MANAGEMENT_def split: option.splits if_splits)
  then have "at_id t = i" using ok dget_mem by (fastforce simp: token_store_ok_def)
  then have "filter (\<lambda>p. at_user_id (snd p) \<noteq> me ctx) (dpop (at_id t) (a_tokens s)) = filter (\<lambda>p. at_user_id (snd p) \<noteq> me ctx) (a_tokens s)"
    by (intro filter_dpop_get) (use ok t in \<open>auto simp: token_store_ok_def\<close>)
  then show ?case
    by (auto intro!: confined_stores simp: ts_delete_token_def token_event_def others_defs)
qed

lemma update_user_route_confined:
  assumes p: "powerless ctx"
  shows "confined e (me ctx) s (snd (update_user_route e i body ctx s))"
  unfolding update_user_route_def
proof (rule confined_then(1), simp, rule confined_then(3), simp, goal_cases)
  case (1 target)
  have "u_id target = me ctx" using self_id [OF load_target_self [OF p 1(1)]] .
  with 1(2) update_user_confined [of e target s ctx "ur_email body" "ur_data body"] powerlessD [OF p, of "''users:update''"]
  show ?case by (simp add: MANAGEMENT_def)
qed

lemma verify_password_confined:
  assumes p: "powerless ctx"
  shows "confined e (me ctx) s (snd (verify_password_route e rq peer i w ctx s))"
  unfolding verify_password_route_def
proof (rule confined_then(1), simp, rule confined_then(1), simp, rule then_mid [where R = "quiet (me ctx) s"], goal_cases)
  case (3 target x y s1)
  have "u_id target = me ctx" using self_id [OF load_target_self [OF p 3(1)]] .
  with quiet_trans [OF 3(3)] check_password_attempt_quiet [of target s1 e ctx w] show ?case
    by (simp add: quiet_confined)
qed (simp_all add: count_attempt_quiet quiet_confined)

lemma change_password_route_confined:
  assumes ok: "session_store_ok (a_sessions s)" and p: "powerless ctx"
  shows "confined e (me ctx) s (snd (change_password_route e rq peer i body ctx s))"
proof -
  have fin: "confined e (me ctx) s (snd (andThen m1 (\<lambda>_. andThen m2 (\<lambda>_. andThen (change_password e ctx target w tm) (\<lambda>_. ret No_content))) s))"
    if t: "ctx_is_self ctx target" and m: "\<And>s. quiet (me ctx) s (snd (m1 s))" "\<And>s. quiet (me ctx) s (snd (m2 s))"
    for target w tm and m1 m2 :: "(api_error, unit, auth) act"
  proof (rule then_mid [where R = "quiet (me ctx) s"])
    show "quiet (me ctx) s (snd (m1 s))" by (rule m(1))
    fix s1 assume s1: "quiet (me ctx) s s1"
    show "confined e (me ctx) s s1" using quiet_confined [OF s1] .
    show "confined e (me ctx) s (snd (andThen m2 (\<lambda>_. andThen (change_password e ctx target w tm) (\<lambda>_. ret No_content)) s1))"
    proof (rule then_mid [where R = "quiet (me ctx) s"])
      show "quiet (me ctx) s (snd (m2 s1))" using quiet_trans [OF s1 m(2)] .
      fix s2 assume s2: "quiet (me ctx) s s2"
      show "confined e (me ctx) s s2" using quiet_confined [OF s2] .
      have "session_store_ok (a_sessions s2)" using ok s2 by (simp add: quiet_def)
      from confined_trans [OF quiet_confined [OF s2] change_password_confined [OF this t, unfolded self_id [OF t], of e w tm]]
      show "confined e (me ctx) s (snd (andThen (change_password e ctx target w tm) (\<lambda>_. ret No_content) s2))"
        by simp
    qed
  qed
  show ?thesis
    unfolding change_password_route_def
  proof (rule confined_then(3), simp, rule confined_then(4), rule then_mid [where R = "\<lambda>t. t = s"], goal_cases)
    case (3 x s1)
    show ?case
      unfolding 3
    proof (rule confined_then(1), simp, goal_cases)
      case (1 target)
      have t: "ctx_is_self ctx target" using load_target_self [OF p 1] .
      from fin [OF t] count_attempt_quiet confirm_quiet [of target, unfolded self_id [OF t]] show ?case
        by (cases "pq_password body"; cases "pq_new_password body") simp_all
    qed
  qed (simp_all add: ensure_password_changed_def)
qed

lemma handle_confined:
  assumes ok: "stores_ok e s" and p: "powerless ctx" and own: "own_login e ctx s"
    and dep: "\<And>q. dependency_of c = Needs q \<Longrightarrow> ctx_can ctx q"
  shows "confined e (me ctx) s (snd (handle e rq peer c ctx s))"
proof -
  have parts: "session_store_ok (a_sessions s)" "token_store_ok (a_tokens s)" using ok by (simp_all add: stores_ok_def)
  have no: "\<not> ctx_can ctx q" if "q \<in> set MANAGEMENT" for q using powerlessD [OF p that] .
  have never: "\<forall>q \<in> set MANAGEMENT. dependency_of c \<noteq> Needs q" using dep no by blast
  show ?thesis
  proof (cases c)
    case (Create_user name email pw body)
    with never show ?thesis by (simp add: dependency_of_def MANAGEMENT_def)
  next
    case (Delete_user i)
    with never show ?thesis by (simp add: dependency_of_def MANAGEMENT_def)
  next
    case (Create_group name description perms)
    with never show ?thesis by (simp add: dependency_of_def MANAGEMENT_def)
  next
    case (Update_group name description perms)
    with never show ?thesis by (simp add: dependency_of_def MANAGEMENT_def)
  next
    case (Delete_group name)
    with never show ?thesis by (simp add: dependency_of_def MANAGEMENT_def)
  next
    case (Add_member name i)
    with never show ?thesis by (simp add: dependency_of_def MANAGEMENT_def)
  next
    case (Remove_member name i)
    with never show ?thesis by (simp add: dependency_of_def MANAGEMENT_def)
  next
    case Ws_ticket
    have "confined e (me ctx) s (snd (issue_ticket e ctx s))"
      by (rule confined_stores) (simp_all add: issue_ticket_def drop_expired_tickets_def fresh_def Let_def others_defs)
    with Ws_ticket show ?thesis by (simp add: ws_ticket_def)
  next
    case List_sessions
    have "snd q = se" if q: "se \<in> set (ss_get_active_sessions (a_sessions s))" "q \<in> set (a_sessions s)" "se_id (snd q) = se_id se" for se q
    proof -
      obtain k where "(k, se) \<in> set (a_sessions s)" using q(1) by (auto simp: ss_get_active_sessions_def dvalues_def)
      from session_by_id [OF parts(1) q(2) this] q(3) show ?thesis by simp
    qed
    then have "sessions_of_others e (me ctx) (snd (list_sessions_loop e ctx (ss_get_active_sessions (a_sessions s)) [] s))
        = sessions_of_others e (me ctx) s"
      using parts(1) by (intro list_sessions_others) (auto simp: session_store_ok_def)
    then have "confined e (me ctx) s (snd (list_sessions e ctx s))"
      by (intro confined_stores) (simp_all add: list_sessions_def case_prod_beta credentials_of_others_def tokens_of_others_def)
    with List_sessions show ?thesis by simp
  next
    case (List_members name)
    have "confined e (me ctx) s (snd (list_members name ctx s))"
      unfolding list_members_def by (rule confined_then(1), simp, rule confined_then(3)) simp_all
    with List_members show ?thesis by simp
  next
    case (Get_user_permissions i)
    have "confined e (me ctx) s (snd (get_user_permissions i ctx s))"
      unfolding get_user_permissions_def by (rule confined_then(1)) simp_all
    with Get_user_permissions show ?thesis by simp
  next
    case (List_tokens v)
    have "confined e (me ctx) s (snd (list_tokens v ctx s))"
      unfolding list_tokens_def Let_def by (rule confined_then(3), simp, rule confined_then(3)) simp_all
    with List_tokens show ?thesis by simp
  next
    case Logout
    then show ?thesis by (simp add: logout_confined [OF parts(1) own])
  next
    case (Revoke_session i)
    then show ?thesis by (simp add: revoke_session_confined [OF parts(1) p])
  next
    case (Create_token body)
    then show ?thesis by (simp add: create_token_route_def create_token_confined [OF ok])
  next
    case (Revoke_token i)
    then show ?thesis by (simp add: revoke_token_confined [OF parts(2) p])
  next
    case (Update_user i body)
    then show ?thesis by (simp add: update_user_route_confined [OF p])
  next
    case (Verify_password i w)
    then show ?thesis by (simp add: verify_password_confined [OF p])
  next
    case (Change_password i body)
    then show ?thesis by (simp add: change_password_route_confined [OF parts(1) p])
  next
    case (List_users q sk tk)
    then show ?thesis by (simp add: list_users_route_def)
  next
    case (Get_user i)
    then show ?thesis by (simp add: get_user_route_def)
  next
    case List_groups
    then show ?thesis by (simp add: list_groups_def)
  next
    case (Get_group name)
    then show ?thesis by (simp add: get_group_route_def)
  next
    case Current_session
    then show ?thesis by (simp add: current_session_def split: option.split)
  qed
qed

section \<open>The interface\<close>

lemma update_last_used_others:
  assumes "dget (a_tokens s) k = Some t" and "at_user_id t = i"
  shows "tokens_of_others i (s\<lparr>a_tokens := ts_update_last_used k n (a_tokens s)\<rparr>) = tokens_of_others i s"
  using assms by (simp add: tokens_of_others_def ts_update_last_used_def) (rule filter_dset, auto)

lemma last_activity_others:
  assumes "dget (a_sessions s) h = Some se" and "se_user_id se = i"
  shows "sessions_of_others e i (s\<lparr>a_sessions := ss_update_last_activity n h (a_sessions s)\<rparr>) = sessions_of_others e i s"
  using assms by (simp add: sessions_of_others_def ss_update_last_activity_def) (rule filter_dset, auto)

lemma authenticated_confined:
  assumes ok: "stores_ok e s" and run: "authenticate_token e token s = (Inr ctx, t)"
  shows "confined e (me ctx) s t" "stores_ok e t" "own_login e ctx t"
proof -
  have live: "live_user j s = Some u \<Longrightarrow> u_id u = j" for j u by (auto simp: live_user_def split: option.splits if_splits)
  have draws: "a_draws t = a_draws s" using authenticate_token_draws [of e token s] run by simp
  have "confined e (me ctx) s t \<and> stores_ok e t \<and> own_login e ctx t"
  proof (cases "py_startswith token API_TOKEN_PREFIX")
    case True
    then have run: "authenticate_api_token e token s = (Inr ctx, t)" using run by (simp add: authenticate_token_def)
    then obtain v ctx0 where v: "ts_get_token_by_hash (hash_token e token) (a_tokens s) = Some v"
      and ctx0: "context_for_api_token e v s = Inr ctx0"
      by (auto simp: authenticate_api_token_def split: option.splits sum.splits)
    have ctx: "cx_user ctx = cx_user ctx0" "cx_token ctx = None"
      and t: "t = s \<or> t = s\<lparr>a_tokens := ts_update_last_used (at_id v) (e_now e) (a_tokens s)\<rparr>"
      using run v ctx0 by (auto simp: authenticate_api_token_def context_for_api_token_def Let_def split: option.splits if_splits)
    have id: "at_user_id v = me ctx"
      using context_for_api_token_Inr [OF ctx0] live ctx(1) by metis
    obtain k where k: "(k, v) \<in> set (a_tokens s)"
      using v by (auto simp: ts_get_token_by_hash_def find_Some_iff dvalues_def) (metis nth_mem prod.collapse)
    then have "at_id v = k" and get: "dget (a_tokens s) k = Some v"
      using ok by (auto simp: stores_ok_def token_store_ok_def dget_in)
    then have others: "tokens_of_others (me ctx) t = tokens_of_others (me ctx) s"
      using t update_last_used_others [OF get id] by auto
    have "e_rnd e n \<noteq> at_id v" if "a_draws s \<le> n" for n
      using ok get that unfolding \<open>at_id v = k\<close> stores_ok_def by (metis option.distinct(1))
    then have "token_store_ok (a_tokens t)" "\<forall>n \<ge> a_draws t. dget (a_tokens t) (e_rnd e n) = None"
      using t ok get \<open>at_id v = k\<close> by (auto simp: stores_ok_def token_store_ok_def ts_update_last_used_def set_dset dget_dset)
    then have "stores_ok e t" using t ok by (auto simp: stores_ok_def)
    moreover have "confined e (me ctx) s t"
      by (rule confined_stores) (use t others in \<open>auto simp: credentials_of_others_def sessions_of_others_def\<close>)
    ultimately show ?thesis using ctx(2) by (simp add: own_login_def)
  next
    case False
    from run obtain se u where se: "dget (a_sessions s) (hash_token e token) = Some se" "live_user (se_user_id se) s = Some u"
      "cx_user ctx = u" "cx_token ctx = Some token"
      "t = s\<lparr>a_sessions := ss_update_last_activity (e_now e) (hash_token e token) (a_sessions s)\<rparr>"
      unfolding authenticate_session_Inr [OF False] by auto
    have id: "se_user_id se = me ctx" using live [OF se(2)] se(3) by simp
    have "stores_ok e t" using ok se(5) session_store_ok_touch by (simp add: stores_ok_def)
    moreover have "confined e (me ctx) s t"
      using last_activity_others [OF se(1) id] se(5) by (auto intro!: confined_stores simp: credentials_of_others_def tokens_of_others_def)
    moreover have "own_login e ctx t"
      using se id by (simp add: own_login_def ss_update_last_activity_def dget_dset)
    ultimately show ?thesis by blast
  qed
  then show "confined e (me ctx) s t" "stores_ok e t" "own_login e ctx t" by blast+
qed

text \<open>
  C24. A caller that holds none of the management permissions is confined to its own account: whatever it
  asks of the users interface, no group, no other user, no password, no API token and no living session of
  anybody else changes, and its own record keeps its name, its groups, its state and its home directory.
\<close>

theorem callers_confined:
  assumes "user_store_ok (a_users s)" and "session_store_ok (a_sessions s)" and "token_store_ok (a_tokens s)"
    and "\<forall>n \<ge> a_draws s. dget (a_tokens s) (e_rnd e n) = None"
    and "rq_auth rq = None" and "bearer_token rq = Some token"
    and run: "authenticate_token e token s = (Inr ctx, s1)"
    and p: "powerless ctx"
    and "users_api_route rq chunks (serve_users e None None rq peer (Call c)) s = (r, s')"
  shows "confined e (u_id (cx_user ctx)) s s'"
proof -
  have ok: "stores_ok e s" using assms(1-4) by (simp add: stores_ok_def)
  note auth = authenticated_confined [OF ok run]
  have pending: "get_auth_pending e None None rq s = (Inr ctx, s1)"
    using assms(5,6) run by (simp add: get_auth_pending_def ensure_ready_def andThen_def authenticate_request_def lift_api_def)
  then have get: "get_auth e None None rq s = ((if must_change ctx then Inl (Refused (forbidden ''password change required'')) else Inr ctx), s1)"
    by (simp add: get_auth_def andThen_def raise_def ret_def)
  have caller: "\<exists>er. caller c e None None rq s = (er, s1)
      \<and> (\<forall>x. er = Inr x \<longrightarrow> x = ctx \<and> (\<forall>q. dependency_of c = Needs q \<longrightarrow> ctx_can ctx q))"
    by (cases "dependency_of c") (auto simp: caller_def pending get require_permission_def andThen_def raise_def ret_def)
  then obtain er where er: "caller c e None None rq s = (er, s1)"
    "\<And>x. er = Inr x \<Longrightarrow> x = ctx \<and> (\<forall>q. dependency_of c = Needs q \<longrightarrow> ctx_can ctx q)" by blast
  have "confined e (me ctx) s (snd (andThen (caller c e None None rq) (\<lambda>ctx. lift_api (handle e rq peer c ctx)) s))"
  proof (cases er)
    case (Inr x)
    with er have "x = ctx" "\<And>q. dependency_of c = Needs q \<Longrightarrow> ctx_can ctx q" by auto
    from confined_trans [OF auth(1) handle_confined [OF auth(2) p auth(3) this(2)]] this(1) er(1) Inr show ?thesis
      by (simp add: andThen_def)
  qed (use er(1) auth(1) in \<open>simp add: andThen_def\<close>)
  then have "confined e (me ctx) s (snd (serve_users e None None rq peer (Call c) s))"
    by (simp add: serve_users_def) (simp add: store_write_def andThen_def guard_def)
  then have "confined e (me ctx) s (snd (users_api_route rq chunks (serve_users e None None rq peer (Call c)) s))"
    by (rule users_api_route_state [OF confined_refl])
  then show ?thesis using assms(9) by simp
qed

text \<open>A server with an administrator and Eve, who is signed in and in no group.\<close>

definition sample_user :: "string \<Rightarrow> string \<Rightarrow> string list \<Rightarrow> user" where
  "sample_user i name gs = \<lparr>u_id = i, u_name = name, u_email = name @ ''@example.com'', u_groups = gs, u_disabled = False,
     u_must_change_password = False, u_home_dir = None, u_data = None, u_last_login_at = None, u_created_at = 1, u_updated_at = 1\<rparr>"

definition eve_session :: session where
  "eve_session = \<lparr>se_id = ''s1'', se_token_hash = ''eve-token'', se_user_id = ''u2'', se_user_name = ''eve'', se_created_at = 1000,
     se_last_activity = 1000, se_metadata = sample_meta\<rparr>"

definition eve_server :: auth where
  "eve_server = (new_auth (new_audit_store 100 100))
     \<lparr>a_users := [(''u1'', sample_user ''u1'' ''boss'' [''admin'']), (''u2'', sample_user ''u2'' ''eve'' [])],
      a_sessions := [(''eve-token'', eve_session)]\<rparr>"

definition put_request :: "string \<Rightarrow> http_request" where
  "put_request i = with_bearer ''PUT'' (''/api/v1/qcli/users/'' @ i) ''eve-token''"

definition new_email :: user_request where
  "new_email = \<lparr>ur_name = None, ur_email = Some ''me@example.com'', ur_groups = None, ur_disabled = None, ur_home_dir = None, ur_data = None\<rparr>"

definition put_email :: "string \<Rightarrow> reply option \<times> auth" where
  "put_email i =
     users_api_route (put_request i) [30]
       (serve_users (sample_env 2000) None None (put_request i) None (Call (Update_user i new_email))) eve_server"

theorem callers_confined_witness:
  "confined (sample_env 2000) ''u2'' eve_server (snd (put_email ''u2''))
   \<and> map (\<lambda>u. (u_name u, u_email u)) (us_get_users (a_users (snd (put_email ''u2''))))
       = [(''boss'', ''boss@example.com''), (''eve'', ''me@example.com'')]
   \<and> fst (put_email ''u1'') = Some (users_error 403 ''missing permission: users:update'')"
proof -
  let ?s = eve_server and ?e = "sample_env 2000" and ?rq = "put_request ''u2''"
  have ok: "user_store_ok (a_users ?s)" "session_store_ok (a_sessions ?s)" "token_store_ok (a_tokens ?s)" "a_tokens ?s = []"
    by code_simp+
  then have new: "\<forall>n \<ge> a_draws ?s. dget (a_tokens ?s) (e_rnd ?e n) = None" by simp
  have rq: "rq_auth ?rq = None" "bearer_token ?rq = Some ''eve-token''" by code_simp+
  have "case fst (authenticate_token ?e ''eve-token'' ?s) of Inl _ \<Rightarrow> False | Inr ctx \<Rightarrow> powerless ctx \<and> u_id (cx_user ctx) = ''u2''"
    by code_simp
  then obtain ctx s1 where run: "authenticate_token ?e ''eve-token'' ?s = (Inr ctx, s1)" and ctx: "powerless ctx" "u_id (cx_user ctx) = ''u2''"
    by (cases "authenticate_token ?e ''eve-token'' ?s") (auto split: sum.splits)
  have "put_email ''u2'' = (fst (put_email ''u2''), snd (put_email ''u2''))" by simp
  from callers_confined [OF ok(1-3) new rq run ctx(1) this [unfolded put_email_def]] ctx(2)
  have "confined ?e ''u2'' ?s (snd (put_email ''u2''))" unfolding put_email_def by simp
  moreover have "map (\<lambda>u. (u_name u, u_email u)) (us_get_users (a_users (snd (put_email ''u2''))))
      = [(''boss'', ''boss@example.com''), (''eve'', ''me@example.com'')]" by code_simp
  moreover have "fst (put_email ''u1'') = Some (users_error 403 ''missing permission: users:update'')" by code_simp
  ultimately show ?thesis by blast
qed

end
