(* ===== verification/Spec2Isabelle.thy ===== *)
theory Spec2Isabelle
  imports UsersSafety JobFacts JobStats JobRoutesFacts AuditRoutes FilesFacts CommandFacts ShellFacts ShellProcesses ProtectionFacts EventFacts SqliteFacts FileRoutesFacts UsersConfinement
begin

text \<open>
  Verification of the command-line server \<open>qodalis-cli-server\<close>: a web server that executes commands,
  stores files, runs background jobs and opens remote shells for users it authenticates.

  \<^bold>\<open>The program and its parts.\<close>  Requests reach the core server (\<open>src/src/qodalis_cli\<close>).  The users plugin
  (\<open>src/plugins/users\<close>) tells who the caller is and what the caller may do; the execute routes look the
  command up in the registry, check the permissions its processors declare, run it and count the use;
  the shell manager opens terminals for callers that hold \<open>shell:execute\<close> and closes them when their
  session ends.  The audit plugin keeps what happened, the jobs plugin runs timed jobs and keeps their
  runs, the filesystem plugins keep trees of files.  Everything that changes publishes an event.

  \<^bold>\<open>Theories.\<close>  \<open>Prelude\<close> holds what the components share: Python strings, ordered dictionaries, slices,
  results with errors, state passing, and transition systems with an invariant
  (locale \<open>invariant_system\<close>, interpreted for the audit store, the lockout table, the users services, the
  users interface, the scheduler, the shells and the event sockets).

  \<^item> \<open>Permissions\<close> (\<open>users/permissions.py\<close> and \<open>covers\<close>, \<open>uncovered\<close> of \<open>auth_service.py\<close>): matching is the
    documented wildcard rule; covering grants nothing beyond the grants, up to a trailing wildcard.
  \<^item> \<open>AuditStore\<close> (\<open>audit/in_memory_audit_store.py\<close>): the store is the latest entries of each kind.
  \<^item> \<open>UserStores\<close> (\<open>users/models.py\<close>, \<open>stores/in_memory_*.py\<close>): records and dictionaries of users, groups,
    credentials, sessions and API tokens, in insertion order as Python keeps them.  The locale
    \<open>session_store_spec\<close> is the part of a session store that revocation relies on.
  \<^item> \<open>Validation\<close> (\<open>validation.py\<close>, \<open>errors.py\<close>, \<open>services/password_hasher.py\<close>).
  \<^item> \<open>AuthService\<close> (\<open>services/auth_service.py\<close>): lockout, rate limit, sessions, API tokens, tickets, sign-in,
    sign-out, clean-up, seeding, on one state record \<open>auth\<close>.  \<open>Throttling\<close> proves the bounds of the two
    throttles (locale \<open>throttle_table\<close>), \<open>AuthFacts\<close> and \<open>SignIn\<close> what authentication guarantees.
  \<^item> \<open>UsersService\<close> (\<open>services/users_service.py\<close>) with \<open>UsersFacts\<close> and \<open>UsersSafety\<close>: an enabled administrator
    always remains, names stay unique, no escalation, complete deletion.
  \<^item> \<open>UsersRoutes\<close> (\<open>controllers/*.py\<close>, the views of \<open>models.py\<close>, \<open>UsersApiRoute\<close> of \<open>errors.py\<close>): one action per
    route on the state \<open>auth\<close>, and \<open>serve_users\<close>, the guard, the caller and the handler of a request in the
    order the web framework runs them.  \<open>UsersRoutesFacts\<close>: sequences of requests keep somebody in charge and
    API tokens limited, what a created token can do.  \<open>UsersConfinement\<close>: callers without management
    permissions change nothing but their own account.
  \<^item> \<open>Protection\<close> (\<open>server_protection.py\<close>, \<open>middleware/auth_middleware.py\<close>, the bearer helpers of \<open>_http.py\<close>, the
    external adapter of \<open>auth_service.py\<close>): public paths and permissions as regular expressions with an
    executable matcher, and the middleware.  \<open>ProtectionFacts\<close>: the matcher decides the language of an
    expression, which requests and sockets reach the application.  The theorem \<open>execute_over_http\<close> at the end
    of this theory composes it with sessions and the execute route.
  \<^item> \<open>Events\<close> (\<open>events.py\<close>, \<open>cli_event_bus.py\<close>, \<open>session_bound_sockets.py\<close>), \<open>EventSockets\<close>
    (\<open>cli_event_socket_manager.py\<close>, \<open>cli_log_socket_manager.py\<close>): events with their audience, the bus, the
    queues of the sockets; the locale \<open>session_sockets\<close> is what the socket managers owe the check that closes
    the sockets of ended sessions, interpreted for both.  \<open>EventFacts\<close>: events arrive in order and only where
    their audience allows.
  \<^item> \<open>JobStorage\<close> (\<open>jobs/in_memory_job_storage_provider.py\<close>, \<open>interval_parser.py\<close> and the job records of the
    abstractions; locale \<open>job_store\<close>), \<open>JobScheduler\<close> (\<open>cli_job_scheduler.py\<close>, one step per await),
    \<open>JobSafety\<close> (slots and runs), \<open>JobFacts\<close> (start, deletion, ids), \<open>JobStats\<close> (\<open>job_stats.py\<close>).
    \<open>JobRoutes\<close>, \<open>JobRoutesFacts\<close> (\<open>cli_jobs_controller.py\<close>): a request is a step of the scheduler or changes
    nothing, when a job is answered to be unknown, what the pages of the listing of executions are.
  \<^item> \<open>AuditRoutes\<close> (\<open>cli_audit_controller.py\<close>, \<open>CliAuditPlugin.log\<close>): listing and clearing the audit log, and
    what is left after clearing it.
  \<^item> \<open>FileTree\<close> (path normalisation and nodes of \<open>in_memory_provider.py\<close>), \<open>TreeOps\<close> (their effect on the
    files at every path), \<open>FileStore\<close> (the interface, locale \<open>file_storage\<close>), \<open>MemFiles\<close> and \<open>JsonFiles\<close> (the
    two providers, each an interpretation), \<open>FilesFacts\<close>.
  \<^item> \<open>SqliteFiles\<close>, \<open>SqliteFacts\<close> (\<open>sqlite_provider.py\<close>): the table, LIKE, what a removal takes.
  \<^item> \<open>FileRoutes\<close> (\<open>filesystem_controller.py\<close>, \<open>event_publishing_provider.py\<close>, \<open>filesystem_path_validator.py\<close>):
    uploads, the routes over a record of provider methods, the provider that announces changes, the older routes over
    the operating system.  \<open>FileRoutesFacts\<close> (locale \<open>provided_store\<close>, which extends \<open>file_storage\<close>, interpreted for
    two providers): changes are announced, uploads capped, the older routes confined.
  \<^item> \<open>ShellWords\<close> (\<open>shell_words.py\<close>, paging), \<open>Commands\<close> (registry, permission check, executor, execute
    routes, output limits, response builder), \<open>CommandFacts\<close>.
  \<^item> \<open>ShellProcesses\<close> (process tables and the search for processes to signal), \<open>ShellSessions\<close>
    (\<open>shell_security.py\<close>, \<open>shell_access.py\<close>, \<open>cli_shell_session_manager.py\<close>), \<open>ShellFacts\<close> (locale
    \<open>shell_owner\<close>, interpreted for the users plugin).

  \<^bold>\<open>Conventions.\<close>  An operation that raises returns a sum (\<open>Inl\<close> the error); one that also changes state
  returns result and state.  A coroutine runs atomically between two awaits that can change what it
  looks at; the scheduler has a phase for every await of a run.  Times are milliseconds
  as integers, or the ISO text the code keeps.  Random values are the next of a stream of the
  environment.  Strings are lists of Latin-1 characters.  Quotients of floats are exact fractions.
  Parameters stand for what is not the program's: digests and base64, the UTF-8 codec, cron occurrences,
  the multipart parser, the parser of ISO times, the calls of the operating system on files,
  the external authentication adapter, the check of the \<open>Origin\<close> header, the processors of commands; the
  JSON file is the document it holds.  Properties that rely on one of them say so as a hypothesis.

  \<^bold>\<open>Termination.\<close>  Loops over data are structural or have a measure (word splitting, process
  search, reading a JSON document).  Three loops have fuel: reading all pages of a store stops after as
  many pages as there are items plus one, the search for a free job id after as many steps as there are
  jobs, collecting runs for statistics after as many pages as there are items; it is proved that the fuel suffices.

  \<^bold>\<open>Not modelled.\<close>  The assembly of the application (web
  framework), the parsing of request bodies, the pseudo-terminal and the delivery of signals (operating
  system), the comparison of origins (\<open>urlsplit\<close> and \<open>fnmatch\<close> of the library), the redaction of log lines, commits
  and disk errors of the SQLite provider, the S3, AWS, database and weather plugins (requests to external
  services), the file provider over the host file system, the MCP protocol, the dashboard.
\<close>

section \<open>A command from the network to its processor\<close>

text \<open>The execute route behind the protection of the users plugin, without an external adapter.\<close>

definition serve_execute ::
    "env \<Rightarrow> protection \<Rightarrow> handlers \<Rightarrow> int \<Rightarrow> int \<Rightarrow> http_request \<Rightarrow> cli_command \<Rightarrow> auth \<times> executor
       \<Rightarrow> (outcome + execute_answer) \<times> auth \<times> executor" where
  "serve_execute e pr h now duration rq cmd st =
     (case protect_http e None None pr rq (fst st) of
        (Reaches_app ctx, s1) \<Rightarrow>
          (let (a, x1) = execute_command h now duration ctx cmd (snd st) in (Inr a, s1, x1))
      | (out, s1) \<Rightarrow> (Inl out, s1, snd st))"

lemma executed_iff:
  "execute_command h now duration (Some c) cmd x = (a, x') \<Longrightarrow>
     ((\<exists>r. a = Executed r) \<longleftrightarrow> may_run (ex_registry x) c cmd) \<and> (\<not> may_run (ex_registry x) c cmd \<longrightarrow> x' = x)"
  using denied_iff [of "ex_registry x" c cmd]
  by (auto simp: execute_command_def split: option.splits prod.splits)

text \<open>The contexts of live sessions, as the stores describe them.\<close>

lemma session_context_iff:
  assumes "user_store_ok (a_users s)" "\<not> py_startswith token API_TOKEN_PREFIX"
    and P: "\<And>c c'. cx_user c = cx_user c' \<Longrightarrow> cx_permissions c = cx_permissions c' \<Longrightarrow> P c = P c'"
  shows "(\<exists>ctx t. authenticate_token e token s = (Inr ctx, t) \<and> P ctx) \<longleftrightarrow>
    (\<exists>se ctx. dget (a_sessions s) (hash_token e token) = Some se \<and> \<not> is_expired e se
       \<and> cx_user ctx \<in> set (us_get_users (a_users s)) \<and> u_id (cx_user ctx) = se_user_id se \<and> \<not> u_disabled (cx_user ctx)
       \<and> cx_permissions ctx = user_permissions (cx_user ctx) s \<and> P ctx)" (is "?l \<longleftrightarrow> ?r")
proof
  assume ?l
  then obtain ctx t where ctx: "authenticate_token e token s = (Inr ctx, t)" "P ctx" by blast
  from ctx(1) obtain se where "dget (a_sessions s) (hash_token e token) = Some se" "\<not> is_expired e se"
    "live_user (se_user_id se) s = Some (cx_user ctx)" "cx_permissions ctx = user_permissions (cx_user ctx) s"
    unfolding authenticate_session_Inr [OF assms(2)] by auto
  with ctx(2) show ?r unfolding live_user_iff [OF assms(1)] by blast
next
  assume ?r
  then obtain se ctx where r: "dget (a_sessions s) (hash_token e token) = Some se" "\<not> is_expired e se"
    "live_user (se_user_id se) s = Some (cx_user ctx)" "cx_permissions ctx = user_permissions (cx_user ctx) s" "P ctx"
    unfolding live_user_iff [OF assms(1)] by blast
  with P [of ctx "\<lparr>cx_user = cx_user ctx, cx_groups = u_groups (cx_user ctx), cx_permissions = user_permissions (cx_user ctx) s,
      cx_session = Some (se\<lparr>se_last_activity := e_now e\<rparr>), cx_token = Some token, cx_external = False, cx_api_token = None\<rparr>"]
  show ?l unfolding authenticate_session_Inr [OF assms(2)] by auto
qed

text \<open>
  C22. Over the network, a command of a session runs exactly when the session of its bearer token is
  stored and has not expired, and its user exists, is enabled, has no password change pending and holds,
  by the groups the user is in now, \<open>commands:execute\<close> and every permission declared on the way to the
  processor.  Otherwise nothing is run, counted or published.
\<close>

theorem execute_over_http:
  assumes "rq_path rq \<in> {''/api/qcli/execute'', ''/api/v1/qcli/execute''}"
    and "py_upper_ascii (rq_method rq) = ''POST''" and "\<not> configured_public pr (rq_path rq) ''POST''"
    and "bearer_token rq = Some token" and "\<not> py_startswith token API_TOKEN_PREFIX"
    and "user_store_ok (a_users s)"
    and "serve_execute e pr h now duration rq cmd (s, x) = (r, s', x')"
  shows "((\<exists>a. r = Inr (Executed a)) \<longleftrightarrow>
      (\<exists>se ctx. dget (a_sessions s) (hash_token e token) = Some se \<and> \<not> is_expired e se
         \<and> cx_user ctx \<in> set (us_get_users (a_users s)) \<and> u_id (cx_user ctx) = se_user_id se
         \<and> \<not> u_disabled (cx_user ctx) \<and> cx_permissions ctx = user_permissions (cx_user ctx) s
         \<and> \<not> u_must_change_password (cx_user ctx)
         \<and> ctx_can ctx ''commands:execute'' \<and> may_run (ex_registry x) ctx cmd))
    \<and> ((\<nexists>a. r = Inr (Executed a)) \<longrightarrow> x' = x)"
proof -
  have may: "may_run (ex_registry x) c cmd = may_run (ex_registry x) c' cmd" if "cx_permissions c = cx_permissions c'" for c c'
  proof -
    have "ctx_can c = ctx_can c'" using that by (simp add: ctx_can_def fun_eq_iff)
    then show ?thesis by (simp add: may_run_def cong: option.case_cong)
  qed
  obtain v where v: "rq_path rq = v @ ''execute'' @ []" "v \<in> {''/api/qcli/'', ''/api/v1/qcli/''}"
    using assms(1) by auto
  have needs: "needed ''execute'' [] ''POST'' = Some ''commands:execute''" by code_simp
  have "http_permission (rq_path rq) (py_upper_ascii (rq_method rq)) (pr_base_paths pr) = Some ''commands:execute''"
    using needed_permission [OF _ v(2) needs] v(1) assms(2) by (simp add: subtree_def)
  note reach = protect_http_reaches [OF needed_not_exempt [OF v assms(2) _ needs assms(3)] this, of e None None s]
  have reach': "protect_http e None None pr rq s = (Reaches_app a, t) \<longleftrightarrow>
      (\<exists>ctx. authenticate_token e token s = (Inr ctx, t) \<and> a = Some ctx \<and> \<not> must_change ctx \<and> ctx_can ctx ''commands:execute'')"
    for a t using reach [of a t] assms(4) by (auto simp: authenticate_request_token ensure_ready_def)
  let ?P = "\<lambda>c. \<not> must_change c \<and> ctx_can c ''commands:execute'' \<and> may_run (ex_registry x) c cmd"
  have main: "((\<exists>a. r = Inr (Executed a)) \<longleftrightarrow> (\<exists>ctx t. authenticate_token e token s = (Inr ctx, t) \<and> ?P ctx))
      \<and> ((\<nexists>a. r = Inr (Executed a)) \<longrightarrow> x' = x)"
  proof (cases "protect_http e None None pr rq s")
    case (Pair out t)
    show ?thesis
    proof (cases out)
      case (Reaches_app a)
      with Pair obtain ctx where ctx: "authenticate_token e token s = (Inr ctx, t)" "a = Some ctx" "\<not> must_change ctx"
        "ctx_can ctx ''commands:execute''" using reach' by blast
      obtain b y where run: "execute_command h now duration (Some ctx) cmd x = (b, y)" by fastforce
      with assms(7) Pair Reaches_app ctx(2) have "r = Inr b" "x' = y" by (simp_all add: serve_execute_def)
      with executed_iff [OF run] ctx show ?thesis by auto
    qed (use assms(7) Pair reach' in \<open>auto simp: serve_execute_def\<close>)
  qed
  have live: "(\<exists>ctx t. authenticate_token e token s = (Inr ctx, t) \<and> ?P ctx) \<longleftrightarrow>
    (\<exists>se ctx. dget (a_sessions s) (hash_token e token) = Some se \<and> \<not> is_expired e se
       \<and> cx_user ctx \<in> set (us_get_users (a_users s)) \<and> u_id (cx_user ctx) = se_user_id se \<and> \<not> u_disabled (cx_user ctx)
       \<and> cx_permissions ctx = user_permissions (cx_user ctx) s \<and> ?P ctx)"
  proof (rule session_context_iff [OF assms(6,5)])
    fix c c' :: auth_context
    assume "cx_user c = cx_user c'" "cx_permissions c = cx_permissions c'"
    then show "?P c = ?P c'" using may [of c c'] by (simp add: must_change_def ctx_can_def)
  qed
  show ?thesis using main unfolding live unfolding must_change_def .
qed


theorem execute_over_http_witness:
  "(\<exists>a. fst (serve_execute (sample_env 3000) open_server sample_handlers 3000 1
        (with_bearer ''post'' ''/api/v1/qcli/execute'' root_token) (sample_command []) (snd signed_in, sample_executor))
      = Inr (Executed a))
   \<and> snd (snd (serve_execute (sample_env 3000) open_server sample_handlers 3000 1
        (with_bearer ''post'' ''/api/v1/qcli/execute'' ''other'') (sample_command []) (snd signed_in, sample_executor)))
      = sample_executor"
proof -
  let ?rq = "\<lambda>t. with_bearer ''post'' ''/api/v1/qcli/execute'' t"
  let ?run = "\<lambda>t. serve_execute (sample_env 3000) open_server sample_handlers 3000 1 (?rq t) (sample_command [])
      (snd signed_in, sample_executor)"
  have m: "py_upper_ascii (rq_method (?rq t)) = ''POST''" for t
    unfolding with_bearer_def http_request.simps by code_simp
  have path: "rq_path (?rq t) \<in> {''/api/qcli/execute'', ''/api/v1/qcli/execute''}"
    and pub: "\<not> configured_public open_server (rq_path (?rq t)) ''POST''" for t
    by (simp_all add: with_bearer_def open_server_def configured_public_def)
  have t: "bearer_token (?rq root_token) = Some root_token" "bearer_token (?rq ''other'') = Some ''other''"
    "\<not> py_startswith root_token API_TOKEN_PREFIX" "\<not> py_startswith ''other'' API_TOKEN_PREFIX" by code_simp+
  have ok: "user_store_ok (a_users (snd signed_in))" by code_simp
  have none: "dget (a_sessions (snd signed_in)) (hash_token (sample_env 3000) ''other'') = None" by code_simp
  have ran: "case fst (?run root_token) of Inr (Executed a) \<Rightarrow> True | _ \<Rightarrow> False" by code_simp
  obtain r s' x' where run: "?run ''other'' = (r, s', x')" by (cases "?run ''other''") blast
  obtain r1 s1 x1 where run1: "?run root_token = (r1, s1, x1)" by (cases "?run root_token") blast
  from execute_over_http [OF path m pub t(2,4) ok run] none have "x' = sample_executor" by simp
  moreover have "\<exists>a. r1 = Inr (Executed a)"
    using execute_over_http [OF path m pub t(1,3) ok run1] ran run1 by (auto split: sum.splits execute_answer.splits)
  ultimately show ?thesis using run run1 by simp
qed

end
